theory Spec2Isabelle
  imports Main "HOL-Library.Log_Nat" "HOL-Library.Code_Target_Numeral"
begin

section \<open>Bytes and character classes\<close>

text \<open>
  The input of \<open>extract_zzd_data\<close> is a Python \<open>bytes\<close> object: a list of bytes,
  modelled as a list of \<^typ>\<open>char\<close> (a HOL character is one byte).  The four patterns are
  compiled from bytes literals, so \<open>\d\<close>, \<open>\s\<close>, \<open>\w\<close> and \<open>re.IGNORECASE\<close> are
  the ASCII-only versions.
\<close>

type_synonym bytes = string

definition NL :: char where
  "NL = CHR 0x0A"

definition is_digit :: "char \<Rightarrow> bool" where
  "is_digit c \<longleftrightarrow> c \<in> set ''0123456789''"

definition is_space :: "char \<Rightarrow> bool" where
  "is_space c \<longleftrightarrow> c \<in> set [CHR '' '', CHR 0x09, CHR 0x0A, CHR 0x0B, CHR 0x0C, CHR 0x0D]"

definition is_upper :: "char \<Rightarrow> bool" where
  "is_upper c \<longleftrightarrow> c \<in> set ''ABCDEFGHIJKLMNOPQRSTUVWXYZ''"

definition is_lower :: "char \<Rightarrow> bool" where
  "is_lower c \<longleftrightarrow> c \<in> set ''abcdefghijklmnopqrstuvwxyz''"

definition is_word :: "char \<Rightarrow> bool" where
  "is_word c \<longleftrightarrow> is_lower c \<or> is_upper c \<or> is_digit c \<or> c = CHR ''_''"

definition lower :: "char \<Rightarrow> char" where
  "lower c = (case map_of (zip ''ABCDEFGHIJKLMNOPQRSTUVWXYZ'' ''abcdefghijklmnopqrstuvwxyz'') c of
                Some l \<Rightarrow> l | None \<Rightarrow> c)"

definition upper :: "char \<Rightarrow> char" where
  "upper c = (case map_of (zip ''abcdefghijklmnopqrstuvwxyz'' ''ABCDEFGHIJKLMNOPQRSTUVWXYZ'') c of
                Some u \<Rightarrow> u | None \<Rightarrow> c)"

section \<open>The regular expressions\<close>

text \<open>
  Python's \<open>re\<close> is a backtracking matcher: alternatives are tried left to right, a greedy
  repetition tries the longest run first, a lazy one the shortest, and the first complete
  match wins.  The patterns of \<open>zzdPlot.py\<close> only repeat single character classes, so a
  pattern is a list of items; \<open>Open\<close> and \<open>Close\<close> are the parentheses of a capture group.
  \<open>Dot\<close> is \<open>.\<close> without \<open>re.DOTALL\<close> (any byte but newline), \<open>DotAll\<close> is \<open>.\<close> with it.
  All four patterns carry \<open>re.IGNORECASE\<close>, so literals compare modulo ASCII case.
\<close>

datatype cls = Dot | DotAll | Digit | Space | NonSpace | Word | Chr char

fun cls_ok :: "cls \<Rightarrow> char \<Rightarrow> bool" where
  "cls_ok Dot c = (c \<noteq> NL)"
| "cls_ok DotAll c = True"
| "cls_ok Digit c = is_digit c"
| "cls_ok Space c = is_space c"
| "cls_ok NonSpace c = (\<not> is_space c)"
| "cls_ok Word c = is_word c"
| "cls_ok (Chr d) c = (lower c = lower d)"

datatype item =
    LitI bytes            \<comment> \<open>a literal, ignoring ASCII case\<close>
  | Star cls              \<comment> \<open>\<open>c*\<close>\<close>
  | Plus cls              \<comment> \<open>\<open>c+\<close>\<close>
  | Lazy cls              \<comment> \<open>\<open>c*?\<close>\<close>
  | Opt cls               \<comment> \<open>\<open>c?\<close>\<close>
  | Alt "bytes list"      \<comment> \<open>\<open>l1|l2|...\<close>, literals, ignoring ASCII case\<close>
  | Open
  | Close

definition starts_with_i :: "bytes \<Rightarrow> bytes \<Rightarrow> bool" where
  "starts_with_i l s \<longleftrightarrow> length l \<le> length s \<and> map lower (take (length l) s) = map lower l"

definition push :: "char \<Rightarrow> bytes list \<Rightarrow> bytes list" where
  "push x segs = (x # hd segs) # tl segs"

fun alt_size :: "item list \<Rightarrow> nat" where
  "alt_size (Alt ls # p) = length ls"
| "alt_size p = 0"

text \<open>
  \<open>bt p s\<close> matches the pattern \<open>p\<close> at the start of \<open>s\<close>, backtracking in Python's order.
  The result lists, for each item of \<open>p\<close>, the bytes that item consumed.
\<close>

function bt :: "item list \<Rightarrow> bytes \<Rightarrow> bytes list option" where
  "bt [] s = Some []"
| "bt (Open # p) s = map_option ((#) []) (bt p s)"
| "bt (Close # p) s = map_option ((#) []) (bt p s)"
| "bt (LitI l # p) s =
     (if starts_with_i l s
      then map_option ((#) (take (length l) s)) (bt p (drop (length l) s))
      else None)"
| "bt (Alt [] # p) s = None"
| "bt (Alt (l # ls) # p) s =
     (case (if starts_with_i l s then bt p (drop (length l) s) else None) of
        Some segs \<Rightarrow> Some (take (length l) s # segs)
      | None \<Rightarrow> bt (Alt ls # p) s)"
| "bt (Star c # p) [] = map_option ((#) []) (bt p [])"
| "bt (Star c # p) (x # xs) =
     (if cls_ok c x
      then (case bt (Star c # p) xs of
              Some segs \<Rightarrow> Some (push x segs)
            | None \<Rightarrow> map_option ((#) []) (bt p (x # xs)))
      else map_option ((#) []) (bt p (x # xs)))"
| "bt (Plus c # p) [] = None"
| "bt (Plus c # p) (x # xs) =
     (if cls_ok c x then map_option (push x) (bt (Star c # p) xs) else None)"
| "bt (Lazy c # p) [] = map_option ((#) []) (bt p [])"
| "bt (Lazy c # p) (x # xs) =
     (case bt p (x # xs) of
        Some segs \<Rightarrow> Some ([] # segs)
      | None \<Rightarrow> (if cls_ok c x then map_option (push x) (bt (Lazy c # p) xs) else None))"
| "bt (Opt c # p) [] = map_option ((#) []) (bt p [])"
| "bt (Opt c # p) (x # xs) =
     (if cls_ok c x
      then (case bt p xs of
              Some segs \<Rightarrow> Some ([x] # segs)
            | None \<Rightarrow> map_option ((#) []) (bt p (x # xs)))
      else map_option ((#) []) (bt p (x # xs)))"
  by pat_completeness auto
termination
  by (relation "measures [\<lambda>(p, s). length p, \<lambda>(p, s). length s, \<lambda>(p, s). alt_size p]") auto

text \<open>The capture groups: the bytes consumed between each \<open>Open\<close> and its \<open>Close\<close>.\<close>

fun collect :: "item list \<Rightarrow> bytes list \<Rightarrow> bytes \<Rightarrow> bytes list" where
  "collect (Open # p) (s # ss) acc = collect p ss []"
| "collect (Close # p) (s # ss) acc = acc # collect p ss []"
| "collect (i # p) (s # ss) acc = collect p ss (acc @ s)"
| "collect p ss acc = []"

text \<open>A match object: group 0 (the whole match) followed by the numbered groups.\<close>

type_synonym match = "bytes list"

definition mk_match :: "item list \<Rightarrow> bytes list \<Rightarrow> match" where
  "mk_match p segs = concat segs # collect p segs []"

definition group :: "match \<Rightarrow> nat \<Rightarrow> bytes" where
  "group m k = m ! k"

text \<open>\<open>pattern.search(s)\<close>: the match at the leftmost position that has one.\<close>

fun search :: "item list \<Rightarrow> bytes \<Rightarrow> match option" where
  "search p [] = map_option (mk_match p) (bt p [])"
| "search p (x # xs) =
     (case bt p (x # xs) of
        Some segs \<Rightarrow> Some (mk_match p segs)
      | None \<Rightarrow> search p xs)"

text \<open>
  \<open>pattern.finditer(s)\<close>: the successive non-overlapping matches, left to right; the scan
  resumes where the previous match ended.  (After an empty match the scan moves on by one
  byte; the patterns below start with a non-empty literal and never match the empty
  string.)
\<close>

function finditer :: "item list \<Rightarrow> bytes \<Rightarrow> match list" where
  "finditer p [] = (case bt p [] of Some segs \<Rightarrow> [mk_match p segs] | None \<Rightarrow> [])"
| "finditer p (x # xs) =
     (case bt p (x # xs) of
        Some segs \<Rightarrow> mk_match p segs # finditer p (drop (length (concat segs) - 1) xs)
      | None \<Rightarrow> finditer p xs)"
  by pat_completeness auto
termination
  by (relation "measure (\<lambda>(p, s). length s)") auto

text \<open>\<^verbatim>\<open>RE_START = re.compile(rb'start time.*?(\d+\.?\d*)', re.IGNORECASE)\<close>\<close>

definition RE_START :: "item list" where
  "RE_START =
    [LitI ''start time'', Lazy Dot, Open, Plus Digit, Opt (Chr CHR ''.''), Star Digit, Close]"

text \<open>\<^verbatim>\<open>RE_END = re.compile(rb'end time.*?(\d+\.?\d*)', re.IGNORECASE)\<close>\<close>

definition RE_END :: "item list" where
  "RE_END =
    [LitI ''end time'', Lazy Dot, Open, Plus Digit, Opt (Chr CHR ''.''), Star Digit, Close]"

text \<open>
  \<^verbatim>\<open>RE_CONV = re.compile(rb'Poor model convergence.*?time\s+(\d+\.?\d*).*?\n.*?\n.*?MAX DQ=\s*(\S+)\s+at\s+(\S+).*?MAX DH=\s*(\S+)\s+at\s+(\S+)', re.DOTALL | re.IGNORECASE)\<close>
\<close>

definition RE_CONV :: "item list" where
  "RE_CONV =
    [LitI ''Poor model convergence'', Lazy DotAll, LitI ''time'', Plus Space,
     Open, Plus Digit, Opt (Chr CHR ''.''), Star Digit, Close,
     Lazy DotAll, LitI [NL], Lazy DotAll, LitI [NL], Lazy DotAll,
     LitI ''MAX DQ='', Star Space, Open, Plus NonSpace, Close,
     Plus Space, LitI ''at'', Plus Space, Open, Plus NonSpace, Close,
     Lazy DotAll, LitI ''MAX DH='', Star Space, Open, Plus NonSpace, Close,
     Plus Space, LitI ''at'', Plus Space, Open, Plus NonSpace, Close]"

text \<open>
  \<^verbatim>\<open>RE_WARN = re.compile(rb'Model time\s+(\d+\.?\d*).*?\n.*?\*\*\*\s+(warning|note|error)\s+(\w+)\s+\*\*\*\s+at label:\s+(\S+)', re.DOTALL | re.IGNORECASE)\<close>
\<close>

definition RE_WARN :: "item list" where
  "RE_WARN =
    [LitI ''Model time'', Plus Space,
     Open, Plus Digit, Opt (Chr CHR ''.''), Star Digit, Close,
     Lazy DotAll, LitI [NL], Lazy DotAll, LitI ''***'', Plus Space,
     Open, Alt [''warning'', ''note'', ''error''], Close,
     Plus Space, Open, Plus Word, Close, Plus Space, LitI ''***'', Plus Space,
     LitI ''at label:'', Plus Space, Open, Plus NonSpace, Close]"

text \<open>\<open>needle in haystack\<close> on bytes: an exact (case-sensitive) substring test.\<close>

fun contains :: "bytes \<Rightarrow> bytes \<Rightarrow> bool" where
  "contains needle [] = (needle = [])"
| "contains needle (x # xs) =
     (take (length needle) (x # xs) = needle \<or> contains needle xs)"

text \<open>The slices \<open>b[:n]\<close> and \<open>b[-n:]\<close> (for \<open>n > 0\<close>).\<close>

definition first_bytes :: "nat \<Rightarrow> bytes \<Rightarrow> bytes" where
  "first_bytes n b = take n b"

definition last_bytes :: "nat \<Rightarrow> bytes \<Rightarrow> bytes" where
  "last_bytes n b = drop (length b - n) b"

section \<open>Python floats\<close>

text \<open>
  A Python \<open>float\<close> is an IEEE 754 binary64 number.  A finite one is modelled by the
  rational it denotes (\<open>Fin\<close>); negative zero, the infinities and NaN are separate values.
  Arithmetic computes the exact rational result and rounds it to the nearest binary64
  (ties to even), so that absorption (\<open>x + 1.0 == x\<close> for large \<open>x\<close>) and overflow to
  \<open>inf\<close> are part of the model.
\<close>

datatype pyfloat = Fin rat | NegZero | PosInf | NegInf | NaN

text \<open>\<open>ilog2 q\<close> is the \<open>k\<close> with \<open>2^k \<le> q < 2^(k+1)\<close>, for \<open>q > 0\<close>.\<close>

definition ilog2 :: "rat \<Rightarrow> int" where
  "ilog2 q = (let (n, d) = quotient_of q; k = bitlen n - bitlen d
              in if 2 powi k \<le> q then k else k - 1)"

definition round_half_even :: "rat \<Rightarrow> int" where
  "round_half_even x =
     (let f = \<lfloor>x\<rfloor>; r = x - of_int f
      in if r < 1 / 2 then f
         else if 1 / 2 < r then f + 1
         else if even f then f else f + 1)"

text \<open>
  Rounding a positive rational: 53 significant bits, the least exponent of the last bit is
  \<open>-1074\<close> (subnormals), and a result of \<open>2^1024\<close> or more is \<open>inf\<close>.
\<close>

definition round_pos :: "rat \<Rightarrow> pyfloat" where
  "round_pos q =
     (let e = max (ilog2 q - 52) (- 1074);
          v = of_int (round_half_even (q / 2 powi e)) * 2 powi e
      in if 2 ^ 1024 \<le> v then PosInf else Fin v)"

fun fneg :: "pyfloat \<Rightarrow> pyfloat" where
  "fneg (Fin q) = (if q = 0 then NegZero else Fin (- q))"
| "fneg NegZero = Fin 0"
| "fneg PosInf = NegInf"
| "fneg NegInf = PosInf"
| "fneg NaN = NaN"

definition round_double :: "rat \<Rightarrow> pyfloat" where
  "round_double q =
     (if q = 0 then Fin 0
      else if 0 < q then round_pos q
      else fneg (round_pos (- q)))"

text \<open>The comparisons \<open><\<close>, \<open>==\<close>, \<open>>=\<close> and \<open>>\<close> of floats; every comparison with NaN is false.\<close>

fun flt :: "pyfloat \<Rightarrow> pyfloat \<Rightarrow> bool" where
  "flt NaN y = False"
| "flt x NaN = False"
| "flt PosInf y = False"
| "flt x PosInf = True"
| "flt x NegInf = False"
| "flt NegInf y = True"
| "flt (Fin a) (Fin b) = (a < b)"
| "flt (Fin a) NegZero = (a < 0)"
| "flt NegZero (Fin b) = (0 < b)"
| "flt NegZero NegZero = False"

fun feq :: "pyfloat \<Rightarrow> pyfloat \<Rightarrow> bool" where
  "feq NaN y = False"
| "feq x NaN = False"
| "feq (Fin a) NegZero = (a = 0)"
| "feq NegZero (Fin b) = (b = 0)"
| "feq x y = (x = y)"

definition fge :: "pyfloat \<Rightarrow> pyfloat \<Rightarrow> bool" where
  "fge x y \<longleftrightarrow> flt y x \<or> feq x y"

definition fgt :: "pyfloat \<Rightarrow> pyfloat \<Rightarrow> bool" where
  "fgt x y \<longleftrightarrow> flt y x"

text \<open>Float addition.\<close>

fun fadd :: "pyfloat \<Rightarrow> pyfloat \<Rightarrow> pyfloat" where
  "fadd NaN y = NaN"
| "fadd x NaN = NaN"
| "fadd PosInf NegInf = NaN"
| "fadd NegInf PosInf = NaN"
| "fadd PosInf y = PosInf"
| "fadd x PosInf = PosInf"
| "fadd NegInf y = NegInf"
| "fadd x NegInf = NegInf"
| "fadd NegZero NegZero = NegZero"
| "fadd NegZero (Fin b) = Fin b"
| "fadd (Fin a) NegZero = Fin a"
| "fadd (Fin a) (Fin b) = round_double (a + b)"

text \<open>\<open>min(xs)\<close> and \<open>max(xs)\<close> of a non-empty list, as Python iterates them.\<close>

fun py_min :: "pyfloat list \<Rightarrow> pyfloat" where
  "py_min [] = NaN"
| "py_min (x # xs) = foldl (\<lambda>m y. if flt y m then y else m) x xs"

fun py_max :: "pyfloat list \<Rightarrow> pyfloat" where
  "py_max [] = NaN"
| "py_max (x # xs) = foldl (\<lambda>m y. if fgt y m then y else m) x xs"

subsection \<open>\<open>float(token)\<close> on bytes\<close>

text \<open>
  CPython's \<open>float()\<close> on a bytes object: a NUL byte is an error; underscores are allowed
  only between two digits and are removed; surrounding ASCII whitespace is stripped; what
  is left must be, in full, an optional sign followed by \<open>inf\<close>, \<open>infinity\<close> or \<open>nan\<close> (any
  case), or a decimal number with at least one digit, an optional fraction and an optional
  exponent.  A number with more than \<open>MAX_DIGITS\<close> significant or fractional digits is
  rejected.  Every rejection raises \<open>ValueError\<close>, here \<open>None\<close>.  The value is the decimal
  value correctly rounded; a value too large is \<open>inf\<close>, not an error.
\<close>

definition MAX_DIGITS :: nat where
  "MAX_DIGITS = 1000000000"

definition digit_val :: "char \<Rightarrow> nat" where
  "digit_val c = of_char c - 48"

definition digits_val :: "bytes \<Rightarrow> nat" where
  "digits_val ds = foldl (\<lambda>a c. 10 * a + digit_val c) 0 ds"

fun strip_underscores :: "char \<Rightarrow> bytes \<Rightarrow> bytes option" where
  "strip_underscores prev [] = (if prev = CHR ''_'' then None else Some [])"
| "strip_underscores prev (c # cs) =
     (if c = CHR ''_''
      then (if is_digit prev then strip_underscores c cs else None)
      else (if prev = CHR ''_'' \<and> \<not> is_digit c then None
            else map_option ((#) c) (strip_underscores c cs)))"

definition split_sign :: "bytes \<Rightarrow> bool \<times> bytes" where
  "split_sign s =
     (case s of
        c # r \<Rightarrow> if c = CHR ''-'' then (True, r) else if c = CHR ''+'' then (False, r) else (False, s)
      | [] \<Rightarrow> (False, s))"

definition parse_exponent :: "bytes \<Rightarrow> int option" where
  "parse_exponent s =
     (case s of
        [] \<Rightarrow> Some 0
      | c # r \<Rightarrow>
          if c = CHR ''e'' \<or> c = CHR ''E''
          then (let (eneg, ds) = split_sign r
                in if ds \<noteq> [] \<and> list_all is_digit ds
                   then Some (if eneg then - int (digits_val ds) else int (digits_val ds))
                   else None)
          else None)"

definition round_mag :: "rat \<Rightarrow> pyfloat" where
  "round_mag q = (if q = 0 then Fin 0 else round_pos q)"

definition parse_decimal :: "bool \<Rightarrow> bytes \<Rightarrow> pyfloat option" where
  "parse_decimal neg s =
     (let ip = takeWhile is_digit s;
          r1 = dropWhile is_digit s;
          (fp, r2) = (case r1 of
                        c # t \<Rightarrow> if c = CHR ''.'' then (takeWhile is_digit t, dropWhile is_digit t)
                                 else ([], r1)
                      | [] \<Rightarrow> ([], r1))
      in if ip @ fp = [] then None
         else if MAX_DIGITS < length (dropWhile (\<lambda>c. c = CHR ''0'') (ip @ fp))
                 \<or> MAX_DIGITS < length fp then None
         else (case parse_exponent r2 of
                 None \<Rightarrow> None
               | Some e \<Rightarrow>
                   (let v = round_mag (of_nat (digits_val (ip @ fp)) * 10 powi (e - int (length fp)))
                    in Some (if neg then fneg v else v))))"

definition string_to_double :: "bytes \<Rightarrow> pyfloat option" where
  "string_to_double s =
     (let (neg, r) = split_sign s; lr = map lower r
      in if lr = ''inf'' \<or> lr = ''infinity'' then Some (if neg then NegInf else PosInf)
         else if lr = ''nan'' then Some NaN
         else parse_decimal neg r)"

definition float_from_string_inner :: "bytes \<Rightarrow> pyfloat option" where
  "float_from_string_inner s =
     (let s1 = dropWhile is_space s
      in if s1 = [] then None
         else string_to_double (rev (dropWhile is_space (rev s1))))"

definition py_float :: "bytes \<Rightarrow> pyfloat option" where
  "py_float s =
     (if CHR 0x00 \<in> set s then None
      else (case (if CHR ''_'' \<in> set s then strip_underscores (CHR 0x00) s else Some s) of
              None \<Rightarrow> None
            | Some t \<Rightarrow> float_from_string_inner t))"

section \<open>Decoding captured bytes\<close>

text \<open>
  \<open>b.decode('utf-8', errors='ignore')\<close> keeps the well-formed UTF-8 sequences and drops
  every byte that is not part of one.  A Python \<open>str\<close> is modelled by the UTF-8 encoding of
  its code points, so decoding returns the kept bytes.
\<close>

definition is_cont :: "char \<Rightarrow> bool" where
  "is_cont c \<longleftrightarrow> (0x80::nat) \<le> of_char c \<and> of_char c \<le> (0xBF::nat)"

text \<open>The length of the well-formed sequence at the head of the bytes, 0 when there is none.\<close>

fun utf8_len :: "bytes \<Rightarrow> nat" where
  "utf8_len [] = 0"
| "utf8_len (a # r) =
     (let ch = (of_char a :: nat)
      in if ch < 0x80 then 1
         else if ch < 0xC2 then 0
         else if ch < 0xE0 then
           (case r of b # _ \<Rightarrow> if is_cont b then 2 else 0 | _ \<Rightarrow> 0)
         else if ch < 0xF0 then
           (case r of
              b # c # _ \<Rightarrow>
                if is_cont b \<and> \<not> (ch = 0xE0 \<and> (of_char b :: nat) < 0xA0)
                   \<and> \<not> (ch = 0xED \<and> (0xA0 :: nat) \<le> of_char b) \<and> is_cont c
                then 3 else 0
            | _ \<Rightarrow> 0)
         else if ch < 0xF5 then
           (case r of
              b # c # d # _ \<Rightarrow>
                if is_cont b \<and> \<not> (ch = 0xF0 \<and> (of_char b :: nat) < 0x90)
                   \<and> \<not> (ch = 0xF4 \<and> (0x90 :: nat) \<le> of_char b) \<and> is_cont c \<and> is_cont d
                then 4 else 0
            | _ \<Rightarrow> 0)
         else 0)"

function decode_ignore :: "bytes \<Rightarrow> string" where
  "decode_ignore [] = []"
| "decode_ignore (x # xs) =
     (let n = utf8_len (x # xs)
      in if n = 0 then decode_ignore xs
         else (x # take (n - 1) xs) @ decode_ignore (drop (n - 1) xs))"
  by pat_completeness auto
termination
  by (relation "measure length") auto

text \<open>
  \<open>str.upper()\<close>, on ASCII letters.  The source applies it only to the severity token,
  which matched \<open>warning\<close>, \<open>note\<close> or \<open>error\<close> up to ASCII case.
\<close>

definition upper_str :: "string \<Rightarrow> string" where
  "upper_str s = map upper s"

section \<open>The extraction\<close>

datatype error = ValueError

text \<open>The entries of \<open>dq_data\<close> and \<open>dh_data\<close>: \<^verbatim>\<open>{'time': t, 'value': v, 'node': n}\<close>.\<close>

record conv_entry =
  time :: pyfloat
  val :: pyfloat
  node :: string

text \<open>The entries of \<open>warn_data\<close>: \<^verbatim>\<open>{'time': t, 'type': etype, 'code': ecode, 'label': label}\<close>.\<close>

record warn_entry =
  w_time :: pyfloat
  w_type :: string
  w_code :: string
  w_label :: string

text \<open>A row of \<open>df_w\<close>: the entry with its \<open>note\<close> column.\<close>

record warn_row =
  r_time :: pyfloat
  r_type :: string
  r_code :: string
  r_label :: string
  r_note :: string

text \<open>The returned dictionary (\<open>end'\<close> is its key \<open>'end'\<close>).\<close>

record result =
  dq :: "conv_entry list"
  dh :: "conv_entry list"
  warnings :: "warn_row list"
  start :: pyfloat
  end' :: pyfloat
  fail_t :: "pyfloat option"
  fail_c :: "string option"

text \<open>The metadata searches: the first 5000 bytes for the start, the last 5000 for the end.\<close>

definition parse_start :: "bytes \<Rightarrow> error + pyfloat" where
  "parse_start zzd_bytes =
     (case search RE_START (first_bytes 5000 zzd_bytes) of
        None \<Rightarrow> Inr (Fin 0)
      | Some m \<Rightarrow> (case py_float (group m 1) of None \<Rightarrow> Inl ValueError | Some t \<Rightarrow> Inr t))"

definition parse_end :: "bytes \<Rightarrow> error + pyfloat" where
  "parse_end zzd_bytes =
     (case search RE_END (last_bytes 5000 zzd_bytes) of
        None \<Rightarrow> Inr (Fin 0)
      | Some m \<Rightarrow> (case py_float (group m 1) of None \<Rightarrow> Inl ValueError | Some t \<Rightarrow> Inr t))"

text \<open>The loop over \<open>RE_CONV.finditer(zzd_bytes)\<close>; a failing \<open>float()\<close> leaves the function.\<close>

fun conv_loop :: "match list \<Rightarrow> conv_entry list \<times> conv_entry list \<Rightarrow>
    error + conv_entry list \<times> conv_entry list" where
  "conv_loop [] acc = Inr acc"
| "conv_loop (m # ms) (dq_data, dh_data) =
     (case py_float (group m 1) of
        None \<Rightarrow> Inl ValueError
      | Some t \<Rightarrow>
          (case py_float (group m 2) of
             None \<Rightarrow> Inl ValueError
           | Some v2 \<Rightarrow>
               (case py_float (group m 4) of
                  None \<Rightarrow> Inl ValueError
                | Some v4 \<Rightarrow>
                    conv_loop ms
                      (dq_data @ [\<lparr>time = t, val = v2, node = decode_ignore (group m 3)\<rparr>],
                       dh_data @ [\<lparr>time = t, val = v4, node = decode_ignore (group m 5)\<rparr>]))))"

text \<open>The loop over \<open>RE_WARN.finditer(zzd_bytes)\<close>, tracking the last ERROR event.\<close>

fun warn_loop :: "match list \<Rightarrow> warn_entry list \<times> pyfloat option \<times> string option \<Rightarrow>
    error + warn_entry list \<times> pyfloat option \<times> string option" where
  "warn_loop [] acc = Inr acc"
| "warn_loop (m # ms) (warn_data, last_err_t, last_err_c) =
     (case py_float (group m 1) of
        None \<Rightarrow> Inl ValueError
      | Some t \<Rightarrow>
          (let etype = upper_str (decode_ignore (group m 2));
               ecode = decode_ignore (group m 3);
               label = decode_ignore (group m 4);
               warn_data' = warn_data @ [\<lparr>w_time = t, w_type = etype, w_code = ecode, w_label = label\<rparr>]
           in if etype = ''ERROR''
              then warn_loop ms (warn_data', Some t, Some ecode)
              else warn_loop ms (warn_data', last_err_t, last_err_c)))"

text \<open>Step D: inference of missing bounds from the first and last entries.\<close>

definition all_timestamps :: "conv_entry list \<Rightarrow> warn_entry list \<Rightarrow> pyfloat list" where
  "all_timestamps dq_data warn_data =
     (if dq_data \<noteq> [] then [time (hd dq_data), time (last dq_data)] else []) @
     (if warn_data \<noteq> [] then [w_time (hd warn_data), w_time (last warn_data)] else [])"

definition infer_times :: "pyfloat \<Rightarrow> pyfloat \<Rightarrow> conv_entry list \<Rightarrow> warn_entry list \<Rightarrow>
    pyfloat \<times> pyfloat" where
  "infer_times start_time end_time dq_data warn_data =
     (if feq start_time (Fin 0) \<or> feq end_time (Fin 0)
      then (let ts = all_timestamps dq_data warn_data
            in if ts \<noteq> []
               then (if feq start_time (Fin 0) then py_min ts else start_time,
                     if feq end_time (Fin 0) then py_max ts else end_time)
               else (start_time, end_time))
      else (start_time, end_time))"

text \<open>The forced duration: \<open>if start_time >= end_time: ...\<close>.\<close>

definition force_duration :: "pyfloat \<times> pyfloat \<Rightarrow> pyfloat \<times> pyfloat" where
  "force_duration se =
     (let (start_time, end_time) = se
      in if fge start_time end_time
         then (if feq start_time (Fin 0) then (start_time, Fin 1)
               else (start_time, fadd start_time (Fin 1)))
         else (start_time, end_time))"

text \<open>
  Step E: \<open>df_w['note'] = df_w['code'].map(WARNING_DESCRIPTIONS).fillna("Unknown Warning")\<close>.
  The conversions to categoricals change the storage of a column, not its values.
\<close>

definition add_note :: "(string \<rightharpoonup> string) \<Rightarrow> warn_entry \<Rightarrow> warn_row" where
  "add_note descriptions w =
     \<lparr>r_time = w_time w, r_type = w_type w, r_code = w_code w, r_label = w_label w,
      r_note = (case descriptions (w_code w) of Some d \<Rightarrow> d | None \<Rightarrow> ''Unknown Warning'')\<rparr>"

definition extract_with :: "(string \<rightharpoonup> string) \<Rightarrow> bytes \<Rightarrow> error + result" where
  "extract_with descriptions zzd_bytes =
     (case parse_start zzd_bytes of
        Inl e \<Rightarrow> Inl e
      | Inr start_time \<Rightarrow>
     (case parse_end zzd_bytes of
        Inl e \<Rightarrow> Inl e
      | Inr end_time \<Rightarrow>
     (case conv_loop (finditer RE_CONV zzd_bytes) ([], []) of
        Inl e \<Rightarrow> Inl e
      | Inr (dq_data, dh_data) \<Rightarrow>
     (case warn_loop (finditer RE_WARN zzd_bytes) ([], None, None) of
        Inl e \<Rightarrow> Inl e
      | Inr (warn_data, last_err_t, last_err_c) \<Rightarrow>
          (let is_fatal = contains ''stopped in error'' (last_bytes 2000 zzd_bytes);
               (start_time', end_time') =
                  force_duration (infer_times start_time end_time dq_data warn_data)
           in Inr \<lparr>dq = dq_data, dh = dh_data,
                    warnings = map (add_note descriptions) warn_data,
                    start = start_time', end' = end_time',
                    fail_t = (if is_fatal then last_err_t else None),
                    fail_c = (if is_fatal then last_err_c else None)\<rparr>)))))"

text \<open>
  The module-level dictionary \<open>WARNING_DESCRIPTIONS\<close>, in the order of the source.  A
  dictionary display keeps the last value of a repeated key.
\<close>

definition WARNING_DESCRIPTIONS_items :: "(string \<times> string) list" where
  "WARNING_DESCRIPTIONS_items =
    [
     (''W2000'', ''Poor model convergence''),
     (''W2001'', ''Conduits with variable x-section are not permitted''),
     (''W2002'', ''Conduits with variable bottom friction are not permitted''),
     (''W2003'', ''Conduits with variable top friction are not permitted''),
     (''W2004'', ''Conduits with variable friction forms are not permitted''),
     (''W2005'', ''Conduits with variable side friction are not permitted''),
     (''W2008'', ''Water level below invert''),
     (''W2010'', ''Poor interpolation u/s''),
     (''W2012'', ''Flow over side spills not calculated''),
     (''W2013'', ''Very small change in flow resulting from correction''),
     (''W2014'', ''Unit running dry''),
     (''W2016'', ''Steady file could not be opened''),
     (''W2017'', ''Extra sections need to be added by the user''),
     (''W2018'', ''Indeterminate reaches have been found''),
     (''W2019'', ''Water level rose beyond the max level of section data''),
     (''W2020'', ''Water level >3m above max level of section data''),
     (''W2021'', ''Solution found with reduced accuracy''),
     (''W2023'', ''Zero areas in Bernoulli Loss unit''),
     (''W2024'', ''Extra sections gave insufficient accuracy''),
     (''W2025'', ''Data error found in RNDSC gate''),
     (''W2026'', ''CONDUIT and RIVER units should not be directly connected''),
     (''W2027'', ''No rules currently valid for RULES unit''),
     (''W2031'', ''Reservoir units in network''),
     (''W2032'', ''Water level outside channel boundary''),
     (''W2033'', ''Zero area calculated at node''),
     (''W2034'', ''Overbank spill units in network''),
     (''W2035'', ''HT boundary at upstream end of reach not permitted''),
     (''W2036'', ''QH boundary at upstream end of reach not permitted''),
     (''W2037'', ''qt boundary at downstream end of reach not permitted''),
     (''W2039'', ''Split/join parameter mismatch''),
     (''W2040'', ''Split estimates are wrong at junction''),
     (''W2042'', ''Illegal tidal constituent''),
     (''W2043'', ''Decreasing cross section distance''),
     (''W2044'', ''Different values for Mannings n within one panel''),
     (''W2045'', ''Water level at or below reservoir invert''),
     (''W2046'', ''Lateral inflows set to zero''),
     (''W2047'', ''Non-rectangular control section with notional weir''),
     (''W2048'', ''Very small change in heads results in large change in flow''),
     (''W2050'', ''Ratio between upstream and downstream areas exceeds 2.0''),
     (''W2051'', ''Estimated theta value is very large''),
     (''W2052'', ''MSL is outside FSR range''),
     (''W2053'', ''Soil is outside FSR range''),
     (''W2054'', ''Urban fraction should not be > 0.808''),
     (''W2055'', ''RSMD is outside FSR range''),
     (''W2056'', ''CWI is outside expected range''),
     (''W2057'', ''Rainfall Profile duration issue''),
     (''W2058'', ''Model convergence criteria were not met''),
     (''W2059'', ''Catchment area is outside FSR range''),
     (''W2060'', ''Conveyance decreases''),
     (''W2061'', ''S1085 is outside FSR range''),
     (''W2100'', ''Invalid value given for modular limit''),
     (''W2201'', ''Friction law not specified correctly in bridge''),
     (''W2202'', ''Bridge calibration factor set to zero''),
     (''W2203'', ''Insignificant flow through arches at USBPR bridge''),
     (''W2204'', ''Bridge is surcharged''),
     (''W2205'', ''Extrapolating base curves''),
     (''W2206'', ''Extrapolating pier curves''),
     (''W2207'', ''Extrapolating pier sigma curves''),
     (''W2208'', ''Extrapolating skew curves''),
     (''W2209'', ''Failed to load convey.dll''),
     (''W2211'', ''Failed to free memory in CES dll''),
     (''W2212'', ''CES dll magic number error''),
     (''W2213'', ''CES dll version error''),
     (''W2214'', ''Failed to set 'Flood Modeller' in CES''),
     (''W2215'', ''Bad gauge data''),
     (''W2216'', ''Gauge limit incompatibility''),
     (''W2217'', ''No method file specified for gauge unit''),
     (''W2229'', ''Trash screen height is set to 0''),
     (''W2235'', ''Variable Percentage Runoff Flag error''),
     (''W2236'', ''Optimum number of internal calculation points exceeded''),
     (''W2237'', ''MUSK-RSEC data error''),
     (''W2238'', ''Panel has very small width''),
     (''W2260'', ''Culvert bend losses coefficient issue''),
     (''W2261'', ''Backflow encountered at culvert bend or loss unit''),
     (''W2262'', ''Backflow encountered CULVERT OUTLET unit''),
     (''W2263'', ''Backflow encountered at CULVERT INLET unit''),
     (''W2264'', ''Level below culvert invert''),
     (''W2266'', ''Level below culvert invert''),
     (''W2267'', ''No sub/supercritical depth could be found''),
     (''W2268'', ''Direct supercritical method cannot handle this configuration''),
     (''W2271'', ''Failed to find minimum of energy function''),
     (''W2272'', ''Energy equation failed to converge''),
     (''W2273'', ''Defaulting to critical depth''),
     (''W2274'', ''Bernoulli loss unit level/area issue''),
     (''W2275'', ''Two levels have zero upstream area''),
     (''W2276'', ''Water level set to adjacent lowest bed level''),
     (''W2277'', ''Last appearance of conduits message''),
     (''W2278'', ''Zero calibration coefficient''),
     (''W2279'', ''Reference velocity exceeds 3 m/s''),
     (''W2280'', ''Estimated theta value is negative''),
     (''W2281'', ''No flow possible with zero coefficient''),
     (''W2282'', ''Minimum/initial timestep has been changed''),
     (''W2283'', ''Conduit section has been reversed''),
     (''W2286'', ''Reservoir/Pond area is smaller than previous''),
     (''W2287'', ''Two levels have zero area''),
     (''W2288'', ''Initial water levels upstream not all equal''),
     (''W2289'', ''Discharge coefficient set to zero''),
     (''W2290'', ''Opening is zero - no flow possible''),
     (''W2291'', ''Initial water level higher than crest of SPILL''),
     (''W2292'', ''Failed to converge to normal depth''),
     (''W2293'', ''Linear interpolation with rainfall data not allowed''),
     (''W2294'', ''Crump, Flat-V weir not connected correctly''),
     (''W2295'', ''Seasonal PMPs extrapolated''),
     (''W2296'', ''Rule interpretation warning''),
     (''W2297'', ''Date/time from Tidal Boundary unit used''),
     (''W2298'', ''Data interval less than one minute''),
     (''W2299'', ''Storm duration not integer multiple of dt''),
     (''W2300'', ''ARF equation for short durations called''),
     (''W2301'', ''Adaptive timestepping parameter issue''),
     (''W2302'', ''Time to peak not integer multiple of data interval''),
     (''W2313'', ''Zero modular limit''),
     (''W2314'', ''Modular limit set to unity or greater''),
     (''W2315'', ''Negative loss coefficient entered''),
     (''W2317'', ''Downstream flow area constrained''),
     (''W2318'', ''Initial adaptive timestep not read from file''),
     (''W2319'', ''Downstream constraining factor not set''),
     (''W2320'', ''Reservoir updating unit not connected to reservoir''),
     (''W2321'', ''Conduit slot dimensions incorrect''),
     (''W2322'', ''Failed to read event data''),
     (''W2323'', ''Unrealistic density input''),
     (''W2531'', ''Cannot find upstream condition for supercritical integration''),
     (''W2532'', ''Model start time is NOT t=0''),
     (''W2533'', ''Volumes not calculated for Muskingum sections''),
     (''W2534'', ''Errors occurred opening/writing to file''),
     (''W2535'', ''c0 scaling factor input error''),
     (''N3002'', ''Very small change in heads results in large change in flow''),
     (''N3003'', ''Percentage runoff calculated as negative''),
     (''N3006'', ''End of backflow at CULVERT INLET unit''),
     (''N3007'', ''End of backflow at CULVERT OUTLET unit''),
     (''N3010'', ''Simplified method used''),
     (''N3012'', ''Zero flow beyond point''),
     (''N3013'', ''Transcritical point(s) occurred''),
     (''N3014'', ''EVENT DATA FILE READ FAILED''),
     (''N3015'', ''Simulation event date/time overrides Tidal Boundary''),
     (''N3016'', ''Tidal Boundary unit with no event date/time''),
     (''N3017'', ''Tidal boundary used with direct method''),
     (''N3018'', ''2D Input Data check completed''),
     (''N3019'', ''User-input PMF time to peak adjustment note''),
     (''N3025'', ''Minimum flow applied at boundary''),
     (''N3026'', ''Initial adaptive timestep read from input file''),
     (''N3027'', ''2d timestep read from tcf file''),
     (''N3028'', ''Data points omitted from deactivated section areas''),
     (''N3029'', ''Duplicated units found''),
     (''E1003'', ''Bernoulli loss - no. of data sets must not be > 30 or < 1''),
     (''E1004'', ''Data read error''),
     (''E1005'', ''Unit unacceptable as first data unit''),
     (''E1006'', ''No. of stage/gate opening datasets < 2''),
     (''E1007'', ''Maximum no of gates exceeded''),
     (''E1008'', ''Maximum number of nodes is exceeded''),
     (''E1009'', ''Maximum number of units is exceeded''),
     (''E1011'', ''Unidentified unit''),
     (''E1013'', ''The EGGFORM option is not yet available, try using a CIRCULAR conduit with a suitable diameter''),
     (''E1014'', ''Supercritical flow between 'label1' and 'label2'. You should use the option for dealing with Froude numbers greater than 1''),
     (''E1017'', ''Negative flow - the direct method cannot handle backflow''),
     (''E1018'', ''Maximum no. of iterations exceeded''),
     (''E1019'', ''No solution found in Direct Method''),
     (''E1020'', ''Water level exceeded maximum section data level dflood''),
     (''E1022'', ''Not a recognised type number / Error writing OTTA file''),
     (''E1023'', ''Generic ERROR - see zzd file / complementary error code''),
     (''E1027'', ''Value of rsmd should not be less than 10''),
     (''E1028'', ''Maximum number of unit hydrograph ordinates exceeded''),
     (''E1029'', ''Error - data interval too small for unit hydrograph calculation or Time to Peak''),
     (''E1033'', ''Incorrect percentage runoff code of 'x' in subroutine prcal''),
     (''E1036'', ''Storm return period of 'x' too small to estimate rainfall depth.''),
     (''E1038'', ''Areal reduction factor equation very inaccurate for durations less than 0.5 hr''),
     (''E1039'', ''Water level below invert.''),
     (''E1042'', ''HTBDY - No of data pairs must be > 1''),
     (''E1044'', ''Previous unit was not a RIVER or CONDUIT''),
     (''E1045'', ''It is not allowed to have interpolated sections here''),
     (''E1046'', ''You must have a RIVER or CONDUIT downstream of INTERPOLATED sections''),
     (''E1051'', ''Format error in numerical data. JUNCTION data error''),
     (''E1056'', ''The direct method cannot be used with automatic controllers''),
     (''E1057'', ''Inconsistencies found in node labels''),
     (''E1065'', ''Variable outside linearization range''),
     (''E1066'', ''Variable outside interpolation range''),
     (''E1072'', ''rn must be greater than 1''),
     (''E1073'', ''cd outside allowed range''),
     (''E1074'', ''cv outside allowed range''),
     (''E1075'', ''Weir breadth must be positive.''),
     (''E1079'', ''Maximum no. of network iterations exceeded''),
     (''E1080'', ''Number of data points is less than 2.''),
     (''E1081'', ''Number of data points is greater than maximum allowed.''),
     (''E1091'', ''FULL ARCH CONDUIT. The height of the crown specified is too high.''),
     (''E1094'', ''Reverse flows not valid in syphon spillways''),
     (''E1095'', ''Decreasing cross section distance found''),
     (''E1096'', ''Panel contains zero and non-zero Manning's n''),
     (''E1097'', ''Cross-section contains all zero Manning's n''),
     (''E1098'', ''Number of height points exceeds maximum''),
     (''E1100'', ''Model is diverging. No solution has been found with the current time step''),
     (''E1105'', ''Time-dependent data in unit doesn't cover the start time of the model duration''),
     (''E1106'', ''Time-dependent data in unit doesn't cover the start time of the model duration''),
     (''E1108'', ''Tolerance for the direct method cannot be negative''),
     (''E1109'', ''Tolerance for the direct method cannot be greater than 0.1''),
     (''E1111'', ''None of the labels in the initial conditions have been tagged.''),
     (''E1112'', ''Number of labels in initial conditions does not match number in data file''),
     (''E1113'', ''Generic data read error''),
     (''E1114'', ''Data error in zzs file''),
     (''E1115'', ''Generic data read error''),
     (''E1117'', ''Data error. Lower Froude Number greater or equal to higher value''),
     (''E1118'', ''Error in reader''),
     (''E1119'', ''Previous unit was not a RIVER or CONDUIT''),
     (''E1120'', ''REPLICATE/INTERPOLATE must be preceded by a RIVER or REPLICATE with dx>0''),
     (''E1121'', ''There is a spill label assigned to the last river unit in a reach.''),
     (''E1123'', ''Unit type may not be connected to reservoir at specified label''),
     (''E1128'', ''You must have at least two consecutive RIVERs or CONDUITs to form a unit.''),
     (''E1129'', ''It is not possible to find a solution with the current time step''),
     (''E1131'', ''Water level outside channel boundary''),
     (''E1133'', ''Extra added sections gave insufficient accuracy''),
     (''E1139'', ''no. of stage/gate opening datasets > 4.''),
     (''E1159'', ''Length of crest in direction of flow must be > 0.1 - rnweir data error''),
     (''E1168'', ''Unit not yet available with the direct method - run terminated''),
     (''E1169'', ''Pump is in stopped mode; This mode is incompatible with the direct method.''),
     (''E1179'', ''Remote upstream control not yet available. For use with the direct method.''),
     (''E1184'', ''Third label required for WATER3 option for remote control mode''),
     (''E1185'', ''Values given must be greater than zero''),
     (''E1188'', ''No gate opening given for MANUAL operation''),
     (''E1189'', ''No initial gate opening given for AUTO operation''),
     (''E1195'', ''Matrix structurally singular. iflag = -1''),
     (''E1196'', ''Matrix numerically singular. iflag = -2''),
     (''E1197'', ''Row or column index out of range. iflag = -12''),
     (''E1198'', (''Dir = 'x' reverse flow direction hn1 = 'y' hn2 = 'z' node = 'n'' @ [CHR 0x27])),
     (''E1199'', ''Error in spill at line 'l'. bank chainage must increase for each data pair''),
     (''E1200'', ''Maximum gate opening MUST be less than radius plus height of pivot''),
     (''E1201'', ''Gate opening MUST be less than radius plus height of pivot''),
     (''E1202'', ''Gate radius MUST be greater than height of pivot''),
     (''E1203'', ''Number of data points in SPILL unit must be must be greater than 1''),
     (''E1210'', ''Negative flow specified at a Q:T boundary - this is not permitted''),
     (''E1211'', ''Perturbation matrix is singular''),
     (''E1219'', ''cv outside allowed range''),
     (''E1221'', ''rlimit outside allowed range''),
     (''E1230'', ''Suter pump - numerical data outside allowable range''),
     (''E1234'', ''Generic error - see zzd file for further information''),
     (''E1237'', ''SAAR must be positive for event rainfall calculation''),
     (''E1238'', ''Event Rainfall flag is expected to be OBSER, FEHER, FSRER, or PMFER''),
     (''E1239'', ''Positive non-zero value is expected for the OBSERVED event rainfall''),
     (''E1241'', ''Catchment Wetness Index flag is expected to be OBSCW, FSRCW or PMFCW''),
     (''E1243'', ''Percentage Runoff Flag is expected to be BSPR, FEHPR, FSRPR or F16PR''),
     (''E1244'', ''Error in OBSERVED percentage runoff, it must not be > 100.0''),
     (''E1245'', ''Error in OBSERVED percentage runoff, it must not be <0.0''),
     (''E1246'', ''Time to Peak Flag is expected to be OBSTP, FEHTP, F16TP, FSRTP or R124TP''),
     (''E1247'', ''Positive non-zero value is expected for the OBSERVED Time to Peak, TP''),
     (''E1248'', ''Positive non-zero value is expected for the Calibration factor of TP''),
     (''E1249'', ''Base Flow Flag is expected to be OBSBF or F16BF''),
     (''E1250'', ''Positive non-zero value is expected for the catchment area, carea''),
     (''E1253'', ''Unit Hydrograph Flag is expected to be OBSUH, FSRUH, UBRUH or SCSUH''),
     (''E1255'', ''Rainfall Profile Flag is expected to be OBSRP, WINPMP or SUMPMP''),
     (''E1256'', ''Number of rainfall values outside range''),
     (''E1258'', ''ERROR in calculated percentage runoff at subroutine prcal, it is > 100.0''),
     (''E1262'', ''Error in routine interp in fsrqt - value out of range''),
     (''E1266'', ''Calculated no of unit hydro. Ordinates is greater than max allowed''),
     (''E1267'', ''For SUMRP unequal return periods are unacceptable. This can, however, be forced by using the parameter FORCE.''),
     (''E1268'', ''Invalid Velocity Flag specified''),
     (''E1269'', ''Power law constants cannot be negative''),
     (''E1285'', ''Reservoir/Pond level is lower than or the same as the previous level''),
     (''E1301'', ''No flow boundaries have been defined therefore direct steady method is not applicable''),
     (''E1302'', ''No head boundaries have been defined therefore direct steady method is not applicable''),
     (''E1324'', ''Number of q:h data pairs exceeds the maximum permitted''),
     (''E1330'', ''Efficiency values must be greater than zero and less than or equal to one''),
     (''E1331'', ''Optimal head and flow values must both be positive''),
     (''E1332'', ''Number of switch data sets must be > 1''),
     (''E1333'', ''Invalid switch type keyword''),
     (''E1334'', ''Unrecognised pump mode keyword''),
     (''E1336'', ''Missing control label for controller switch type''),
     (''E1338'', ''Time multiples must be positive''),
     (''E1339'', ''Unrecognised pump mode''),
     (''E1340'', ''Number of Suter points must be between 1 and 133''),
     (''E1341'', ''No corresponding pump mode given for MANUAL operation at model time''),
     (''E1343'', ''Number of head, flow, efficiency data sets must be between 1 and 50.''),
     (''E1344'', ''Error reading data in datafile.''),
     (''E1345'', ''Head, flow and efficiency cannot all be simultaneously greater than zero.''),
     (''E1346'', ''Invalid number of switch data sets''),
     (''E1347'', ''Unknown switch type: type code''),
     (''E1348'', ''Unable to find control unit for controller mode''),
     (''E1349'', ''Unknown instruction code for logical switching''),
     (''E1401'', ''Skew angle of bridge > 45 ; Must be in range 0 < =angle < =45.''),
     (''E1402'', ''Width of bridge< =0.0. Data error in bridge unit''),
     (''E1403'', (''Invalid bridge abutment code. Should be 1, 2 or 3. Data error in bridge attached to 'label1', 'label2'' @ [CHR 0x27])),
     (''E1404'', ''Pier coefficient out of range. Must be >=0.0 and < =8.0. Data error in bridge''),
     (''E1405'', ''Invalid bridge pier description. 'x'(Number of piers), 'y' (type of shape of bridge soffit), 'z' (type of bridge pier cross sectional type). Data error in bridge attached to 'label1', 'label2'.''),
     (''E1406'', ''Number of bridge piers >0 , with Width of bridge piers < =0.''),
     (''E1410'', ''Too many culverts in bridge attached to 'label1','label2'.''),
     (''E1411'', (''Culvert drowning coefficient must be <1. Data error in bridge attached to 'label1','label2'' @ [CHR 0x27])),
     (''E1412'', ''Culvert invert level is greater than soffit level. Data error in bridge attached to 'label1','label2'.''),
     (''E1421'', ''Number of arches < 0''),
     (''E1422'', ''Number of arches exceeds the maximum''),
     (''E1423'', ''USBPR Bridge error on arch data 'x' (number of arch) x coord of left side of arch must coincide with cross chainage point''),
     (''E1431'', ''Too many markers in bridge channel section''),
     (''E1432'', ''Left or Right markers wrong in bridge section.''),
     (''E1510'', ''Unrecognised direction keyword keyword should be UPSTREAM or DOWNSTREAM''),
     (''E1511'', ''Invalid loss coefficient: Loss coefficient must be value between 0 and 10.''),
     (''E1512'', ''Upstream section for a BEND/LOSS unit in upstream control must be a RIVER or CONDUIT unit.''),
     (''E1513'', ''Invalid loss coefficient: Loss coefficient should be value between 0 and 1.''),
     (''E1514'', ''Unit upstream of a CULVERT OUTLET unit must be RIVER or CONDUIT unit.''),
     (''E1515'', ''Unrecognised conduit type code. Should be A or B''),
     (''E1516'', ''Value of unsubmerged inlet control loss coefficient should be between 0 and 1; current value is x''),
     (''E1517'', ''Value of exponent for inlet control should be between 0 and 3; current value is:x''),
     (''E1518'', ''Value of submerged inlet control loss coefficient should be between 0 and 0.1; current value is x.''),
     (''E1519'', ''Value of submerged inlet control adjustment factor should be between 0 and 1; current value is x''),
     (''E1520'', ''Value of outlet control loss coefficient should be between 0 and 1; current value is x''),
     (''E1521'', ''Value of trash screen width should be greater than 0; current value is x''),
     (''E1522'', ''Value of trash screen bar proportion should be between 0 and 1; current value is x.''),
     (''E1523'', ''Value of trash screen blockage ratio should be between 0 and 1; current value is x.''),
     (''E1524'', ''Value of trash screen head loss coefficient should be greater than 0; current value is x''),
     (''E1525'', ''Unit downstream of a CULVERT INLET unit must be a RIVER or CONDUIT unit.''),
     (''E1526'', ''Maximum number of trans-critical points exceeded''),
     (''E1528'', ''Junction at l1 appears to be neither a join nor a split''),
     (''E1529'', ''Unable to find unit number in list of river reaches''),
     (''E1530'', ''Internal error - invalid trans-critical point''),
     (''E1532'', ''Upstream/downstream nodes of unit are not rivers/conduits.''),
     (''E1533'', ''Cannot find label''),
     (''E1534'', ''Save interval (or timestep) must be positive''),
     (''E1536'', ''Upstream/downstream/remote/constriction section label does not exist.''),
     (''E1537'', ''Upstream and/or downstream river units at bridge not found''),
     (''E1538'', ''Culvert flow failed to converge''),
     (''E1539'', ''Perturbation failed''),
     (''E1540'', ''No nodes found''),
     (''E1541'', ''Country must be ENGLAND, IRELAND, SCOTLAND or WALES''),
     (''E1542'', ''Value of s1085 must be positive for time to peak calculation''),
     (''E1543'', ''Value of MSL/DPSBAR/DPLBAR must be positive for time to peak calculation, or PROPWET must be between 0 and 1.''),
     (''E1544'', ''SOIL must be between 0 and 1.0''),
     (''E1545'', ''Time step must be positive''),
     (''E1546'', ''Urban fraction/extent cannot be <0 or> 1''),
     (''E1547'', ''Storm duration of x is less than or equal to zero''),
     (''E1548'', ''[Time] interpolation error''),
     (''E1549'', ''INTERPOLATE unit must have a positive chainage''),
     (''E1550'', ''A reach has more than 100 interpolated sections (split the reach using a RIVER)''),
     (''E1551'', ''Numb=0 in INTERPOLATE''),
     (''E1552'', ''Total chainage must be positive''),
     (''E1555'', ''Unit type may not be connected to junction''),
     (''E1562'', ''dx must be positive''),
     (''E1564'', ''X number of data points is less than 2''),
     (''E1565'', ''X number of data points greater than maximum''),
     (''E1566'', ''Lateral inflows cannot be used with MUSKINGUM units''),
     (''E1567'', ''Zero wave speed or chainage Ensure that the reach is not dry''),
     (''E1568'', ''Slope must be positive''),
     (''E1569'', ''Channel section data error. At least 2 section points and a positive slope are required for velocity calculation''),
     (''E1570'', ''Attempt to read results from before start of run. Start your run with structure in MANUAL mode''),
     (''E1571'', ''Error attempting to read earlier result''),
     (''E1572'', ''Unrecognised operation type''),
     (''E1573'', ''Weir discharge coefficient must be greater than 0''),
     (''E1574'', ''Surcharged discharge coefficient must be greater than 0''),
     (''E1575'', ''Pump bore area must be greater than 0''),
     (''E1576'', ''Soffit must be higher than invert''),
     (''E1577'', ''Bridge soffit is more than 10m above cross section. Please extend your section data or modify the arch dimensions''),
     (''E1578'', ''icount is zero - arch error''),
     (''E1579'', ''Conduit section should start with x=0 at invert centre line''),
     (''E1580'', ''Unrecognised time factor keyword''),
     (''E1581'', ''Flood Modeller has detected a different label length in the initial conditions file from the value in operation in the datafile. This is not allowed''),
     (''E1582'', ''Maximum number of pond data lines exceeded (max=50)''),
     (''E1583'', ''INTERPOLATE must be preceded by a RIVER or REPLICATE with a positive chainage''),
     (''E1584'', ''Non-channel unit found in the middle of a reach. Reach must end with dx = 0''),
     (''E1585'', ''Length of weir in direction of flow is more than 100 x width of crest. This is not acceptable''),
     (''E1586'', ''Crest length must be positive''),
     (''E1587'', ''Unknown controller operation mode''),
     (''E1588'', ''Unknown sluice gate operation mode''),
     (''E1589'', ''No time data available in switch data set for current model time''),
     (''E1590'', ''Unable to find controller label for controller mode''),
     (''E1591'', ''Unknown controller operation mode''),
     (''E1592'', ''Error in floodplain section at line n. Chainage must be positive for friction flow''),
     (''E1593'', ''First matrix element is zero''),
     (''E1594'', ''Xset points are not all distinct''),
     (''E1595'', ''Gate orientation must be FORWARD or REVERSE''),
     (''E1596'', ''ctc must be greater than 0''),
     (''E1597'', ''cgt must be greater than 0''),
     (''E1598'', ''crev must be greater than 0''),
     (''E1599'', ''dr must be greater than 0''),
     (''E1600'', ''Only one gate is allowed in gated weir''),
     (''E1601'', ''Gate height must be greater than zero''),
     (''E1602'', ''Gate crest higher than max. gate height''),
     (''E1603'', ''Crest is lower than sill''),
     (''E1605'', ''Unit version number n is not supported in this version of Flood Modeller''),
     (''E1606'', ''Negative breach width xm is invalid''),
     (''E1607'', ''Negative breach side slope x is invalid.''),
     (''E1608'', ''Error in breach: unable to fit breach, check the breach and associated spill section''),
     (''E1610'', ''Invalid blockage proportion x. Proportion p must have 0.0 < = P <=1.0''),
     (''E1611'', ''Upstream/Downstream/Constriction unit of a blockage (connected or remote) must be RIVER, CONDUIT or BRIDGE unit.''),
     (''E1612'', ''Invalid loss coefficient: Loss coefficient must be at least 0.''),
     (''E1613'', ''OPEN pump operation is specified but parameters for OPEN operation are not set''),
     (''E1614'', ''Selected node l1 for OLD rules has been removed from the output list''),
     (''E1620'', ''Unit not supported in this version of Flood Modeller''),
     (''E1621'', ''Invalid lateral inflow weight factor (= x) entered for connecting unit''),
     (''E1622'', ''User defined weight factors do not sum to 1.0''),
     (''E1623'', ''Unrecognised connecting boundary node entered''),
     (''E1624'', ''Link to lateral inflow not recognised''),
     (''E1625'', ''Reservoir connected to reach - weighted lateral inflow''),
     (''E1627'', ''Connected Muskingum has zero reach length''),
     (''E1628'', ''Weight factor type not recognised''),
     (''E1629'', ''Muskingum section connected to area distributed lateral''),
     (''E1630'', ''This Muskingum type will not receive lateral inflows''),
     (''E1631'', ''Zero reach length river section connected to lateral inflow''),
     (''E1640'', ''Number of data pairs must be greater than zero''),
     (''E1641'', ''No input data types recognised''),
     (''E1642'', ''No data in l1 at line n before/after x hrs''),
     (''E1643'', ''2 data points with same time''),
     (''E1644'', ''Time values are not increasing''),
     (''E1669'', ''Zero or Negative slope encountered in Normal depth boundary This is not permitted''),
     (''E1672'', ''Remote label not found or not connected to a channel section''),
     (''E1673'', ''No valid path found from upstream to downstream slope extents''),
     (''E1674'', ''No section data specified or available for normal/critical depth boundary''),
     (''E1675'', ''Zero area or width in Critical depth boundary''),
     (''E1676'', ''No sign change detected in normal depth equation. Normal depth could not be calculated''),
     (''E1678'', ''Data error at line n. Dry lower depth greater or equal to dry higher depth''),
     (''E1680'', ''Maximum number 50 of lateral connections for quality run exceeded''),
     (''E1681'', ''Data error at line n. no RAD FILE tag found''),
     (''E1682'', ''Data error at line n. no GENERAL tag found''),
     (''E1683'', ''Failed CES dll function call to SetRoughnessFile''),
     (''E1684'', ''Failed CES dll function call to GetRoughnessLoadingErrors''),
     (''E1685'', ''Failed CES dll function call to AddSection''),
     (''E1686'', ''Failed CES dll function call to Populate Section for section id''),
     (''E1687'', ''Failed CES dll function call to Add Section Roughness for section id''),
     (''E1688'', ''CES dlls have not been initialised''),
     (''E1689'', ''Failed CES dll function call to Calculate Conveyance for section id''),
     (''E1690'', ''Failed CES dll function call to Get Depth Intervals''),
     (''E1691'', ''Failed CES dll function call to Get Eddy Viscosity''),
     (''E1692'', ''Failed CES dll function call to Get Min Depth''),
     (''E1693'', ''Failed CES dll function call to Get No Panels''),
     (''E1694'', ''Failed CES dll function call to GetRelaxation''),
     (''E1695'', ''Failed CES dll function call to Get Temperature''),
     (''E1696'', ''Failed CES dll function call to Get Max Iterations''),
     (''E1697'', ''Failed CES dll function call to Set Relaxation''),
     (''E1698'', ''Failed CES dll function call to Set Depth Intervals''),
     (''E1699'', ''Failed CES dll function call to SetEddyViscosity''),
     (''E1700'', ''Failed CES dll function call to Set Min Depth''),
     (''E1701'', ''Failed CES dll function call to Set No Panels''),
     (''E1702'', ''Failed CES dll function call to Set Max Iterations''),
     (''E1703'', ''Failed CES dll function call to SetTemperature''),
     (''E1704'', ''Failed CES dll function call to GetHytMultiplier''),
     (''E1705'', ''Failed CES dll function call to SetHytMultiplier''),
     (''E1706'', ''Failed function call to fn_requestoutputs_at_timestage for section''),
     (''E1707'', ''Failed function call to fn_get_isis_tables for section''),
     (''E1708'', ''Failed CES dll function call to FnGetMinMax_Output_Elevations for section id''),
     (''E1709'', ''Failed CES dll function call to fngetmaxarea for section''),
     (''E1720'', ''Too many substrings in rule''),
     (''E1721'', ''Parse error in rule''),
     (''E1722'', ''Logical storage capacity exceded in rule l1''),
     (''E1723'', ''Error in rule l1''),
     (''E1724'', ''Failed CES dll function call to SetConvTolerance''),
     (''E1725'', ''Failed CES dll function call to GetConvTolerance''),
     (''E1726'', ''Failed CES dll function call to SetConveyanceType''),
     (''E1727'', ''Rule l1 has already been defined. Note that only the first 10 characters of the name are significant.''),
     (''E1728'', ''Rule ALL is not valid. It could be confused with the keyword ALL in the TIME RULE DATA SET.''),
     (''E1729'', ''Fatal error in 2D solver''),
     (''E1730'', ''Indeterminate flow direction in qxbdy''),
     (''E1800'', ''Unknown bank type for section id''),
     (''E1801'', ''Sinuosity can only provided on a left bank in section id''),
     (''E1802'', ''Even number of bank markers required for section id''),
     (''E1803'', ''Put roughness chainage in ascending order for section id''),
     (''E1804'', ''Put section chainage in ascending order for section id''),
     (''E1805'', ''RO bank marker must follow LI for section id''),
     (''E1806'', ''RI bank marker must follow LO for section id''),
     (''E1807'', ''LI bank marker must follow RO for section id''),
     (''E1808'', ''LO bank marker must follow RI for section id''),
     (''E1809'', ''RS bank marker must follow LS for section id''),
     (''E1810'', ''LS bank marker must follow RS for section id''),
     (''E1811'', ''Date out of range in section''),
     (''E1813'', ''No section data to calculate conveyance for section id''),
     (''E1814'', ''No roughness data to calculate conveyance for section id''),
     (''E1815'', ''Roughness zone not found in roughness file for section id''),
     (''E1818'', ''[No message]''),
     (''E1819'', ''Data error at line X. failed to load roughness file.''),
     (''E1820'', ''Non unique section name found for section id/replicate''),
     (''E1821'', ''Start date is out of the range specified in the roughness file for section id''),
     (''E1822'', ''Finish date is out of the range specified in the roughness file for section id''),
     (''E1824'', ''Section not found''),
     (''E1825'', ''At least two bank markers required for section id''),
     (''E1827'', ''Failed CES dll function call to FnAddInterpolate for interpolated section, cannot find upstream section for section id''),
     (''E1828'', ''Failed CES dll function call to FnAddInterpolate for interpolated section, cannot find downstream section for section id''),
     (''E1830'', ''Cannot find urban unit.''),
     (''E1831'', ''This urban throughflow unit is not associated with an urban unit.''),
     (''E1832'', ''The data store cannot accurately store the urban unit's number.''),
     (''E1900'', ''Cannot allocate memory, status = n''),
     (''E1926'', ''One of many E1926 errors''),
     (''E1999'', ''One of many E1999 errors'')
    ]"

definition WARNING_DESCRIPTIONS :: "string \<rightharpoonup> string" where
  "WARNING_DESCRIPTIONS = map_of (rev WARNING_DESCRIPTIONS_items)"

definition extract_zzd_data :: "bytes \<Rightarrow> error + result" where
  "extract_zzd_data zzd_bytes = extract_with WARNING_DESCRIPTIONS zzd_bytes"

section \<open>Notions used in the statements\<close>

text \<open>What an item of a pattern may consume.\<close>

fun seg_ok :: "item \<Rightarrow> bytes \<Rightarrow> bool" where
  "seg_ok (LitI l) seg = (map lower seg = map lower l)"
| "seg_ok (Star c) seg = list_all (cls_ok c) seg"
| "seg_ok (Plus c) seg = (seg \<noteq> [] \<and> list_all (cls_ok c) seg)"
| "seg_ok (Lazy c) seg = list_all (cls_ok c) seg"
| "seg_ok (Opt c) seg = (length seg \<le> 1 \<and> list_all (cls_ok c) seg)"
| "seg_ok (Alt ls) seg = list_ex (\<lambda>l. map lower seg = map lower l) ls"
| "seg_ok Open seg = (seg = [])"
| "seg_ok Close seg = (seg = [])"

text \<open>The shape of a time token: digits, then optionally a point and digits (\<open>\d+\.?\d*\<close>).\<close>

definition is_time_token :: "bytes \<Rightarrow> bool" where
  "is_time_token t =
     (let a = takeWhile is_digit t; r = dropWhile is_digit t
      in a \<noteq> [] \<and> (case r of [] \<Rightarrow> True | c # b \<Rightarrow> c = CHR ''.'' \<and> list_all is_digit b))"

text \<open>The floats a time token can denote: a finite value that is not negative, or \<open>inf\<close>.\<close>

definition is_time_value :: "pyfloat \<Rightarrow> bool" where
  "is_time_value v = (case v of Fin q \<Rightarrow> 0 \<le> q | PosInf \<Rightarrow> True | _ \<Rightarrow> False)"

text \<open>The digits of a time token, and the number of those after the point.\<close>

definition token_digits :: "bytes \<Rightarrow> bytes" where
  "token_digits t = filter is_digit t"

definition token_fraclen :: "bytes \<Rightarrow> nat" where
  "token_fraclen t = length (tl (dropWhile is_digit t))"

text \<open>The matches whose three \<open>float()\<close> calls succeed, and the entries they give.\<close>

definition conv_ok :: "match \<Rightarrow> bool" where
  "conv_ok m \<longleftrightarrow> py_float (group m 1) \<noteq> None \<and> py_float (group m 2) \<noteq> None \<and> py_float (group m 4) \<noteq> None"

definition dq_entry :: "match \<Rightarrow> conv_entry" where
  "dq_entry m = \<lparr>time = the (py_float (group m 1)), val = the (py_float (group m 2)),
                 node = decode_ignore (group m 3)\<rparr>"

definition dh_entry :: "match \<Rightarrow> conv_entry" where
  "dh_entry m = \<lparr>time = the (py_float (group m 1)), val = the (py_float (group m 4)),
                 node = decode_ignore (group m 5)\<rparr>"

text \<open>The same for a match of \<open>RE_WARN\<close>.\<close>

definition warn_ok :: "match \<Rightarrow> bool" where
  "warn_ok m \<longleftrightarrow> py_float (group m 1) \<noteq> None"

definition warn_entry_of :: "match \<Rightarrow> warn_entry" where
  "warn_entry_of m = \<lparr>w_time = the (py_float (group m 1)),
                       w_type = upper_str (decode_ignore (group m 2)),
                       w_code = decode_ignore (group m 3),
                       w_label = decode_ignore (group m 4)\<rparr>"

text \<open>The time and code of the last ERROR entry, or the initial pair when there is none.\<close>

definition last_error :: "warn_entry list \<Rightarrow> pyfloat option \<times> string option \<Rightarrow> pyfloat option \<times> string option" where
  "last_error ws init =
     (let errs = filter (\<lambda>w. w_type w = ''ERROR'') ws
      in if errs = [] then init else (Some (w_time (last errs)), Some (w_code (last errs))))"

text \<open>A token matched by \<open>\S+\<close>.\<close>

definition is_token :: "bytes \<Rightarrow> bool" where
  "is_token g \<longleftrightarrow> g \<noteq> [] \<and> list_all (\<lambda>c. \<not> is_space c) g"

text \<open>The literal occurs in the text, up to ASCII case.\<close>

fun contains_i :: "bytes \<Rightarrow> bytes \<Rightarrow> bool" where
  "contains_i l [] = starts_with_i l []"
| "contains_i l (x # xs) = (if starts_with_i l (x # xs) then True else contains_i l xs)"

text \<open>The DQ and DH value tokens of a match are accepted by \<open>float()\<close>.\<close>

definition values_ok :: "match \<Rightarrow> bool" where
  "values_ok m \<longleftrightarrow> py_float (group m 2) \<noteq> None \<and> py_float (group m 4) \<noteq> None"

text \<open>The result, when there is one, in terms of the matches.\<close>

definition result_of :: "(string \<rightharpoonup> string) \<Rightarrow> bytes \<Rightarrow> pyfloat \<Rightarrow> pyfloat \<Rightarrow> result" where
  "result_of d b s0 e0 =
     (let dq_data = map dq_entry (finditer RE_CONV b);
          dh_data = map dh_entry (finditer RE_CONV b);
          warn_data = map warn_entry_of (finditer RE_WARN b);
          is_fatal = contains ''stopped in error'' (last_bytes 2000 b);
          le = last_error warn_data (None, None);
          se = force_duration (infer_times s0 e0 dq_data warn_data)
      in \<lparr>dq = dq_data, dh = dh_data, warnings = map (add_note d) warn_data,
          start = fst se, end' = snd se,
          fail_t = (if is_fatal then fst le else None),
          fail_c = (if is_fatal then snd le else None)\<rparr>)"

subsection \<open>Example logs\<close>

text \<open>The empty buffer.\<close>

definition log_empty :: bytes where
  "log_empty =
     []"

text \<open>A convergence block: time 10.5, DQ 0.003 at N1, DH 0.012 at N2, two line breaks before \<open>MAX DQ=\<close>.\<close>

definition log_conv :: bytes where
  "log_conv =
     ''Poor model convergence at time 10.5 hrs'' @ [NL] @
     '' iter 4'' @ [NL] @
     '' MAX DQ= 0.003 at N1  MAX DH= 0.012 at N2'' @ [NL]"

text \<open>The same block without its \<open>MAX DH=\<close> measurement.\<close>

definition log_conv_missing :: bytes where
  "log_conv_missing =
     ''Poor model convergence at time 10.5 hrs'' @ [NL] @
     '' iter 4'' @ [NL] @
     '' MAX DQ= 0.003 at N1'' @ [NL]"

text \<open>The block with three line breaks between the time and \<open>MAX DQ=\<close>.\<close>

definition log_three_lines :: bytes where
  "log_three_lines =
     ''Poor model convergence at time 10.5 hrs'' @ [NL] @
     '' a'' @ [NL] @
     '' b'' @ [NL] @
     '' MAX DQ= 0.003 at N1  MAX DH= 0.012 at N2'' @ [NL]"

text \<open>The block with one line break between the time and \<open>MAX DQ=\<close>.\<close>

definition log_one_line :: bytes where
  "log_one_line =
     ''Poor model convergence at time 10.5 hrs'' @ [NL] @
     '' MAX DQ= 0.003 at N1  MAX DH= 0.012 at N2''"

text \<open>The block with a DQ value that is not a number (a field overflow printed as asterisks).\<close>

definition log_asterisks :: bytes where
  "log_asterisks =
     ''Poor model convergence at time 10.5 hrs'' @ [NL] @
     '' iter 4'' @ [NL] @
     '' MAX DQ= ****** at N1  MAX DH= 0.012 at N2'' @ [NL]"

text \<open>Three diagnostic events, at times 3.0, 7.5 and 12.0, and no start or end marker.\<close>

definition log_diag3 :: bytes where
  "log_diag3 =
     ''Model time 3.0 hrs'' @ [NL] @
     ''*** warning W2000 *** at label: U1'' @ [NL] @
     ''Model time 7.5 hrs'' @ [NL] @
     ''*** note N3002 *** at label: U2'' @ [NL] @
     ''Model time 12.0 hrs'' @ [NL] @
     ''*** warning X9999 *** at label: U3'' @ [NL]"

text \<open>ERROR events at times 5 (E1000) and 20 (E2000), then the fatal marker.\<close>

definition log_fatal :: bytes where
  "log_fatal =
     ''Model time 5 hrs'' @ [NL] @
     ''*** error E1000 *** at label: A'' @ [NL] @
     ''Model time 20 hrs'' @ [NL] @
     ''*** ERROR E2000 *** at label: B'' @ [NL] @
     ''Run stopped in error'' @ [NL]"

text \<open>The same two ERROR events without the fatal marker.\<close>

definition log_no_marker :: bytes where
  "log_no_marker =
     ''Model time 5 hrs'' @ [NL] @
     ''*** error E1000 *** at label: A'' @ [NL] @
     ''Model time 20 hrs'' @ [NL] @
     ''*** ERROR E2000 *** at label: B'' @ [NL]"

text \<open>The fatal marker after a WARNING event only.\<close>

definition log_no_error :: bytes where
  "log_no_error =
     ''Model time 5 hrs'' @ [NL] @
     ''*** warning W2000 *** at label: A'' @ [NL] @
     ''Run stopped in error'' @ [NL]"

text \<open>A start marker with the time \<open>2^53\<close> and nothing else.\<close>

definition log_big_start :: bytes where
  "log_big_start =
     ''start time 9007199254740992''"

text \<open>One diagnostic event at time 693.25 and no marker.\<close>

definition log_single :: bytes where
  "log_single =
     ''Model time 693.25 hrs'' @ [NL] @
     ''*** warning W2000 *** at label: U1'' @ [NL]"

text \<open>Two blocks, the first without its \<open>MAX DH=\<close> measurement.\<close>

definition log_two_blocks :: bytes where
  "log_two_blocks =
     ''Poor model convergence at time 1 hrs'' @ [NL] @
     '' iter 4'' @ [NL] @
     '' MAX DQ= 0.5 at A1'' @ [NL] @
     ''Poor model convergence at time 2 hrs'' @ [NL] @
     '' iter 4'' @ [NL] @
     '' MAX DQ= 0.25 at B1  MAX DH= 0.75 at B2'' @ [NL]"

subsection \<open>The candidate pool\<close>

text \<open>The candidate pool of the inference, read from the returned rows.\<close>

definition pool_of :: "result \<Rightarrow> pyfloat list" where
  "pool_of r =
     (if dq r \<noteq> [] then [time (hd (dq r)), time (last (dq r))] else []) @
     (if warnings r \<noteq> [] then [r_time (hd (warnings r)), r_time (last (warnings r))] else [])"

section \<open>The matcher is sound\<close>

lemma starts_with_i_take:
  "starts_with_i l s \<Longrightarrow> map lower (take (length l) s) = map lower l \<and> s = take (length l) s @ drop (length l) s"
  by (simp add: starts_with_i_def)

lemma bt_sound:
  "bt p s = Some segs \<Longrightarrow> list_all2 seg_ok p segs \<and> (\<exists>rest. s = concat segs @ rest)"
proof (induction p s arbitrary: segs rule: bt.induct)
  case (1 s)
  then show ?case by simp
next
  case (2 p s)
  then show ?case by auto
next
  case (3 p s)
  then show ?case by auto
next
  case (4 l p s)
  then obtain segs' where sw: "starts_with_i l s" and b: "bt p (drop (length l) s) = Some segs'"
    and s: "segs = take (length l) s # segs'"
    by (auto split: if_splits)
  from "4.IH"[OF sw b] obtain rest where a: "list_all2 seg_ok p segs'"
    and r: "drop (length l) s = concat segs' @ rest" by auto
  have "s = take (length l) s @ concat segs' @ rest"
    using r append_take_drop_id[of "length l" s] by simp
  then have "\<exists>rest. s = concat segs @ rest" unfolding s by auto
  with a sw show ?case by (auto simp: s starts_with_i_def)
next
  case (5 p s)
  then show ?case by simp
next
  case (6 l ls p s)
  show ?case
  proof (cases "starts_with_i l s \<and> bt p (drop (length l) s) \<noteq> None")
    case True
    then obtain segs' where sw: "starts_with_i l s" and b: "bt p (drop (length l) s) = Some segs'"
      by auto
    with "6.prems" have s: "segs = take (length l) s # segs'" by simp
    from "6.IH"(1)[OF sw b] obtain rest where a: "list_all2 seg_ok p segs'"
      and r: "drop (length l) s = concat segs' @ rest" by auto
    have "s = take (length l) s @ concat segs' @ rest"
      using r append_take_drop_id[of "length l" s] by simp
    then have "\<exists>rest. s = concat segs @ rest" unfolding s by auto
    with a sw show ?thesis by (auto simp: s starts_with_i_def)
  next
    case False
    then have n: "(if starts_with_i l s then bt p (drop (length l) s) else None) = None" by auto
    with "6.prems" have "bt (Alt ls # p) s = Some segs" by simp
    from "6.IH"(2)[OF n this] show ?thesis by (auto simp: list_all2_Cons1)
  qed
next
  case (7 c p)
  then show ?case by auto
next
  case (8 c p x xs)
  then show ?case
    by (auto split: if_splits option.splits simp: push_def list_all2_Cons1)
next
  case (9 c p)
  then show ?case by simp
next
  case (10 c p x xs)
  then show ?case
    by (auto split: if_splits option.splits simp: push_def list_all2_Cons1)
next
  case (11 c p)
  then show ?case by auto
next
  case (12 c p x xs)
  then show ?case
    by (auto split: if_splits option.splits simp: push_def list_all2_Cons1)
next
  case (13 c p)
  then show ?case by auto
next
  case (14 c p x xs)
  then show ?case
    by (auto split: if_splits option.splits simp: push_def list_all2_Cons1)
qed

lemma lower_simps:
  "lower c = (if is_upper c then the (map_of (zip ''ABCDEFGHIJKLMNOPQRSTUVWXYZ'' ''abcdefghijklmnopqrstuvwxyz'') c) else c)"
  unfolding lower_def is_upper_def by (simp split: option.splits add: map_of_eq_None_iff)

lemma lower_upper_is_lower: "is_upper c \<Longrightarrow> is_lower (lower c)"
  unfolding lower_simps by (auto simp: is_upper_def is_lower_def)

lemma lower_not_upper: "\<not> is_upper c \<Longrightarrow> lower c = c"
  unfolding lower_simps by simp

lemma dot_facts:
  "\<not> is_digit CHR ''.''" "\<not> is_space CHR ''.''" "lower CHR ''.'' = CHR ''.''"
  by (simp_all add: is_digit_def is_space_def lower_def)

lemma lower_eq_dot: "lower c = CHR ''.'' \<longleftrightarrow> c = CHR ''.''"
proof (cases "is_upper c")
  case True
  then have "is_lower (lower c)" by (rule lower_upper_is_lower)
  then have "lower c \<noteq> CHR ''.''" by (auto simp: is_lower_def)
  moreover have "c \<noteq> CHR ''.''" using True by (auto simp: is_upper_def)
  ultimately show ?thesis by simp
next
  case False
  then show ?thesis by (simp add: lower_not_upper)
qed

lemma token_char_facts:
  assumes "is_digit c \<or> c = CHR ''.''"
  shows "c \<noteq> CHR 0x00" "c \<noteq> CHR ''_''" "\<not> is_space c" "c \<noteq> CHR ''+''" "c \<noteq> CHR ''-''"
    "lower c \<noteq> CHR ''i''" "lower c \<noteq> CHR ''n''"
proof -
  have u: "\<not> is_upper c" using assms by (auto simp: is_digit_def is_upper_def)
  show "c \<noteq> CHR 0x00" "c \<noteq> CHR ''_''" "\<not> is_space c" "c \<noteq> CHR ''+''" "c \<noteq> CHR ''-''"
    using assms by (auto simp: is_digit_def is_space_def)
  show "lower c \<noteq> CHR ''i''" "lower c \<noteq> CHR ''n''"
    unfolding lower_not_upper[OF u] using assms by (auto simp: is_digit_def)
qed

lemma time_token_shape:
  assumes "is_time_token t"
  obtains a where "a \<noteq> []" "list_all is_digit a" "t = a"
  | a b where "a \<noteq> []" "list_all is_digit a" "list_all is_digit b" "t = a @ CHR ''.'' # b"
proof -
  define a where "a = takeWhile is_digit t"
  define r where "r = dropWhile is_digit t"
  have t: "t = a @ r" by (simp add: a_def r_def)
  have a: "a \<noteq> []" using assms by (simp add: is_time_token_def Let_def a_def)
  have da: "list_all is_digit a"
    unfolding a_def list_all_iff using set_takeWhileD[of _ is_digit t] by blast
  show ?thesis
  proof (cases r)
    case Nil
    then have "t = a" using t by simp
    then show ?thesis using a da that(1) by blast
  next
    case (Cons c b)
    then have "c = CHR ''.''" "list_all is_digit b"
      using assms by (simp_all add: is_time_token_def Let_def r_def)
    then have "t = a @ CHR ''.'' # b" "list_all is_digit b" using t Cons by simp_all
    then show ?thesis using a da that(2) by blast
  qed
qed

lemma takeWhile_all: "list_all P xs \<Longrightarrow> takeWhile P xs = xs"
  by (simp add: list_all_iff)

lemma dropWhile_all: "list_all P xs \<Longrightarrow> dropWhile P xs = []"
  by (simp add: list_all_iff)

lemma takeWhile_stop: "list_all P xs \<Longrightarrow> \<not> P y \<Longrightarrow> takeWhile P (xs @ y # ys) = xs"
proof -
  assume a: "list_all P xs" and n: "\<not> P y"
  have "takeWhile P (xs @ y # ys) = xs @ takeWhile P (y # ys)"
    by (rule takeWhile_append2) (use a in \<open>simp add: list_all_iff\<close>)
  also have "takeWhile P (y # ys) = []" using n by simp
  finally show ?thesis by simp
qed

lemma dropWhile_stop: "list_all P xs \<Longrightarrow> \<not> P y \<Longrightarrow> dropWhile P (xs @ y # ys) = y # ys"
proof -
  assume a: "list_all P xs" and n: "\<not> P y"
  have "dropWhile P (xs @ y # ys) = dropWhile P (y # ys)"
    by (rule dropWhile_append2) (use a in \<open>simp add: list_all_iff\<close>)
  also have "dropWhile P (y # ys) = y # ys" using n by simp
  finally show ?thesis .
qed

lemma time_tokenI:
  assumes "a \<noteq> []" "list_all is_digit a" "d = [] \<or> d = [CHR ''.'']" "list_all is_digit b"
  shows "is_time_token (a @ d @ b)"
proof -
  from assms(3) show ?thesis
  proof
    assume d: "d = []"
    have ab: "list_all is_digit (a @ b)" using assms by simp
    show ?thesis
      unfolding is_time_token_def d append_Nil takeWhile_all[OF ab] dropWhile_all[OF ab]
      using assms(1) by simp
  next
    assume d: "d = [CHR ''.'']"
    have e: "a @ d @ b = a @ CHR ''.'' # b" by (simp add: d)
    show ?thesis
      unfolding is_time_token_def e takeWhile_stop[OF assms(2) dot_facts(1)]
        dropWhile_stop[OF assms(2) dot_facts(1)]
      using assms(1,4) by simp
  qed
qed

lemma rhe_floor: "\<lfloor>x\<rfloor> \<le> round_half_even x"
  unfolding round_half_even_def Let_def by auto

lemma rhe_nonneg: "0 \<le> x \<Longrightarrow> 0 \<le> round_half_even x"
  using rhe_floor[of x] by (smt (verit) zero_le_floor)

lemma round_pos_time_value: "0 < q \<Longrightarrow> is_time_value (round_pos q)"
  by (simp add: round_pos_def Let_def is_time_value_def rhe_nonneg)

lemma round_mag_time_value: "0 \<le> q \<Longrightarrow> is_time_value (round_mag q)"
  using round_pos_time_value[of q] by (auto simp: round_mag_def is_time_value_def)

lemma py_float_digits_only:
  assumes "list_all (\<lambda>c. is_digit c \<or> c = CHR ''.'') t" "t \<noteq> []"
  shows "py_float t = parse_decimal False t"
proof -
  have c: "is_digit c \<or> c = CHR ''.''" if "c \<in> set t" for c
    using assms(1) that by (simp add: list_all_iff)
  obtain x xs where t: "t = x # xs" using assms(2) by (cases t) auto
  obtain y ys where rt: "rev t = y # ys" using assms(2) by (cases "rev t") auto
  have x: "x \<in> set t" by (simp add: t)
  have "y \<in> set (rev t)" by (simp add: rt)
  then have y: "y \<in> set t" by simp
  have 1: "dropWhile is_space t = t" using token_char_facts(3)[OF c[OF x]] by (simp add: t)
  have "dropWhile is_space (rev t) = rev t" using token_char_facts(3)[OF c[OF y]] by (simp add: rt)
  then have 2: "rev (dropWhile is_space (rev t)) = t" by simp
  have 3: "split_sign t = (False, t)"
    using token_char_facts(4,5)[OF c[OF x]] by (simp add: split_sign_def t)
  have 4: "map lower t \<noteq> ''inf''" "map lower t \<noteq> ''infinity''" "map lower t \<noteq> ''nan''"
    using token_char_facts(6,7)[OF c[OF x]] by (simp_all add: t)
  have 5: "CHR 0x00 \<notin> set t" "CHR ''_'' \<notin> set t"
    using token_char_facts(1,2)[OF c] by blast+
  have "py_float t = float_from_string_inner t" using 5 by (simp add: py_float_def)
  also have "\<dots> = string_to_double t" using 1 2 assms(2) by (simp add: float_from_string_inner_def)
  also have "\<dots> = parse_decimal False t" using 3 4 by (simp add: string_to_double_def)
  finally show ?thesis .
qed

lemma time_token_chars:
  assumes "is_time_token t"
  shows "list_all (\<lambda>c. is_digit c \<or> c = CHR ''.'') t \<and> t \<noteq> []"
  using assms
proof (cases rule: time_token_shape)
  case (1 a)
  then show ?thesis by (simp add: list_all_iff)
next
  case (2 a b)
  then show ?thesis by (simp add: list_all_iff) blast
qed

lemma parse_decimal_digits:
  assumes "a \<noteq> []" "list_all is_digit a"
  shows "parse_decimal False a =
     (if MAX_DIGITS < length (dropWhile (\<lambda>c. c = CHR ''0'') a) then None
      else Some (round_mag (of_nat (digits_val a))))"
  unfolding parse_decimal_def takeWhile_all[OF assms(2)] dropWhile_all[OF assms(2)]
  using assms(1) by (simp add: parse_exponent_def)

lemma parse_decimal_point:
  assumes "a \<noteq> []" "list_all is_digit a" "list_all is_digit b"
  shows "parse_decimal False (a @ CHR ''.'' # b) =
     (if MAX_DIGITS < length (dropWhile (\<lambda>c. c = CHR ''0'') (a @ b)) \<or> MAX_DIGITS < length b then None
      else Some (round_mag (of_nat (digits_val (a @ b)) * 10 powi (- int (length b)))))"
  unfolding parse_decimal_def takeWhile_stop[OF assms(2) dot_facts(1)]
    dropWhile_stop[OF assms(2) dot_facts(1)]
  using assms(1) by (simp add: parse_exponent_def takeWhile_all[OF assms(3)] dropWhile_all[OF assms(3)])

lemma filter_all: "list_all P xs \<Longrightarrow> filter P xs = xs"
  by (simp add: list_all_iff)

lemma parse_decimal_time_token:
  assumes "is_time_token t"
  shows "parse_decimal False t =
     (if MAX_DIGITS < length (dropWhile (\<lambda>c. c = CHR ''0'') (token_digits t))
         \<or> MAX_DIGITS < token_fraclen t then None
      else Some (round_mag (of_nat (digits_val (token_digits t)) * 10 powi (- int (token_fraclen t)))))"
  using assms
proof (cases rule: time_token_shape)
  case (1 a)
  have "token_digits a = a" "token_fraclen a = 0"
    unfolding token_digits_def token_fraclen_def filter_all[OF 1(2)] dropWhile_all[OF 1(2)]
    by simp_all
  then show ?thesis using parse_decimal_digits[OF 1(1,2)] by (simp add: 1(3))
next
  case (2 a b)
  have "token_digits (a @ CHR ''.'' # b) = a @ b"
    unfolding token_digits_def filter_append filter.simps filter_all[OF 2(2)] filter_all[OF 2(3)]
    by (simp add: dot_facts)
  moreover have "token_fraclen (a @ CHR ''.'' # b) = length b"
    unfolding token_fraclen_def dropWhile_stop[OF 2(2) dot_facts(1)] by simp
  moreover note calculation
  then show ?thesis using parse_decimal_point[OF 2(1,2,3)] by (simp add: 2(4))
qed

lemma py_float_time_token:
  assumes "is_time_token t"
  shows "py_float t =
     (if MAX_DIGITS < length (dropWhile (\<lambda>c. c = CHR ''0'') (token_digits t))
         \<or> MAX_DIGITS < token_fraclen t then None
      else Some (round_mag (of_nat (digits_val (token_digits t)) * 10 powi (- int (token_fraclen t)))))"
  using py_float_digits_only time_token_chars[OF assms] parse_decimal_time_token[OF assms] by simp

lemma py_float_time_value:
  assumes "is_time_token t" "py_float t = Some v"
  shows "is_time_value v"
  using assms(2) unfolding py_float_time_token[OF assms(1)]
  by (auto split: if_splits intro!: round_mag_time_value)

lemma length_dropWhile_le': "length (dropWhile P xs) \<le> length xs"
  by (induction xs) auto

lemma py_float_time_token_ok:
  assumes "is_time_token t" "length t \<le> MAX_DIGITS"
  shows "\<exists>v. py_float t = Some v \<and> is_time_value v"
proof -
  have "length (dropWhile (\<lambda>c. c = CHR ''0'') (token_digits t)) \<le> length (token_digits t)"
    by (rule length_dropWhile_le')
  also have "\<dots> \<le> length t" by (simp add: token_digits_def)
  finally have 1: "\<not> MAX_DIGITS < length (dropWhile (\<lambda>c. c = CHR ''0'') (token_digits t))"
    using assms(2) by simp
  have "token_fraclen t \<le> length (dropWhile is_digit t)" by (simp add: token_fraclen_def)
  also have "\<dots> \<le> length t" by (rule length_dropWhile_le')
  finally have 2: "\<not> MAX_DIGITS < token_fraclen t" using assms(2) by simp
  have "py_float t = Some (round_mag (of_nat (digits_val (token_digits t)) * 10 powi (- int (token_fraclen t))))"
    using 1 2 unfolding py_float_time_token[OF assms(1)] by simp
  then show ?thesis using py_float_time_value[OF assms(1)] by simp
qed

lemma quotient_of_pos:
  assumes "0 < q" "quotient_of q = (n, d)"
  shows "0 < n" "0 < d" "q = of_int n / of_int d"
proof -
  show d: "0 < d" using assms(2) by (rule quotient_of_denom_pos)
  show q: "q = of_int n / of_int d" using assms(2) by (rule quotient_of_div)
  show "0 < n" using assms(1) d q by (simp add: zero_less_divide_iff)
qed

lemma bitlen_powi_bounds:
  assumes "0 < n"
  shows "(2::rat) powi (bitlen n - 1) \<le> of_int n" "(of_int n :: rat) < 2 powi bitlen n"
proof -
  from bitlen_bounds[OF assms] have a: "2 ^ nat (bitlen n - 1) \<le> n" and b: "n < 2 ^ nat (bitlen n)"
    by auto
  have p: "0 < bitlen n" using assms bitlen_eq_zero_iff bitlen_nonneg[of n] by (smt (verit))
  have "(2::rat) powi (bitlen n - 1) = 2 ^ nat (bitlen n - 1)"
    using p by (simp add: power_int_def)
  also have "\<dots> = of_int (2 ^ nat (bitlen n - 1))" by simp
  also have "\<dots> \<le> of_int n" using a by (simp only: of_int_le_iff)
  finally show "(2::rat) powi (bitlen n - 1) \<le> of_int n" .
  have "(of_int n :: rat) < of_int (2 ^ nat (bitlen n))" using b by (simp only: of_int_less_iff)
  also have "\<dots> = 2 powi bitlen n" using p by (simp add: power_int_def)
  finally show "(of_int n :: rat) < 2 powi bitlen n" .
qed

lemma ilog2_bounds:
  assumes "0 < q"
  shows "2 powi ilog2 q \<le> q" "q < 2 powi (ilog2 q + 1)"
proof -
  obtain n d where nd: "quotient_of q = (n, d)" by (cases "quotient_of q")
  from quotient_of_pos[OF assms nd] have n: "0 < n" and d: "0 < d" and q: "q = of_int n / of_int d"
    by auto
  define k where "k = bitlen n - bitlen d"
  note bn = bitlen_powi_bounds[OF n] and bd = bitlen_powi_bounds[OF d]
  have dpos: "(0::rat) < of_int d" using d by simp
  have up: "q < 2 powi (k + 1)"
  proof -
    have "of_int n < (2::rat) powi bitlen n" by (rule bn)
    also have "\<dots> = 2 powi (k + 1) * 2 powi (bitlen d - 1)"
      by (simp add: k_def flip: power_int_add)
    also have "\<dots> \<le> 2 powi (k + 1) * of_int d"
      using bd(1) by (simp add: mult_left_mono)
    finally show ?thesis using dpos by (simp add: q pos_divide_less_eq)
  qed
  have lo: "2 powi (k - 1) < q"
  proof -
    have "(2::rat) powi (k - 1) * of_int d < 2 powi (k - 1) * 2 powi bitlen d"
      using bd(2) by (simp add: mult_strict_left_mono)
    also have "\<dots> = 2 powi (bitlen n - 1)"
      by (simp add: k_def flip: power_int_add)
    also have "\<dots> \<le> of_int n" by (rule bn)
    finally show ?thesis using dpos by (simp add: q pos_less_divide_eq)
  qed
  have il: "ilog2 q = (if 2 powi k \<le> q then k else k - 1)"
    by (simp add: ilog2_def nd k_def Let_def)
  show "2 powi ilog2 q \<le> q" using lo by (simp add: il)
  show "q < 2 powi (ilog2 q + 1)" using up by (auto simp: il)
qed

lemma powi_less_D: "(2::rat) powi a < 2 powi b \<Longrightarrow> a < b"
proof (rule ccontr)
  assume l: "(2::rat) powi a < 2 powi b" and "\<not> a < b"
  then have "b \<le> a" by simp
  then have "(2::rat) powi b \<le> 2 powi a" by (intro power_int_increasing) auto
  with l show False by simp
qed

lemma ilog2_unique:
  assumes "0 < q" "2 powi k \<le> q" "q < 2 powi (k + 1)"
  shows "ilog2 q = k"
proof -
  note b = ilog2_bounds[OF assms(1)]
  have "(2::rat) powi k < 2 powi (ilog2 q + 1)" using assms(2) b(2) by simp
  then have 1: "k < ilog2 q + 1" by (rule powi_less_D)
  have "(2::rat) powi ilog2 q < 2 powi (k + 1)" using assms(3) b(1) by simp
  then have 2: "ilog2 q < k + 1" by (rule powi_less_D)
  from 1 2 show ?thesis by simp
qed

lemma rhe_lower: "x - 1 / 2 \<le> of_int (round_half_even x)"
  unfolding round_half_even_def Let_def by (auto; linarith)

lemma rhe_upper: "of_int (round_half_even x) \<le> x + 1 / 2"
  unfolding round_half_even_def Let_def by (auto; linarith)

lemma rhe_of_int [simp]: "round_half_even (of_int n) = n"
  unfolding round_half_even_def Let_def by simp

text \<open>Evaluation rule: once the binade is known, rounding is one integer rounding.\<close>

lemma round_pos_eval:
  assumes "0 < q" "2 powi k \<le> q" "q < 2 powi (k + 1)" "e = max (k - 52) (- 1074)"
  shows "round_pos q =
    (let v = of_int (round_half_even (q / 2 powi e)) * 2 powi e
     in if 2 ^ 1024 \<le> v then PosInf else Fin v)"
  using ilog2_unique[OF assms(1-3)] assms(4) by (simp add: round_pos_def Let_def)

lemma rhe_eval:
  assumes "0 < d"
  shows "round_half_even (of_int n / of_int d) =
     (let f = n div d; r2 = 2 * (n mod d)
      in if r2 < d then f else if d < r2 then f + 1 else if even f then f else f + 1)"
proof -
  have f: "\<lfloor>(of_int n / of_int d :: rat)\<rfloor> = n div d" by (rule floor_divide_of_int_eq)
  have dp: "(0::rat) < of_int d" using assms by simp
  have "(of_int n :: rat) = of_int (n div d * d + n mod d)" by simp
  also have "\<dots> = of_int (n div d) * of_int d + of_int (n mod d)" by (simp only: of_int_add of_int_mult)
  finally have r: "(of_int n / of_int d :: rat) - of_int (n div d) = of_int (n mod d) / of_int d"
    using dp by (simp add: field_simps)
  have lt: "(of_int (n mod d) / of_int d :: rat) < 1 / 2 \<longleftrightarrow> 2 * (n mod d) < d"
  proof -
    have "(of_int (n mod d) / of_int d :: rat) < 1 / 2 \<longleftrightarrow> (of_int (2 * (n mod d)) :: rat) < of_int d"
      using dp by (simp add: field_simps)
    then show ?thesis by (simp only: of_int_less_iff)
  qed
  have gt: "(1 / 2 :: rat) < of_int (n mod d) / of_int d \<longleftrightarrow> d < 2 * (n mod d)"
  proof -
    have "(1 / 2 :: rat) < of_int (n mod d) / of_int d \<longleftrightarrow> (of_int d :: rat) < of_int (2 * (n mod d))"
      using dp by (simp add: field_simps)
    then show ?thesis by (simp only: of_int_less_iff)
  qed
  show ?thesis unfolding round_half_even_def Let_def f r lt gt ..
qed

lemma round_pos_succ:
  assumes "0 \<le> s" "s < 2 ^ 53"
  shows "\<exists>v. round_pos (s + 1) = Fin v \<and> s < v"
proof -
  define y where "y = s + 1"
  define k where "k = ilog2 y"
  have y: "1 \<le> y" "y < 2 ^ 53 + 1" "0 < y" using assms by (simp_all add: y_def)
  note kb = ilog2_bounds[OF y(3), folded k_def]
  have "(2::rat) powi 0 < 2 powi (k + 1)" using y(1) kb(2) by simp
  then have k0: "0 \<le> k" using powi_less_D by fastforce
  have "(2::rat) powi k < 2 powi 54" using y(2) kb(1) by simp
  then have k53: "k \<le> 53" using powi_less_D by fastforce
  define e where "e = max (k - 52) (- 1074)"
  have e: "e = k - 52" using k0 by (simp add: e_def)
  define m where "m = round_half_even (y / 2 powi e)"
  define v where "v = of_int m * (2::rat) powi e"
  have pe: "(0::rat) < 2 powi e" by simp
  have lo: "y / 2 powi e - 1 / 2 \<le> of_int m" unfolding m_def by (rule rhe_lower)
  have hi: "of_int m \<le> y / 2 powi e + 1 / 2" unfolding m_def by (rule rhe_upper)
  have vhi: "v \<le> y + 2 powi e / 2"
  proof -
    have "v \<le> (y / 2 powi e + 1 / 2) * 2 powi e"
      unfolding v_def using hi pe by (simp add: mult_right_mono)
    also have "\<dots> = y + 2 powi e / 2" using pe by (simp add: field_simps)
    finally show ?thesis .
  qed
  have e1: "(2::rat) powi e \<le> 2 powi 1" using k53 by (intro power_int_increasing) (simp_all add: e)
  have "v \<le> 2 ^ 53 + 2" using vhi e1 y(2) by simp
  then have fin: "\<not> (2 ^ 1024 \<le> v)" by simp
  have sv: "s < v"
  proof (cases "e \<le> 0")
    case True
    then have "(2::rat) powi e \<le> 2 powi 0" by (intro power_int_increasing) simp_all
    then have p1: "(2::rat) powi e \<le> 1" by simp
    have "(y / 2 powi e - 1 / 2) * 2 powi e \<le> v"
      unfolding v_def using lo pe by (simp add: mult_right_mono)
    moreover have "(y / 2 powi e - 1 / 2) * 2 powi e = y - 2 powi e / 2"
      using pe by (simp add: field_simps)
    ultimately have "y - 2 powi e / 2 \<le> v" by simp
    then show ?thesis using p1 by (simp add: y_def)
  next
    case False
    then have e1': "e = 1" using k53 e by simp
    then have k: "k = 53" using e by simp
    have "(2::rat) ^ 53 \<le> y" using kb(1) by (simp add: k)
    then have "(2::rat) ^ 52 \<le> y / 2 powi e" by (simp add: e1')
    then have "(2::int) ^ 52 \<le> \<lfloor>y / 2 powi e\<rfloor>" by (simp add: le_floor_iff)
    from order_trans[OF this rhe_floor] have "(2::int) ^ 52 \<le> m" unfolding m_def .
    then have "(of_int ((2::int) ^ 52) :: rat) \<le> of_int m" by (simp only: of_int_le_iff)
    then have "(2::rat) ^ 53 \<le> v" by (simp add: v_def e1')
    then show ?thesis using assms(2) by simp
  qed
  have "round_pos (s + 1) = Fin v"
    using fin by (simp add: round_pos_def Let_def v_def m_def e_def k_def y_def)
  with sv show ?thesis by blast
qed

text \<open>A number with at most 53 significant bits and an exponent in range rounds to itself.\<close>

lemma round_pos_exact:
  assumes "0 < m" "m < 2 ^ 53" "- 1074 \<le> e" "e \<le> 971"
  shows "round_pos (of_int m * 2 powi e) = Fin (of_int m * 2 powi e)"
proof -
  define q :: rat where "q = of_int m * 2 powi e"
  have qp: "0 < q" using assms(1) by (simp add: q_def)
  define k where "k = ilog2 q"
  note kb = ilog2_bounds[OF qp, folded k_def]
  define e' where "e' = max (k - 52) (- 1074)"
  have "(of_int m :: rat) < of_int (2 ^ 53)" using assms(2) by (simp only: of_int_less_iff)
  then have m53: "(of_int m :: rat) < 2 powi 53" by simp
  have "q < 2 powi 53 * 2 powi e" unfolding q_def using m53 by (simp add: mult_strict_right_mono)
  also have "\<dots> = 2 powi (53 + e)" by (simp add: power_int_add)
  finally have "(2::rat) powi k < 2 powi (53 + e)" using kb(1) by simp
  then have "k < 53 + e" by (rule powi_less_D)
  then have le: "e' \<le> e" using assms(3) by (simp add: e'_def)
  have "(2::rat) powi e = 2 powi (e - e') * 2 powi e'" by (simp flip: power_int_add)
  also have "(2::rat) powi (e - e') = of_int (2 ^ nat (e - e'))" using le by (simp add: power_int_def)
  finally have "q / 2 powi e' = of_int (m * 2 ^ nat (e - e'))" by (simp add: q_def)
  then have "round_half_even (q / 2 powi e') = m * 2 ^ nat (e - e')" by (simp only: rhe_of_int)
  then have v: "of_int (round_half_even (q / 2 powi e')) * 2 powi e' = q"
    using \<open>q / 2 powi e' = of_int (m * 2 ^ nat (e - e'))\<close> by (simp add: field_simps)
  have "q < 2 powi (53 + e)" using \<open>q < 2 powi 53 * 2 powi e\<close> by (simp add: power_int_add)
  also have "\<dots> \<le> 2 powi 1024" using assms(4) by (intro power_int_increasing) simp_all
  finally have "\<not> 2 ^ 1024 \<le> q" by simp
  then show ?thesis
    unfolding round_pos_def Let_def k_def[symmetric] e'_def[symmetric] v q_def[symmetric] by simp
qed

lemma search_sound:
  "search p s = Some m \<Longrightarrow>
     \<exists>segs. m = mk_match p segs \<and> list_all2 seg_ok p segs \<and> length (concat segs) \<le> length s"
proof (induction s)
  case Nil
  then obtain segs where b: "bt p [] = Some segs" and m: "m = mk_match p segs" by auto
  from bt_sound[OF b] show ?case using m by auto
next
  case (Cons x xs)
  show ?case
  proof (cases "bt p (x # xs)")
    case None
    with Cons.prems have "search p xs = Some m" by simp
    from Cons.IH[OF this] show ?thesis by auto
  next
    case (Some segs)
    with Cons.prems have m: "m = mk_match p segs" by simp
    from bt_sound[OF Some] obtain rest where "list_all2 seg_ok p segs" "x # xs = concat segs @ rest"
      by auto
    then have "list_all2 seg_ok p segs \<and> length (concat segs) \<le> length (x # xs)"
      by (metis length_append le_add1)
    with m show ?thesis by blast
  qed
qed

lemma finditer_sound:
  "m \<in> set (finditer p s) \<Longrightarrow>
     \<exists>segs. m = mk_match p segs \<and> list_all2 seg_ok p segs \<and> length (concat segs) \<le> length s"
proof (induction p s rule: finditer.induct)
  case (1 p)
  show ?case
  proof (cases "bt p []")
    case None
    with "1.prems" show ?thesis by simp
  next
    case (Some segs)
    with "1.prems" have m: "m = mk_match p segs" by simp
    from bt_sound[OF Some] show ?thesis using m by auto
  qed
next
  case (2 p x xs)
  show ?case
  proof (cases "bt p (x # xs)")
    case None
    with "2.prems" have "m \<in> set (finditer p xs)" by simp
    from "2.IH"(1)[OF None this] show ?thesis by auto
  next
    case (Some segs)
    from bt_sound[OF Some] obtain rest where ok: "list_all2 seg_ok p segs"
      and r: "x # xs = concat segs @ rest" by auto
    have len: "length (concat segs) \<le> length (x # xs)" by (metis r length_append le_add1)
    from "2.prems" Some have "m = mk_match p segs \<or> m \<in> set (finditer p (drop (length (concat segs) - 1) xs))"
      by simp
    then show ?thesis
    proof
      assume "m = mk_match p segs"
      with ok len show ?thesis by blast
    next
      assume "m \<in> set (finditer p (drop (length (concat segs) - 1) xs))"
      from "2.IH"(2)[OF Some this] obtain segs' where "m = mk_match p segs'" "list_all2 seg_ok p segs'"
        "length (concat segs') \<le> length (drop (length (concat segs) - 1) xs)" by auto
      then show ?thesis by (intro exI[of _ segs']) auto
    qed
  qed
qed

lemma conv_loop_eq:
  "conv_loop ms (a, b) =
     (if list_all conv_ok ms then Inr (a @ map dq_entry ms, b @ map dh_entry ms) else Inl ValueError)"
proof (induction ms arbitrary: a b)
  case Nil
  then show ?case by simp
next
  case (Cons m ms)
  show ?case
  proof (cases "conv_ok m")
    case True
    then obtain t v2 v4 where "py_float (group m 1) = Some t" "py_float (group m 2) = Some v2"
      "py_float (group m 4) = Some v4" by (auto simp: conv_ok_def)
    then show ?thesis using True by (simp add: Cons.IH dq_entry_def dh_entry_def)
  next
    case False
    then show ?thesis by (auto simp: conv_ok_def split: option.splits)
  qed
qed

lemma last_error_snoc:
  "last_error (ws @ [w]) init =
     (if w_type w = ''ERROR'' then (Some (w_time w), Some (w_code w)) else last_error ws init)"
  by (simp add: last_error_def Let_def)

lemma warn_loop_eq:
  "warn_loop ms (ws, last_error ws init) =
     (if list_all warn_ok ms
      then Inr (ws @ map warn_entry_of ms, last_error (ws @ map warn_entry_of ms) init)
      else Inl ValueError)"
proof (induction ms arbitrary: ws)
  case Nil
  then show ?case by simp
next
  case (Cons m ms)
  show ?case
  proof (cases "warn_ok m")
    case True
    then obtain t where t: "py_float (group m 1) = Some t" by (auto simp: warn_ok_def)
    define w where "w = warn_entry_of m"
    have w: "w = \<lparr>w_time = t, w_type = upper_str (decode_ignore (group m 2)),
      w_code = decode_ignore (group m 3), w_label = decode_ignore (group m 4)\<rparr>"
      using t by (simp add: w_def warn_entry_of_def)
    have step: "warn_loop (m # ms) (ws, last_error ws init) = warn_loop ms (ws @ [w], last_error (ws @ [w]) init)"
      using t by (cases "last_error ws init") (simp add: Let_def last_error_snoc w)
    show ?thesis unfolding step Cons.IH using True by (simp add: w_def)
  next
    case False
    then show ?thesis by (cases "last_error ws init") (simp add: warn_ok_def)
  qed
qed

lemma warn_loop_init:
  "warn_loop ms ([], None, None) =
     (if list_all warn_ok ms
      then Inr (map warn_entry_of ms, last_error (map warn_entry_of ms) (None, None))
      else Inl ValueError)"
  using warn_loop_eq[of ms "[]" "(None, None)"] by (simp add: last_error_def)

lemma lower_eq_nonletter:
  assumes "\<not> is_upper d" "\<not> is_lower d"
  shows "lower c = lower d \<longleftrightarrow> c = d"
proof (cases "is_upper c")
  case True
  then have "is_lower (lower c)" by (rule lower_upper_is_lower)
  moreover have "lower d = d" using assms(1) by (rule lower_not_upper)
  ultimately show ?thesis using assms True by auto
next
  case False
  then show ?thesis using assms(1) by (simp add: lower_not_upper)
qed

lemma NL_nonletter: "\<not> is_upper NL" "\<not> is_lower NL"
  by (simp_all add: NL_def is_upper_def is_lower_def)

lemma dot_nonletter: "\<not> is_upper CHR ''.''" "\<not> is_lower CHR ''.''"
  by (simp_all add: is_upper_def is_lower_def)

lemma seg_NL: "map lower seg = map lower [NL] \<Longrightarrow> seg = [NL]"
  by (cases seg) (auto simp: lower_eq_nonletter[OF NL_nonletter])

lemma seg_opt_dot:
  assumes "seg_ok (Opt (Chr CHR ''.'')) d"
  shows "d = [] \<or> d = [CHR ''.'']"
proof (cases d)
  case Nil
  then show ?thesis by simp
next
  case (Cons c cs)
  with assms have "cs = []" "lower c = lower CHR ''.''" by simp_all
  then show ?thesis using Cons by (simp add: lower_eq_nonletter[OF dot_nonletter])
qed

lemma time_group:
  assumes "seg_ok (Plus Digit) a" "seg_ok (Opt (Chr CHR ''.'')) d" "seg_ok (Star Digit) b"
  shows "is_time_token (a @ d @ b)"
proof -
  have "a \<noteq> []" "list_all is_digit a" "list_all is_digit b"
    using assms(1,3) by (simp_all add: list_all_iff)
  then show ?thesis using seg_opt_dot[OF assms(2)] by (intro time_tokenI)
qed

lemma seg_token: "seg_ok (Plus NonSpace) g \<Longrightarrow> is_token g"
  by (simp add: is_token_def list_all_iff)

lemma seg_spaces: "seg_ok (Plus Space) g \<Longrightarrow> g \<noteq> [] \<and> list_all is_space g"
  by (simp add: list_all_iff)

lemma seg_spaces0: "seg_ok (Star Space) g \<Longrightarrow> list_all is_space g"
  by (simp add: list_all_iff)

lemma RE_START_groups:
  assumes "list_all2 seg_ok RE_START segs"
  shows "\<exists>g1. mk_match RE_START segs = [concat segs, g1] \<and> is_time_token g1
     \<and> length g1 \<le> length (concat segs)"
proof -
  from assms obtain s0 s1 s2 s3 s4 s5 s6 where segs: "segs = [s0, s1, s2, s3, s4, s5, s6]"
    and ok: "seg_ok (Plus Digit) s3" "seg_ok (Opt (Chr CHR ''.'')) s4" "seg_ok (Star Digit) s5"
    unfolding RE_START_def by (auto simp: list_all2_Cons1)
  have "mk_match RE_START segs = [concat segs, s3 @ s4 @ s5]"
    by (simp add: mk_match_def RE_START_def segs)
  then show ?thesis using time_group[OF ok] by (simp add: segs)
qed

lemma RE_END_groups:
  assumes "list_all2 seg_ok RE_END segs"
  shows "\<exists>g1. mk_match RE_END segs = [concat segs, g1] \<and> is_time_token g1
     \<and> length g1 \<le> length (concat segs)"
proof -
  from assms obtain s0 s1 s2 s3 s4 s5 s6 where segs: "segs = [s0, s1, s2, s3, s4, s5, s6]"
    and ok: "seg_ok (Plus Digit) s3" "seg_ok (Opt (Chr CHR ''.'')) s4" "seg_ok (Star Digit) s5"
    unfolding RE_END_def by (auto simp: list_all2_Cons1)
  have "mk_match RE_END segs = [concat segs, s3 @ s4 @ s5]"
    by (simp add: mk_match_def RE_END_def segs)
  then show ?thesis using time_group[OF ok] by (simp add: segs)
qed

lemma RE_WARN_groups:
  assumes "list_all2 seg_ok RE_WARN segs"
  shows "\<exists>g1 g2 g3 g4. mk_match RE_WARN segs = [concat segs, g1, g2, g3, g4] \<and> is_time_token g1
     \<and> length g1 \<le> length (concat segs)"
proof -
  from assms obtain s0 s1 s2 s3 s4 s5 s6 s7 s8 s9 s10 s11 s12 s13 s14 s15 s16 s17 s18 s19 s20 s21
    s22 s23 s24 s25 s26
    where segs: "segs = [s0, s1, s2, s3, s4, s5, s6, s7, s8, s9, s10, s11, s12, s13, s14, s15, s16,
      s17, s18, s19, s20, s21, s22, s23, s24, s25, s26]"
    and ok: "seg_ok (Plus Digit) s3" "seg_ok (Opt (Chr CHR ''.'')) s4" "seg_ok (Star Digit) s5"
    unfolding RE_WARN_def by (auto simp: list_all2_Cons1)
  have "mk_match RE_WARN segs = [concat segs, s3 @ s4 @ s5, s13, s17, s25]"
    by (simp add: mk_match_def RE_WARN_def segs)
  then show ?thesis using time_group[OF ok] by (simp add: segs)
qed

lemma count_two_NL: "2 \<le> count_list (a @ [NL] @ b @ [NL] @ c) NL"
  by simp

lemma RE_CONV_shape:
  assumes "list_all2 seg_ok RE_CONV segs"
  shows "\<exists>P x1 T sp g1 gap Q s1 g2 s2 A1 s3 g3 x5 H s4 g4 s5 A2 s6 g5.
     mk_match RE_CONV segs = [concat segs, g1, g2, g3, g4, g5]
     \<and> concat segs = P @ x1 @ T @ sp @ g1 @ gap @ Q @ s1 @ g2 @ s2 @ A1 @ s3 @ g3 @ x5 @ H @ s4 @ g4 @ s5 @ A2 @ s6 @ g5
     \<and> map lower P = map lower ''Poor model convergence''
     \<and> map lower T = map lower ''time'' \<and> sp \<noteq> [] \<and> list_all is_space sp
     \<and> is_time_token g1 \<and> 2 \<le> count_list gap NL
     \<and> map lower Q = map lower ''MAX DQ='' \<and> list_all is_space s1 \<and> is_token g2
     \<and> s2 \<noteq> [] \<and> list_all is_space s2 \<and> map lower A1 = map lower ''at''
     \<and> s3 \<noteq> [] \<and> list_all is_space s3 \<and> is_token g3
     \<and> map lower H = map lower ''MAX DH='' \<and> list_all is_space s4 \<and> is_token g4
     \<and> s5 \<noteq> [] \<and> list_all is_space s5 \<and> map lower A2 = map lower ''at''
     \<and> s6 \<noteq> [] \<and> list_all is_space s6 \<and> is_token g5"
proof -
  from assms obtain P x1 T sp o1 a d b c1 y1 n1 y2 n2 y3 Q s1 o2 g2 c2 s2 A1 s3 o3 g3 c3 x5 H s4 o4 g4
    c4 s5 A2 s6 o5 g5 c5
    where segs: "segs = [P, x1, T, sp, o1, a, d, b, c1, y1, n1, y2, n2, y3, Q, s1, o2, g2, c2, s2, A1,
      s3, o3, g3, c3, x5, H, s4, o4, g4, c4, s5, A2, s6, o5, g5, c5]"
    and oc: "o1 = []" "c1 = []" "o2 = []" "c2 = []" "o3 = []" "c3 = []" "o4 = []" "c4 = []" "o5 = []" "c5 = []"
    and lits: "seg_ok (LitI ''Poor model convergence'') P" "seg_ok (LitI ''time'') T"
      "seg_ok (LitI [NL]) n1" "seg_ok (LitI [NL]) n2" "seg_ok (LitI ''MAX DQ='') Q"
      "seg_ok (LitI ''at'') A1" "seg_ok (LitI ''MAX DH='') H" "seg_ok (LitI ''at'') A2"
    and tm: "seg_ok (Plus Digit) a" "seg_ok (Opt (Chr CHR ''.'')) d" "seg_ok (Star Digit) b"
    and sps: "seg_ok (Plus Space) sp" "seg_ok (Star Space) s1" "seg_ok (Plus Space) s2"
      "seg_ok (Plus Space) s3" "seg_ok (Star Space) s4" "seg_ok (Plus Space) s5" "seg_ok (Plus Space) s6"
    and toks: "seg_ok (Plus NonSpace) g2" "seg_ok (Plus NonSpace) g3" "seg_ok (Plus NonSpace) g4"
      "seg_ok (Plus NonSpace) g5"
    unfolding RE_CONV_def by (auto simp: list_all2_Cons1)
  have ln: "map lower n1 = map lower [NL]" "map lower n2 = map lower [NL]"
    using lits(3,4) by (simp_all only: seg_ok.simps)
  have n: "n1 = [NL]" "n2 = [NL]" using seg_NL[OF ln(1)] seg_NL[OF ln(2)] by blast+
  define gap where "gap = y1 @ [NL] @ y2 @ [NL] @ y3"
  have m: "mk_match RE_CONV segs = [concat segs, a @ d @ b, g2, g3, g4, g5]"
    by (simp add: mk_match_def RE_CONV_def segs)
  have c: "concat segs = P @ x1 @ T @ sp @ (a @ d @ b) @ gap @ Q @ s1 @ g2 @ s2 @ A1 @ s3 @ g3 @ x5 @ H @ s4 @ g4 @ s5 @ A2 @ s6 @ g5"
    by (simp add: segs oc n gap_def)
  have g: "2 \<le> count_list gap NL" unfolding gap_def by (rule count_two_NL)
  show ?thesis
    apply (rule exI[of _ P], rule exI[of _ x1], rule exI[of _ T], rule exI[of _ sp])
    apply (rule exI[of _ "a @ d @ b"], rule exI[of _ gap], rule exI[of _ Q], rule exI[of _ s1])
    apply (rule exI[of _ g2], rule exI[of _ s2], rule exI[of _ A1], rule exI[of _ s3])
    apply (rule exI[of _ g3], rule exI[of _ x5], rule exI[of _ H], rule exI[of _ s4])
    apply (rule exI[of _ g4], rule exI[of _ s5], rule exI[of _ A2], rule exI[of _ s6])
    apply (rule exI[of _ g5])
    using m c g time_group[OF tm] lits(1,2,5-8) seg_spaces[OF sps(1)] seg_spaces0[OF sps(2)]
      seg_spaces[OF sps(3)] seg_spaces[OF sps(4)] seg_spaces0[OF sps(5)] seg_spaces[OF sps(6)]
      seg_spaces[OF sps(7)] seg_token[OF toks(1)] seg_token[OF toks(2)] seg_token[OF toks(3)]
      seg_token[OF toks(4)]
    apply (simp only: seg_ok.simps)
    apply (intro conjI; assumption?)
    apply simp_all
    done
qed

lemma contains_i_iff: "contains_i l s \<longleftrightarrow> (\<exists>pre seg post. s = pre @ seg @ post \<and> map lower seg = map lower l)"
proof (induction s)
  case Nil
  show ?case by (auto simp: starts_with_i_def)
next
  case (Cons x xs)
  show ?case
  proof
    assume "contains_i l (x # xs)"
    then consider "starts_with_i l (x # xs)" | "contains_i l xs" by (auto split: if_splits)
    then show "\<exists>pre seg post. x # xs = pre @ seg @ post \<and> map lower seg = map lower l"
    proof cases
      case 1
      then have "x # xs = [] @ take (length l) (x # xs) @ drop (length l) (x # xs)"
        "map lower (take (length l) (x # xs)) = map lower l"
        by (simp_all add: starts_with_i_def)
      then show ?thesis by blast
    next
      case 2
      with Cons.IH obtain pre seg post where "xs = pre @ seg @ post" "map lower seg = map lower l"
        by blast
      then have "x # xs = (x # pre) @ seg @ post" by simp
      then show ?thesis using \<open>map lower seg = map lower l\<close> by blast
    qed
  next
    assume "\<exists>pre seg post. x # xs = pre @ seg @ post \<and> map lower seg = map lower l"
    then obtain pre seg post where s: "x # xs = pre @ seg @ post" and m: "map lower seg = map lower l"
      by blast
    show "contains_i l (x # xs)"
    proof (cases pre)
      case Nil
      have len: "length seg = length l" using m by (metis length_map)
      have "starts_with_i l (x # xs)"
        using s m len unfolding Nil starts_with_i_def by simp
      then show ?thesis by simp
    next
      case (Cons y ys)
      then have "xs = ys @ seg @ post" using s by simp
      with m Cons.IH have "contains_i l xs" by blast
      then show ?thesis by simp
    qed
  qed
qed

lemma seg_in_concat:
  assumes "list_all2 seg_ok p segs" "LitI l \<in> set p"
  shows "\<exists>pre seg post. concat segs = pre @ seg @ post \<and> map lower seg = map lower l"
  using assms
proof (induction p segs rule: list_all2_induct)
  case Nil
  then show ?case by simp
next
  case (Cons i p seg segs)
  show ?case
  proof (cases "i = LitI l")
    case True
    with Cons.hyps(1) have "map lower seg = map lower l" by simp
    moreover have "concat (seg # segs) = [] @ seg @ concat segs" by simp
    ultimately show ?thesis by blast
  next
    case False
    with Cons.prems have "LitI l \<in> set p" by simp
    from Cons.IH[OF this] obtain pre s' post where "concat segs = pre @ s' @ post"
      "map lower s' = map lower l" by blast
    then have "concat (seg # segs) = (seg @ pre) @ s' @ post" by simp
    then show ?thesis using \<open>map lower s' = map lower l\<close> by blast
  qed
qed

lemma bt_contains_literal:
  assumes "bt p s = Some segs" "LitI l \<in> set p"
  shows "contains_i l s"
proof -
  from bt_sound[OF assms(1)] obtain rest where ok: "list_all2 seg_ok p segs"
    and s: "s = concat segs @ rest" by blast
  from seg_in_concat[OF ok assms(2)] obtain pre seg post where
    "concat segs = pre @ seg @ post" "map lower seg = map lower l" by blast
  then have "s = pre @ seg @ (post @ rest)" using s by simp
  then show ?thesis using \<open>map lower seg = map lower l\<close> unfolding contains_i_iff by blast
qed

lemma contains_i_suffix: "contains_i l s \<Longrightarrow> contains_i l (pre @ s)"
  unfolding contains_i_iff by (metis append.assoc)

lemma finditer_Nil:
  assumes "\<And>pre s'. s = pre @ s' \<Longrightarrow> bt p s' = None"
  shows "finditer p s = []"
  using assms
proof (induction s)
  case Nil
  then show ?case by simp
next
  case (Cons x xs)
  have "bt p (x # xs) = None" using Cons.prems[of "[]"] by simp
  moreover have "finditer p xs = []"
  proof (rule Cons.IH)
    fix pre s' assume "xs = pre @ s'"
    then have "x # xs = (x # pre) @ s'" by simp
    then show "bt p s' = None" by (rule Cons.prems)
  qed
  ultimately show ?case by simp
qed

text \<open>A pattern does not match a text that lacks one of its literals.\<close>

lemma finditer_no_literal:
  assumes "LitI l \<in> set p" "\<not> contains_i l s"
  shows "finditer p s = []"
proof (rule finditer_Nil)
  fix pre s' assume s: "s = pre @ s'"
  show "bt p s' = None"
  proof (rule ccontr)
    assume "bt p s' \<noteq> None"
    then obtain segs where "bt p s' = Some segs" by auto
    from bt_contains_literal[OF this assms(1)] have "contains_i l s'" .
    then have "contains_i l s" unfolding s by (rule contains_i_suffix)
    with assms(2) show False by simp
  qed
qed

lemma bt_RE_CONV_newlines:
  assumes "bt RE_CONV s = Some segs"
  shows "2 \<le> count_list s NL"
proof -
  from bt_sound[OF assms] obtain rest where ok: "list_all2 seg_ok RE_CONV segs"
    and s: "s = concat segs @ rest" by blast
  from RE_CONV_shape[OF ok] obtain pre gap post where
    c: "concat segs = pre @ gap @ post" and g: "2 \<le> count_list gap NL"
    by (metis append.assoc)
  have "count_list s NL = count_list pre NL + count_list gap NL + count_list post NL + count_list rest NL"
    unfolding s c by simp
  then show ?thesis using g by simp
qed

text \<open>The convergence pattern does not match a text with fewer than two line breaks.\<close>

lemma finditer_RE_CONV_few_lines:
  assumes "count_list s NL < 2"
  shows "finditer RE_CONV s = []"
proof (rule finditer_Nil)
  fix pre s' assume s: "s = pre @ s'"
  show "bt RE_CONV s' = None"
  proof (rule ccontr)
    assume "bt RE_CONV s' \<noteq> None"
    then obtain segs where "bt RE_CONV s' = Some segs" by auto
    from bt_RE_CONV_newlines[OF this] have "2 \<le> count_list s' NL" .
    then have "2 \<le> count_list s NL" unfolding s by simp
    with assms show False by simp
  qed
qed

lemma conv_groups:
  assumes "m \<in> set (finditer RE_CONV s)"
  shows "is_time_token (group m 1)" "length (group m 1) \<le> length s" "length m = 6"
proof -
  from finditer_sound[OF assms] obtain segs where m: "m = mk_match RE_CONV segs"
    and ok: "list_all2 seg_ok RE_CONV segs" and len: "length (concat segs) \<le> length s" by blast
  from RE_CONV_shape[OF ok] obtain P x1 T sp g1 gap rest g2 g3 g4 g5 where
    mm: "mk_match RE_CONV segs = [concat segs, g1, g2, g3, g4, g5]"
    and c: "concat segs = P @ x1 @ T @ sp @ g1 @ gap @ rest" and t: "is_time_token g1"
    by blast
  have g: "group m 1 = g1" by (simp add: group_def m mm)
  show "is_time_token (group m 1)" using t g by simp
  have "length g1 \<le> length (concat segs)" unfolding c by simp
  then show "length (group m 1) \<le> length s" using len g by simp
  show "length m = 6" by (simp add: m mm)
qed

lemma warn_groups:
  assumes "m \<in> set (finditer RE_WARN s)"
  shows "is_time_token (group m 1)" "length (group m 1) \<le> length s" "length m = 5"
proof -
  from finditer_sound[OF assms] obtain segs where m: "m = mk_match RE_WARN segs"
    and ok: "list_all2 seg_ok RE_WARN segs" and len: "length (concat segs) \<le> length s" by blast
  from RE_WARN_groups[OF ok] obtain g1 g2 g3 g4 where
    mm: "mk_match RE_WARN segs = [concat segs, g1, g2, g3, g4]" and t: "is_time_token g1"
    and l: "length g1 \<le> length (concat segs)" by blast
  have g: "group m 1 = g1" by (simp add: group_def m mm)
  show "is_time_token (group m 1)" using t g by simp
  show "length (group m 1) \<le> length s" using len g l by simp
  show "length m = 5" by (simp add: m mm)
qed

lemma start_groups:
  assumes "search RE_START s = Some m"
  shows "is_time_token (group m 1)" "length (group m 1) \<le> length s"
proof -
  from search_sound[OF assms] obtain segs where m: "m = mk_match RE_START segs"
    and ok: "list_all2 seg_ok RE_START segs" and len: "length (concat segs) \<le> length s" by blast
  from RE_START_groups[OF ok] obtain g1 where
    mm: "mk_match RE_START segs = [concat segs, g1]" and t: "is_time_token g1"
    and l: "length g1 \<le> length (concat segs)" by blast
  have g: "group m 1 = g1" by (simp add: group_def m mm)
  show "is_time_token (group m 1)" using t g by simp
  show "length (group m 1) \<le> length s" using len g l by simp
qed

lemma end_groups:
  assumes "search RE_END s = Some m"
  shows "is_time_token (group m 1)" "length (group m 1) \<le> length s"
proof -
  from search_sound[OF assms] obtain segs where m: "m = mk_match RE_END segs"
    and ok: "list_all2 seg_ok RE_END segs" and len: "length (concat segs) \<le> length s" by blast
  from RE_END_groups[OF ok] obtain g1 where
    mm: "mk_match RE_END segs = [concat segs, g1]" and t: "is_time_token g1"
    and l: "length g1 \<le> length (concat segs)" by blast
  have g: "group m 1 = g1" by (simp add: group_def m mm)
  show "is_time_token (group m 1)" using t g by simp
  show "length (group m 1) \<le> length s" using len g l by simp
qed

lemma window_length: "length (first_bytes n b) \<le> length b" "length (last_bytes n b) \<le> length b"
  by (simp_all add: first_bytes_def last_bytes_def)

lemma zero_time_value: "is_time_value (Fin 0)"
  by (simp add: is_time_value_def)

lemma parse_start_value:
  assumes "parse_start b = Inr v"
  shows "is_time_value v"
proof (cases "search RE_START (first_bytes 5000 b)")
  case None
  with assms show ?thesis using zero_time_value by (auto simp: parse_start_def)
next
  case (Some m)
  with assms have "py_float (group m 1) = Some v"
    by (simp add: parse_start_def split: option.splits)
  from py_float_time_value[OF start_groups(1)[OF Some] this] show ?thesis .
qed

lemma parse_end_value:
  assumes "parse_end b = Inr v"
  shows "is_time_value v"
proof (cases "search RE_END (last_bytes 5000 b)")
  case None
  with assms show ?thesis using zero_time_value by (auto simp: parse_end_def)
next
  case (Some m)
  with assms have "py_float (group m 1) = Some v"
    by (simp add: parse_end_def split: option.splits)
  from py_float_time_value[OF end_groups(1)[OF Some] this] show ?thesis .
qed

lemma parse_start_total:
  assumes "length b \<le> MAX_DIGITS"
  shows "\<exists>v. parse_start b = Inr v"
proof (cases "search RE_START (first_bytes 5000 b)")
  case None
  then show ?thesis by (simp add: parse_start_def)
next
  case (Some m)
  have "length (group m 1) \<le> MAX_DIGITS"
    using start_groups(2)[OF Some] window_length(1)[of 5000 b] assms by linarith
  from py_float_time_token_ok[OF start_groups(1)[OF Some] this]
  show ?thesis using Some by (auto simp: parse_start_def)
qed

lemma parse_end_total:
  assumes "length b \<le> MAX_DIGITS"
  shows "\<exists>v. parse_end b = Inr v"
proof (cases "search RE_END (last_bytes 5000 b)")
  case None
  then show ?thesis by (simp add: parse_end_def)
next
  case (Some m)
  have "length (group m 1) \<le> MAX_DIGITS"
    using end_groups(2)[OF Some] window_length(2)[of 5000 b] assms by linarith
  from py_float_time_token_ok[OF end_groups(1)[OF Some] this]
  show ?thesis using Some by (auto simp: parse_end_def)
qed

lemma warn_all_ok:
  assumes "length b \<le> MAX_DIGITS"
  shows "list_all warn_ok (finditer RE_WARN b)"
  unfolding list_all_iff
proof
  fix m assume m: "m \<in> set (finditer RE_WARN b)"
  have "length (group m 1) \<le> MAX_DIGITS" using warn_groups(2)[OF m] assms by linarith
  from py_float_time_token_ok[OF warn_groups(1)[OF m] this]
  show "warn_ok m" by (auto simp: warn_ok_def)
qed

lemma conv_ok_iff:
  assumes "length b \<le> MAX_DIGITS"
  shows "list_all conv_ok (finditer RE_CONV b) = list_all values_ok (finditer RE_CONV b)"
proof -
  have "conv_ok m = values_ok m" if m: "m \<in> set (finditer RE_CONV b)" for m
  proof -
    have "length (group m 1) \<le> MAX_DIGITS" using conv_groups(2)[OF m] assms by linarith
    from py_float_time_token_ok[OF conv_groups(1)[OF m] this]
    show ?thesis by (auto simp: conv_ok_def values_ok_def)
  qed
  then show ?thesis by (simp add: list_all_iff)
qed

lemma extract_with_eq:
  "extract_with d b =
     (case parse_start b of Inl e \<Rightarrow> Inl e | Inr s0 \<Rightarrow>
      (case parse_end b of Inl e \<Rightarrow> Inl e | Inr e0 \<Rightarrow>
       if list_all conv_ok (finditer RE_CONV b) \<and> list_all warn_ok (finditer RE_WARN b)
       then Inr (result_of d b s0 e0) else Inl ValueError))"
  unfolding extract_with_def conv_loop_eq warn_loop_init result_of_def
  by (auto split: sum.splits prod.splits simp: Let_def)

lemma extract_with_Inr:
  assumes "extract_with d b = Inr r"
  obtains s0 e0 where "parse_start b = Inr s0" "parse_end b = Inr e0"
    "list_all conv_ok (finditer RE_CONV b)" "list_all warn_ok (finditer RE_WARN b)"
    "r = result_of d b s0 e0"
  using assms unfolding extract_with_eq by (auto split: sum.splits if_splits)

lemma extract_total:
  assumes "length b \<le> MAX_DIGITS"
  shows "extract_with d b =
    (if list_all values_ok (finditer RE_CONV b)
     then Inr (result_of d b (projr (parse_start b)) (projr (parse_end b)))
     else Inl ValueError)"
proof -
  from parse_start_total[OF assms] obtain s0 where s: "parse_start b = Inr s0" by blast
  from parse_end_total[OF assms] obtain e0 where e: "parse_end b = Inr e0" by blast
  show ?thesis
    unfolding extract_with_eq s e using warn_all_ok[OF assms] conv_ok_iff[OF assms] by simp
qed

lemma time_value_cases:
  assumes "is_time_value v"
  obtains q where "v = Fin q" "0 \<le> q" | "v = PosInf"
  using assms by (cases v) (auto simp: is_time_value_def)

lemma time_value_ge0: "is_time_value v \<Longrightarrow> fge v (Fin 0)"
  by (erule time_value_cases) (auto simp: fge_def)

lemma foldl_pick_in: "foldl (\<lambda>m y. if P y m then y else m) x xs \<in> set (x # xs)"
proof (induction xs arbitrary: x)
  case Nil
  then show ?case by simp
next
  case (Cons y ys)
  show ?case using Cons[of "if P y x then y else x"] by auto
qed

lemma py_min_in: "xs \<noteq> [] \<Longrightarrow> py_min xs \<in> set xs"
  using foldl_pick_in[of "flt"] by (cases xs) auto

lemma py_max_in: "xs \<noteq> [] \<Longrightarrow> py_max xs \<in> set xs"
  using foldl_pick_in[of "fgt"] by (cases xs) auto

lemma conv_entry_times:
  assumes "list_all conv_ok (finditer RE_CONV b)" "e \<in> set (map dq_entry (finditer RE_CONV b))"
  shows "is_time_value (time e)"
proof -
  from assms(2) obtain m where m: "m \<in> set (finditer RE_CONV b)" and e: "e = dq_entry m" by auto
  from assms(1) m have "conv_ok m" by (simp add: list_all_iff)
  then obtain t where t: "py_float (group m 1) = Some t" by (auto simp: conv_ok_def)
  from py_float_time_value[OF conv_groups(1)[OF m] t] show ?thesis using t by (simp add: e dq_entry_def)
qed

lemma dh_entry_time: "time (dh_entry m) = time (dq_entry m)"
  by (simp add: dh_entry_def dq_entry_def)

lemma warn_entry_times:
  assumes "list_all warn_ok (finditer RE_WARN b)" "w \<in> set (map warn_entry_of (finditer RE_WARN b))"
  shows "is_time_value (w_time w)"
proof -
  from assms(2) obtain m where m: "m \<in> set (finditer RE_WARN b)" and w: "w = warn_entry_of m" by auto
  from assms(1) m have "warn_ok m" by (simp add: list_all_iff)
  then obtain t where t: "py_float (group m 1) = Some t" by (auto simp: warn_ok_def)
  from py_float_time_value[OF warn_groups(1)[OF m] t] show ?thesis using t by (simp add: w warn_entry_of_def)
qed

lemma all_timestamps_values:
  assumes "\<And>e. e \<in> set dqs \<Longrightarrow> is_time_value (time e)" "\<And>w. w \<in> set ws \<Longrightarrow> is_time_value (w_time w)"
  shows "list_all is_time_value (all_timestamps dqs ws)"
  using assms by (auto simp: all_timestamps_def)

lemma infer_times_values:
  assumes "is_time_value s0" "is_time_value e0" "list_all is_time_value (all_timestamps dqs ws)"
  shows "is_time_value (fst (infer_times s0 e0 dqs ws))" "is_time_value (snd (infer_times s0 e0 dqs ws))"
proof -
  let ?ts = "all_timestamps dqs ws"
  have "is_time_value (py_min ?ts)" "is_time_value (py_max ?ts)" if "?ts \<noteq> []"
    using py_min_in[OF that] py_max_in[OF that] assms(3) by (auto simp: list_all_iff)
  then show "is_time_value (fst (infer_times s0 e0 dqs ws))" "is_time_value (snd (infer_times s0 e0 dqs ws))"
    using assms(1,2) by (auto simp: infer_times_def Let_def)
qed

lemma fadd_one_value:
  assumes "is_time_value s"
  shows "is_time_value (fadd s (Fin 1))"
  using assms
proof (cases rule: time_value_cases)
  case (1 q)
  then have "0 < q + 1" by simp
  then show ?thesis using round_pos_time_value[of "q + 1"] 1 by (simp add: round_double_def)
next
  case 2
  then show ?thesis by (simp add: is_time_value_def)
qed

lemma force_duration_values:
  assumes "is_time_value s" "is_time_value e"
  shows "is_time_value (fst (force_duration (s, e)))" "is_time_value (snd (force_duration (s, e)))"
  using assms fadd_one_value[OF assms(1)]
  by (auto simp: force_duration_def is_time_value_def)

lemma force_duration_start: "fst (force_duration (s, e)) = s"
  by (simp add: force_duration_def)

lemma time_value_trichotomy:
  assumes "is_time_value s" "is_time_value e" "\<not> fge s e"
  shows "flt s e"
  using assms by (auto elim!: time_value_cases simp: fge_def)

lemma force_duration_ordered:
  assumes "is_time_value s" "is_time_value e" "flt s (Fin (2 ^ 53))"
  shows "flt (fst (force_duration (s, e))) (snd (force_duration (s, e)))"
proof (cases "fge s e")
  case False
  then show ?thesis using time_value_trichotomy[OF assms(1,2)] by (simp add: force_duration_def)
next
  case True
  from assms(1,3) obtain q where q: "s = Fin q" "0 \<le> q" "q < 2 ^ 53"
    by (auto elim!: time_value_cases)
  show ?thesis
  proof (cases "q = 0")
    case True
    then show ?thesis using \<open>fge s e\<close> q by (simp add: force_duration_def)
  next
    case False
    from round_pos_succ[OF q(2,3)] obtain v where v: "round_pos (q + 1) = Fin v" "q < v" by blast
    have "0 < q + 1" using q(2) by simp
    then have "fadd s (Fin 1) = Fin v" using v(1) by (simp add: q round_double_def)
    then show ?thesis using \<open>fge s e\<close> q False v(2) by (simp add: force_duration_def)
  qed
qed

lemma result_times:
  assumes "extract_with d b = Inr r"
  shows "is_time_value (start r)" "is_time_value (end' r)"
    "\<And>e. e \<in> set (dq r) \<Longrightarrow> is_time_value (time e)"
    "\<And>e. e \<in> set (dh r) \<Longrightarrow> is_time_value (time e)"
    "\<And>w. w \<in> set (warnings r) \<Longrightarrow> is_time_value (r_time w)"
proof -
  from assms obtain s0 e0 where p: "parse_start b = Inr s0" "parse_end b = Inr e0"
    and ok: "list_all conv_ok (finditer RE_CONV b)" "list_all warn_ok (finditer RE_WARN b)"
    and r: "r = result_of d b s0 e0" by (rule extract_with_Inr)
  let ?dq = "map dq_entry (finditer RE_CONV b)" and ?w = "map warn_entry_of (finditer RE_WARN b)"
  have ts: "list_all is_time_value (all_timestamps ?dq ?w)"
    by (rule all_timestamps_values) (use conv_entry_times[OF ok(1)] warn_entry_times[OF ok(2)] in blast)+
  note iv = infer_times_values[OF parse_start_value[OF p(1)] parse_end_value[OF p(2)] ts]
  obtain s1 e1 where se: "infer_times s0 e0 ?dq ?w = (s1, e1)" by (cases "infer_times s0 e0 ?dq ?w")
  from iv have v1: "is_time_value s1" "is_time_value e1" by (simp_all add: se)
  show "is_time_value (start r)" "is_time_value (end' r)"
    using force_duration_values[OF v1] by (simp_all add: r result_of_def Let_def se)
  show "is_time_value (time e)" if "e \<in> set (dq r)" for e
    using that conv_entry_times[OF ok(1)] by (simp add: r result_of_def Let_def)
  show "is_time_value (time e)" if "e \<in> set (dh r)" for e
  proof -
    from that obtain m where m: "m \<in> set (finditer RE_CONV b)" "e = dh_entry m"
      by (auto simp: r result_of_def Let_def)
    then have "dq_entry m \<in> set ?dq" by simp
    from conv_entry_times[OF ok(1) this] show ?thesis by (simp add: m(2) dh_entry_time)
  qed
  show "is_time_value (r_time w)" if "w \<in> set (warnings r)" for w
  proof -
    from that obtain x where x: "x \<in> set ?w" "w = add_note d x"
      by (auto simp: r result_of_def Let_def)
    from warn_entry_times[OF ok(2) x(1)] show ?thesis by (simp add: x(2) add_note_def)
  qed
qed

lemma starts_with_i_Nil: "starts_with_i [] s = True"
  by (simp add: starts_with_i_def)

lemma starts_with_i_Cons_Nil: "starts_with_i (c # l) [] = False"
  by (simp add: starts_with_i_def)

lemma starts_with_i_Cons:
  "starts_with_i (c # l) (x # xs) = (if lower x = lower c then starts_with_i l xs else False)"
  by (auto simp: starts_with_i_def)

lemma lower_eq_lower_iff:
  assumes "is_lower c"
  shows "lower x = c \<longleftrightarrow> x = c \<or> (is_upper x \<and> lower x = c)"
proof (cases "is_upper x")
  case True
  have "x \<noteq> c" using True assms by (auto simp: is_upper_def is_lower_def)
  then show ?thesis using True by simp
next
  case False
  then show ?thesis by (simp add: lower_not_upper)
qed

lemma lower_eq_s: "lower x = CHR ''s'' \<longleftrightarrow> x = CHR ''s'' \<or> x = CHR ''S''"
proof -
  have "is_upper x \<and> lower x = CHR ''s'' \<longleftrightarrow> x = CHR ''S''"
    by (auto simp: is_upper_def lower_def)
  then show ?thesis using lower_eq_lower_iff[of "CHR ''s''" x] by (auto simp: is_lower_def)
qed

lemma RE_START_reject: "x \<noteq> CHR ''s'' \<Longrightarrow> x \<noteq> CHR ''S'' \<Longrightarrow> bt RE_START (x # xs) = None"
  by (simp add: RE_START_def starts_with_i_Cons lower_eq_s) (simp add: lower_def lower_eq_s)

lemma RE_START_hit:
  "x = CHR ''s'' \<or> x = CHR ''S'' \<Longrightarrow> bt RE_START (x # xs) = bt
    [LitI ''start time'', Lazy Dot, Open, Plus Digit, Opt (Chr CHR ''.''), Star Digit, Close] (x # xs)"
  by (simp only: RE_START_def)

lemma RE_START_match:
  "mk_match RE_START [s0, s1, s2, s3, s4, s5, s6] =
     [concat [s0, s1, s2, s3, s4, s5, s6], s3 @ s4 @ s5]"
  by (simp add: mk_match_def RE_START_def)

lemma lower_eq_e: "lower x = CHR ''e'' \<longleftrightarrow> x = CHR ''e'' \<or> x = CHR ''E''"
proof -
  have "is_upper x \<and> lower x = CHR ''e'' \<longleftrightarrow> x = CHR ''E''"
    by (auto simp: is_upper_def lower_def)
  then show ?thesis using lower_eq_lower_iff[of "CHR ''e''" x] by (auto simp: is_lower_def)
qed

lemma RE_END_reject: "x \<noteq> CHR ''e'' \<Longrightarrow> x \<noteq> CHR ''E'' \<Longrightarrow> bt RE_END (x # xs) = None"
  by (simp add: RE_END_def starts_with_i_Cons lower_eq_e) (simp add: lower_def lower_eq_e)

lemma RE_END_hit:
  "x = CHR ''e'' \<or> x = CHR ''E'' \<Longrightarrow> bt RE_END (x # xs) = bt
    [LitI ''end time'', Lazy Dot, Open, Plus Digit, Opt (Chr CHR ''.''), Star Digit, Close] (x # xs)"
  by (simp only: RE_END_def)

lemma RE_END_match:
  "mk_match RE_END [s0, s1, s2, s3, s4, s5, s6] =
     [concat [s0, s1, s2, s3, s4, s5, s6], s3 @ s4 @ s5]"
  by (simp add: mk_match_def RE_END_def)

lemma lower_eq_p: "lower x = CHR ''p'' \<longleftrightarrow> x = CHR ''p'' \<or> x = CHR ''P''"
proof -
  have "is_upper x \<and> lower x = CHR ''p'' \<longleftrightarrow> x = CHR ''P''"
    by (auto simp: is_upper_def lower_def)
  then show ?thesis using lower_eq_lower_iff[of "CHR ''p''" x] by (auto simp: is_lower_def)
qed

lemma RE_CONV_reject: "x \<noteq> CHR ''p'' \<Longrightarrow> x \<noteq> CHR ''P'' \<Longrightarrow> bt RE_CONV (x # xs) = None"
  by (simp add: RE_CONV_def starts_with_i_Cons lower_eq_p) (simp add: lower_def lower_eq_p)

lemma RE_CONV_hit:
  "x = CHR ''p'' \<or> x = CHR ''P'' \<Longrightarrow> bt RE_CONV (x # xs) = bt
    [LitI ''Poor model convergence'', Lazy DotAll, LitI ''time'', Plus Space,
     Open, Plus Digit, Opt (Chr CHR ''.''), Star Digit, Close,
     Lazy DotAll, LitI [NL], Lazy DotAll, LitI [NL], Lazy DotAll,
     LitI ''MAX DQ='', Star Space, Open, Plus NonSpace, Close,
     Plus Space, LitI ''at'', Plus Space, Open, Plus NonSpace, Close,
     Lazy DotAll, LitI ''MAX DH='', Star Space, Open, Plus NonSpace, Close,
     Plus Space, LitI ''at'', Plus Space, Open, Plus NonSpace, Close] (x # xs)"
  by (simp only: RE_CONV_def)

lemma RE_CONV_match:
  "mk_match RE_CONV [s0, s1, s2, s3, s4, s5, s6, s7, s8, s9, s10, s11, s12, s13, s14, s15, s16, s17, s18, s19, s20, s21, s22, s23, s24, s25, s26, s27, s28, s29, s30, s31, s32, s33, s34, s35, s36] =
     [concat [s0, s1, s2, s3, s4, s5, s6, s7, s8, s9, s10, s11, s12, s13, s14, s15, s16, s17, s18, s19, s20, s21, s22, s23, s24, s25, s26, s27, s28, s29, s30, s31, s32, s33, s34, s35, s36], s5 @ s6 @ s7, s17, s23, s29, s35]"
  by (simp add: mk_match_def RE_CONV_def)

lemma lower_eq_m: "lower x = CHR ''m'' \<longleftrightarrow> x = CHR ''m'' \<or> x = CHR ''M''"
proof -
  have "is_upper x \<and> lower x = CHR ''m'' \<longleftrightarrow> x = CHR ''M''"
    by (auto simp: is_upper_def lower_def)
  then show ?thesis using lower_eq_lower_iff[of "CHR ''m''" x] by (auto simp: is_lower_def)
qed

lemma RE_WARN_reject: "x \<noteq> CHR ''m'' \<Longrightarrow> x \<noteq> CHR ''M'' \<Longrightarrow> bt RE_WARN (x # xs) = None"
  by (simp add: RE_WARN_def starts_with_i_Cons lower_eq_m) (simp add: lower_def lower_eq_m)

lemma RE_WARN_hit:
  "x = CHR ''m'' \<or> x = CHR ''M'' \<Longrightarrow> bt RE_WARN (x # xs) = bt
    [LitI ''Model time'', Plus Space,
     Open, Plus Digit, Opt (Chr CHR ''.''), Star Digit, Close,
     Lazy DotAll, LitI [NL], Lazy DotAll, LitI ''***'', Plus Space,
     Open, Alt [''warning'', ''note'', ''error''], Close,
     Plus Space, Open, Plus Word, Close, Plus Space, LitI ''***'', Plus Space,
     LitI ''at label:'', Plus Space, Open, Plus NonSpace, Close] (x # xs)"
  by (simp only: RE_WARN_def)

lemma RE_WARN_match:
  "mk_match RE_WARN [s0, s1, s2, s3, s4, s5, s6, s7, s8, s9, s10, s11, s12, s13, s14, s15, s16, s17, s18, s19, s20, s21, s22, s23, s24, s25, s26] =
     [concat [s0, s1, s2, s3, s4, s5, s6, s7, s8, s9, s10, s11, s12, s13, s14, s15, s16, s17, s18, s19, s20, s21, s22, s23, s24, s25, s26], s3 @ s4 @ s5, s13, s17, s25]"
  by (simp add: mk_match_def RE_WARN_def)

lemma bt_empty: "bt RE_START [] = None" "bt RE_END [] = None" "bt RE_CONV [] = None" "bt RE_WARN [] = None"
  by (simp_all add: RE_START_def RE_END_def RE_CONV_def RE_WARN_def starts_with_i_Cons_Nil)

lemmas pattern_eval = RE_START_reject RE_END_reject RE_CONV_reject RE_WARN_reject
  RE_START_hit RE_END_hit RE_CONV_hit RE_WARN_hit
  RE_START_match RE_END_match RE_CONV_match RE_WARN_match bt_empty

lemmas literal_eval = starts_with_i_Nil starts_with_i_Cons_Nil starts_with_i_Cons lower_def NL_def

lemmas regex_eval = starts_with_i_Nil starts_with_i_Cons_Nil starts_with_i_Cons lower_def
  is_digit_def is_space_def is_word_def is_upper_def
  is_lower_def NL_def push_def

lemmas token_eval = is_time_token_def token_digits_def token_fraclen_def is_digit_def MAX_DIGITS_def
  digits_val_def digit_val_def round_mag_def

lemmas decode_eval = is_cont_def

lemma round_pos_10_5: "round_pos (21 / 2) = Fin (21 / 2)"
  using round_pos_exact[of 21 "-1"] by simp

lemma py_float_10_5: "py_float ''10.5'' = Some (Fin (21 / 2))"
proof -
  have tok: "is_time_token ''10.5''" by (simp add: token_eval)
  show ?thesis unfolding py_float_time_token[OF tok] by (simp add: token_eval round_pos_10_5)
qed

lemma round_pos_0_003: "round_pos (3 / 1000) = Fin (3458764513820541 / 1152921504606846976)"
  using round_pos_eval[of "3 / 1000" "-9" "-61"] rhe_eval[of 125 864691128455135232]
  by simp

lemma py_float_0_003: "py_float ''0.003'' = Some (Fin (3458764513820541 / 1152921504606846976))"
proof -
  have tok: "is_time_token ''0.003''" by (simp add: token_eval)
  show ?thesis unfolding py_float_time_token[OF tok] by (simp add: token_eval round_pos_0_003)
qed

lemma round_pos_0_012: "round_pos (3 / 250) = Fin (3458764513820541 / 288230376151711744)"
  using round_pos_eval[of "3 / 250" "-7" "-59"] rhe_eval[of 125 864691128455135232]
  by simp

lemma py_float_0_012: "py_float ''0.012'' = Some (Fin (3458764513820541 / 288230376151711744))"
proof -
  have tok: "is_time_token ''0.012''" by (simp add: token_eval)
  show ?thesis unfolding py_float_time_token[OF tok] by (simp add: token_eval round_pos_0_012)
qed

lemma round_pos_3_0: "round_pos (3) = Fin (3)"
  using round_pos_exact[of 3 "0"] by simp

lemma py_float_3_0: "py_float ''3.0'' = Some (Fin (3))"
proof -
  have tok: "is_time_token ''3.0''" by (simp add: token_eval)
  show ?thesis unfolding py_float_time_token[OF tok] by (simp add: token_eval round_pos_3_0)
qed

lemma round_pos_7_5: "round_pos (15 / 2) = Fin (15 / 2)"
  using round_pos_exact[of 15 "-1"] by simp

lemma py_float_7_5: "py_float ''7.5'' = Some (Fin (15 / 2))"
proof -
  have tok: "is_time_token ''7.5''" by (simp add: token_eval)
  show ?thesis unfolding py_float_time_token[OF tok] by (simp add: token_eval round_pos_7_5)
qed

lemma round_pos_12_0: "round_pos (12) = Fin (12)"
  using round_pos_exact[of 3 "2"] by simp

lemma py_float_12_0: "py_float ''12.0'' = Some (Fin (12))"
proof -
  have tok: "is_time_token ''12.0''" by (simp add: token_eval)
  show ?thesis unfolding py_float_time_token[OF tok] by (simp add: token_eval round_pos_12_0)
qed

lemma round_pos_5: "round_pos (5) = Fin (5)"
  using round_pos_exact[of 5 "0"] by simp

lemma py_float_5: "py_float ''5'' = Some (Fin (5))"
proof -
  have tok: "is_time_token ''5''" by (simp add: token_eval)
  show ?thesis unfolding py_float_time_token[OF tok] by (simp add: token_eval round_pos_5)
qed

lemma round_pos_20: "round_pos (20) = Fin (20)"
  using round_pos_exact[of 5 "2"] by simp

lemma py_float_20: "py_float ''20'' = Some (Fin (20))"
proof -
  have tok: "is_time_token ''20''" by (simp add: token_eval)
  show ?thesis unfolding py_float_time_token[OF tok] by (simp add: token_eval round_pos_20)
qed

lemma round_pos_693_25: "round_pos (2773 / 4) = Fin (2773 / 4)"
  using round_pos_exact[of 2773 "-2"] by simp

lemma py_float_693_25: "py_float ''693.25'' = Some (Fin (2773 / 4))"
proof -
  have tok: "is_time_token ''693.25''" by (simp add: token_eval)
  show ?thesis unfolding py_float_time_token[OF tok] by (simp add: token_eval round_pos_693_25)
qed

lemma round_pos_9007199254740992: "round_pos (9007199254740992) = Fin (9007199254740992)"
  using round_pos_exact[of 1 "53"] by simp

lemma py_float_9007199254740992: "py_float ''9007199254740992'' = Some (Fin (9007199254740992))"
proof -
  have tok: "is_time_token ''9007199254740992''" by (simp add: token_eval)
  show ?thesis unfolding py_float_time_token[OF tok] by (simp add: token_eval round_pos_9007199254740992)
qed

lemma round_pos_big_succ: "round_pos (9007199254740993) = Fin (9007199254740992)"
  using round_pos_eval[of "9007199254740993" "53" "1"] rhe_eval[of 2 9007199254740993]
  by simp

lemma round_pos_694_25: "round_pos (2777 / 4) = Fin (2777 / 4)"
  using round_pos_exact[of 2777 "-2"] by simp

lemma round_pos_11_5: "round_pos (23 / 2) = Fin (23 / 2)"
  using round_pos_exact[of 23 "-1"] by simp

lemma round_pos_6: "round_pos (6) = Fin (6)"
  using round_pos_exact[of 3 "1"] by simp

lemmas float_eval = py_float_10_5 py_float_0_003 py_float_0_012 py_float_3_0 py_float_7_5 py_float_12_0 py_float_5 py_float_20 py_float_693_25 py_float_9007199254740992
  round_pos_big_succ round_pos_694_25 round_pos_11_5 round_pos_6 round_double_def

lemma py_float_asterisks: "py_float ''******'' = None"
  by (simp add: py_float_def float_from_string_inner_def string_to_double_def split_sign_def
      parse_decimal_def is_space_def is_digit_def lower_def)

lemma log_empty_conv: "finditer RE_CONV log_empty =
     []"
  by (rule finditer_no_literal[of "''Poor model convergence''"]) (simp_all add: RE_CONV_def log_empty_def literal_eval)

lemma log_empty_warn: "finditer RE_WARN log_empty =
     []"
  by (rule finditer_no_literal[of "''Model time''"]) (simp_all add: RE_WARN_def log_empty_def literal_eval)

lemma log_empty_start: "parse_start log_empty = Inr (Fin 0)"
  by (simp add: parse_start_def first_bytes_def log_empty_def pattern_eval regex_eval group_def float_eval)

lemma log_empty_end: "parse_end log_empty = Inr (Fin 0)"
  by (simp add: parse_end_def last_bytes_def log_empty_def pattern_eval regex_eval group_def float_eval)

lemma log_empty_marker: "contains ''stopped in error'' (last_bytes 2000 log_empty) = False"
  by (simp add: last_bytes_def log_empty_def NL_def)

lemma log_empty_result: "extract_with d log_empty =
     Inr \<lparr>dq = [],
          dh = [],
          warnings = map (add_note d)
          [],
          start = Fin (0), end' = Fin (1), fail_t = None, fail_c = None\<rparr>"
  by (simp add: extract_with_def log_empty_start log_empty_end log_empty_conv log_empty_warn log_empty_marker group_def float_eval
      decode_eval Let_def upper_str_def upper_def infer_times_def all_timestamps_def force_duration_def fge_def fgt_def)

lemma log_conv_conv: "finditer RE_CONV log_conv =
     [[''Poor model convergence at time 10.5 hrs'' @ [NL] @ '' iter 4'' @ [NL] @ '' MAX DQ= 0.003 at N1  MAX DH= 0.012 at N2'', ''10.5'', ''0.003'', ''N1'', ''0.012'', ''N2'']]"
  by (simp add: log_conv_def pattern_eval regex_eval)

lemma log_conv_warn: "finditer RE_WARN log_conv =
     []"
  by (rule finditer_no_literal[of "''Model time''"]) (simp_all add: RE_WARN_def log_conv_def literal_eval)

lemma log_conv_start: "parse_start log_conv = Inr (Fin 0)"
  by (simp add: parse_start_def first_bytes_def log_conv_def pattern_eval regex_eval group_def float_eval)

lemma log_conv_end: "parse_end log_conv = Inr (Fin 0)"
  by (simp add: parse_end_def last_bytes_def log_conv_def pattern_eval regex_eval group_def float_eval)

lemma log_conv_marker: "contains ''stopped in error'' (last_bytes 2000 log_conv) = False"
  by (simp add: last_bytes_def log_conv_def NL_def)

lemma log_conv_result: "extract_with d log_conv =
     Inr \<lparr>dq = [\<lparr>time = Fin (21 / 2), val = Fin (3458764513820541 / 1152921504606846976), node = ''N1''\<rparr>],
          dh = [\<lparr>time = Fin (21 / 2), val = Fin (3458764513820541 / 288230376151711744), node = ''N2''\<rparr>],
          warnings = map (add_note d)
          [],
          start = Fin (21 / 2), end' = Fin (23 / 2), fail_t = None, fail_c = None\<rparr>"
  by (simp add: extract_with_def log_conv_start log_conv_end log_conv_conv log_conv_warn log_conv_marker group_def float_eval
      decode_eval Let_def upper_str_def upper_def infer_times_def all_timestamps_def force_duration_def fge_def fgt_def)

lemma log_conv_missing_conv: "finditer RE_CONV log_conv_missing =
     []"
  by (rule finditer_no_literal[of "''MAX DH=''"]) (simp_all add: RE_CONV_def log_conv_missing_def literal_eval)

lemma log_conv_missing_warn: "finditer RE_WARN log_conv_missing =
     []"
  by (rule finditer_no_literal[of "''Model time''"]) (simp_all add: RE_WARN_def log_conv_missing_def literal_eval)

lemma log_conv_missing_start: "parse_start log_conv_missing = Inr (Fin 0)"
  by (simp add: parse_start_def first_bytes_def log_conv_missing_def pattern_eval regex_eval group_def float_eval)

lemma log_conv_missing_end: "parse_end log_conv_missing = Inr (Fin 0)"
  by (simp add: parse_end_def last_bytes_def log_conv_missing_def pattern_eval regex_eval group_def float_eval)

lemma log_conv_missing_marker: "contains ''stopped in error'' (last_bytes 2000 log_conv_missing) = False"
  by (simp add: last_bytes_def log_conv_missing_def NL_def)

lemma log_conv_missing_result: "extract_with d log_conv_missing =
     Inr \<lparr>dq = [],
          dh = [],
          warnings = map (add_note d)
          [],
          start = Fin (0), end' = Fin (1), fail_t = None, fail_c = None\<rparr>"
  by (simp add: extract_with_def log_conv_missing_start log_conv_missing_end log_conv_missing_conv log_conv_missing_warn log_conv_missing_marker group_def float_eval
      decode_eval Let_def upper_str_def upper_def infer_times_def all_timestamps_def force_duration_def fge_def fgt_def)

lemma log_three_lines_conv: "finditer RE_CONV log_three_lines =
     [[''Poor model convergence at time 10.5 hrs'' @ [NL] @ '' a'' @ [NL] @ '' b'' @ [NL] @ '' MAX DQ= 0.003 at N1  MAX DH= 0.012 at N2'', ''10.5'', ''0.003'', ''N1'', ''0.012'', ''N2'']]"
  by (simp add: log_three_lines_def pattern_eval regex_eval)

lemma log_three_lines_warn: "finditer RE_WARN log_three_lines =
     []"
  by (rule finditer_no_literal[of "''Model time''"]) (simp_all add: RE_WARN_def log_three_lines_def literal_eval)

lemma log_three_lines_start: "parse_start log_three_lines = Inr (Fin 0)"
  by (simp add: parse_start_def first_bytes_def log_three_lines_def pattern_eval regex_eval group_def float_eval)

lemma log_three_lines_end: "parse_end log_three_lines = Inr (Fin 0)"
  by (simp add: parse_end_def last_bytes_def log_three_lines_def pattern_eval regex_eval group_def float_eval)

lemma log_three_lines_marker: "contains ''stopped in error'' (last_bytes 2000 log_three_lines) = False"
  by (simp add: last_bytes_def log_three_lines_def NL_def)

lemma log_three_lines_result: "extract_with d log_three_lines =
     Inr \<lparr>dq = [\<lparr>time = Fin (21 / 2), val = Fin (3458764513820541 / 1152921504606846976), node = ''N1''\<rparr>],
          dh = [\<lparr>time = Fin (21 / 2), val = Fin (3458764513820541 / 288230376151711744), node = ''N2''\<rparr>],
          warnings = map (add_note d)
          [],
          start = Fin (21 / 2), end' = Fin (23 / 2), fail_t = None, fail_c = None\<rparr>"
  by (simp add: extract_with_def log_three_lines_start log_three_lines_end log_three_lines_conv log_three_lines_warn log_three_lines_marker group_def float_eval
      decode_eval Let_def upper_str_def upper_def infer_times_def all_timestamps_def force_duration_def fge_def fgt_def)

lemma log_one_line_conv: "finditer RE_CONV log_one_line =
     []"
  by (rule finditer_RE_CONV_few_lines) (simp add: log_one_line_def NL_def)

lemma log_one_line_warn: "finditer RE_WARN log_one_line =
     []"
  by (rule finditer_no_literal[of "''Model time''"]) (simp_all add: RE_WARN_def log_one_line_def literal_eval)

lemma log_one_line_start: "parse_start log_one_line = Inr (Fin 0)"
  by (simp add: parse_start_def first_bytes_def log_one_line_def pattern_eval regex_eval group_def float_eval)

lemma log_one_line_end: "parse_end log_one_line = Inr (Fin 0)"
  by (simp add: parse_end_def last_bytes_def log_one_line_def pattern_eval regex_eval group_def float_eval)

lemma log_one_line_marker: "contains ''stopped in error'' (last_bytes 2000 log_one_line) = False"
  by (simp add: last_bytes_def log_one_line_def NL_def)

lemma log_one_line_result: "extract_with d log_one_line =
     Inr \<lparr>dq = [],
          dh = [],
          warnings = map (add_note d)
          [],
          start = Fin (0), end' = Fin (1), fail_t = None, fail_c = None\<rparr>"
  by (simp add: extract_with_def log_one_line_start log_one_line_end log_one_line_conv log_one_line_warn log_one_line_marker group_def float_eval
      decode_eval Let_def upper_str_def upper_def infer_times_def all_timestamps_def force_duration_def fge_def fgt_def)

lemma log_asterisks_conv: "finditer RE_CONV log_asterisks =
     [[''Poor model convergence at time 10.5 hrs'' @ [NL] @ '' iter 4'' @ [NL] @ '' MAX DQ= ****** at N1  MAX DH= 0.012 at N2'', ''10.5'', ''******'', ''N1'', ''0.012'', ''N2'']]"
  by (simp add: log_asterisks_def pattern_eval regex_eval)

lemma log_asterisks_warn: "finditer RE_WARN log_asterisks =
     []"
  by (rule finditer_no_literal[of "''Model time''"]) (simp_all add: RE_WARN_def log_asterisks_def literal_eval)

lemma log_asterisks_start: "parse_start log_asterisks = Inr (Fin 0)"
  by (simp add: parse_start_def first_bytes_def log_asterisks_def pattern_eval regex_eval group_def float_eval)

lemma log_asterisks_end: "parse_end log_asterisks = Inr (Fin 0)"
  by (simp add: parse_end_def last_bytes_def log_asterisks_def pattern_eval regex_eval group_def float_eval)

lemma log_asterisks_marker: "contains ''stopped in error'' (last_bytes 2000 log_asterisks) = False"
  by (simp add: last_bytes_def log_asterisks_def NL_def)

lemma log_asterisks_result: "extract_with d log_asterisks = Inl ValueError"
  by (simp add: extract_with_def log_asterisks_start log_asterisks_end log_asterisks_conv log_asterisks_warn group_def float_eval py_float_asterisks)

lemma log_diag3_conv: "finditer RE_CONV log_diag3 =
     []"
  by (rule finditer_no_literal[of "''Poor model convergence''"]) (simp_all add: RE_CONV_def log_diag3_def literal_eval)

lemma log_diag3_warn: "finditer RE_WARN log_diag3 =
     [[''Model time 3.0 hrs'' @ [NL] @ ''*** warning W2000 *** at label: U1'', ''3.0'', ''warning'', ''W2000'', ''U1''],
      [''Model time 7.5 hrs'' @ [NL] @ ''*** note N3002 *** at label: U2'', ''7.5'', ''note'', ''N3002'', ''U2''],
      [''Model time 12.0 hrs'' @ [NL] @ ''*** warning X9999 *** at label: U3'', ''12.0'', ''warning'', ''X9999'', ''U3'']]"
  by (simp add: log_diag3_def pattern_eval regex_eval)

lemma log_diag3_start: "parse_start log_diag3 = Inr (Fin 0)"
  by (simp add: parse_start_def first_bytes_def log_diag3_def pattern_eval regex_eval group_def float_eval)

lemma log_diag3_end: "parse_end log_diag3 = Inr (Fin 0)"
  by (simp add: parse_end_def last_bytes_def log_diag3_def pattern_eval regex_eval group_def float_eval)

lemma log_diag3_marker: "contains ''stopped in error'' (last_bytes 2000 log_diag3) = False"
  by (simp add: last_bytes_def log_diag3_def NL_def)

lemma log_diag3_result: "extract_with d log_diag3 =
     Inr \<lparr>dq = [],
          dh = [],
          warnings = map (add_note d)
          [\<lparr>w_time = Fin (3), w_type = ''WARNING'', w_code = ''W2000'', w_label = ''U1''\<rparr>,
           \<lparr>w_time = Fin (15 / 2), w_type = ''NOTE'', w_code = ''N3002'', w_label = ''U2''\<rparr>,
           \<lparr>w_time = Fin (12), w_type = ''WARNING'', w_code = ''X9999'', w_label = ''U3''\<rparr>],
          start = Fin (3), end' = Fin (12), fail_t = None, fail_c = None\<rparr>"
  by (simp add: extract_with_def log_diag3_start log_diag3_end log_diag3_conv log_diag3_warn log_diag3_marker group_def float_eval
      decode_eval Let_def upper_str_def upper_def infer_times_def all_timestamps_def force_duration_def fge_def fgt_def)

lemma log_fatal_conv: "finditer RE_CONV log_fatal =
     []"
  by (rule finditer_no_literal[of "''Poor model convergence''"]) (simp_all add: RE_CONV_def log_fatal_def literal_eval)

lemma log_fatal_warn: "finditer RE_WARN log_fatal =
     [[''Model time 5 hrs'' @ [NL] @ ''*** error E1000 *** at label: A'', ''5'', ''error'', ''E1000'', ''A''],
      [''Model time 20 hrs'' @ [NL] @ ''*** ERROR E2000 *** at label: B'', ''20'', ''ERROR'', ''E2000'', ''B'']]"
  by (simp add: log_fatal_def pattern_eval regex_eval)

lemma log_fatal_start: "parse_start log_fatal = Inr (Fin 0)"
  by (simp add: parse_start_def first_bytes_def log_fatal_def pattern_eval regex_eval group_def float_eval)

lemma log_fatal_end: "parse_end log_fatal = Inr (Fin 0)"
  by (simp add: parse_end_def last_bytes_def log_fatal_def pattern_eval regex_eval group_def float_eval)

lemma log_fatal_marker: "contains ''stopped in error'' (last_bytes 2000 log_fatal) = True"
  by (simp add: last_bytes_def log_fatal_def NL_def)

lemma log_fatal_result: "extract_with d log_fatal =
     Inr \<lparr>dq = [],
          dh = [],
          warnings = map (add_note d)
          [\<lparr>w_time = Fin (5), w_type = ''ERROR'', w_code = ''E1000'', w_label = ''A''\<rparr>,
           \<lparr>w_time = Fin (20), w_type = ''ERROR'', w_code = ''E2000'', w_label = ''B''\<rparr>],
          start = Fin (5), end' = Fin (20), fail_t = Some (Fin (20)), fail_c = Some ''E2000''\<rparr>"
  by (simp add: extract_with_def log_fatal_start log_fatal_end log_fatal_conv log_fatal_warn log_fatal_marker group_def float_eval
      decode_eval Let_def upper_str_def upper_def infer_times_def all_timestamps_def force_duration_def fge_def fgt_def)

lemma log_no_marker_conv: "finditer RE_CONV log_no_marker =
     []"
  by (rule finditer_no_literal[of "''Poor model convergence''"]) (simp_all add: RE_CONV_def log_no_marker_def literal_eval)

lemma log_no_marker_warn: "finditer RE_WARN log_no_marker =
     [[''Model time 5 hrs'' @ [NL] @ ''*** error E1000 *** at label: A'', ''5'', ''error'', ''E1000'', ''A''],
      [''Model time 20 hrs'' @ [NL] @ ''*** ERROR E2000 *** at label: B'', ''20'', ''ERROR'', ''E2000'', ''B'']]"
  by (simp add: log_no_marker_def pattern_eval regex_eval)

lemma log_no_marker_start: "parse_start log_no_marker = Inr (Fin 0)"
  by (simp add: parse_start_def first_bytes_def log_no_marker_def pattern_eval regex_eval group_def float_eval)

lemma log_no_marker_end: "parse_end log_no_marker = Inr (Fin 0)"
  by (simp add: parse_end_def last_bytes_def log_no_marker_def pattern_eval regex_eval group_def float_eval)

lemma log_no_marker_marker: "contains ''stopped in error'' (last_bytes 2000 log_no_marker) = False"
  by (simp add: last_bytes_def log_no_marker_def NL_def)

lemma log_no_marker_result: "extract_with d log_no_marker =
     Inr \<lparr>dq = [],
          dh = [],
          warnings = map (add_note d)
          [\<lparr>w_time = Fin (5), w_type = ''ERROR'', w_code = ''E1000'', w_label = ''A''\<rparr>,
           \<lparr>w_time = Fin (20), w_type = ''ERROR'', w_code = ''E2000'', w_label = ''B''\<rparr>],
          start = Fin (5), end' = Fin (20), fail_t = None, fail_c = None\<rparr>"
  by (simp add: extract_with_def log_no_marker_start log_no_marker_end log_no_marker_conv log_no_marker_warn log_no_marker_marker group_def float_eval
      decode_eval Let_def upper_str_def upper_def infer_times_def all_timestamps_def force_duration_def fge_def fgt_def)

lemma log_no_error_conv: "finditer RE_CONV log_no_error =
     []"
  by (rule finditer_no_literal[of "''Poor model convergence''"]) (simp_all add: RE_CONV_def log_no_error_def literal_eval)

lemma log_no_error_warn: "finditer RE_WARN log_no_error =
     [[''Model time 5 hrs'' @ [NL] @ ''*** warning W2000 *** at label: A'', ''5'', ''warning'', ''W2000'', ''A'']]"
  by (simp add: log_no_error_def pattern_eval regex_eval)

lemma log_no_error_start: "parse_start log_no_error = Inr (Fin 0)"
  by (simp add: parse_start_def first_bytes_def log_no_error_def pattern_eval regex_eval group_def float_eval)

lemma log_no_error_end: "parse_end log_no_error = Inr (Fin 0)"
  by (simp add: parse_end_def last_bytes_def log_no_error_def pattern_eval regex_eval group_def float_eval)

lemma log_no_error_marker: "contains ''stopped in error'' (last_bytes 2000 log_no_error) = True"
  by (simp add: last_bytes_def log_no_error_def NL_def)

lemma log_no_error_result: "extract_with d log_no_error =
     Inr \<lparr>dq = [],
          dh = [],
          warnings = map (add_note d)
          [\<lparr>w_time = Fin (5), w_type = ''WARNING'', w_code = ''W2000'', w_label = ''A''\<rparr>],
          start = Fin (5), end' = Fin (6), fail_t = None, fail_c = None\<rparr>"
  by (simp add: extract_with_def log_no_error_start log_no_error_end log_no_error_conv log_no_error_warn log_no_error_marker group_def float_eval
      decode_eval Let_def upper_str_def upper_def infer_times_def all_timestamps_def force_duration_def fge_def fgt_def)

lemma log_big_start_conv: "finditer RE_CONV log_big_start =
     []"
  by (rule finditer_no_literal[of "''Poor model convergence''"]) (simp_all add: RE_CONV_def log_big_start_def literal_eval)

lemma log_big_start_warn: "finditer RE_WARN log_big_start =
     []"
  by (rule finditer_no_literal[of "''Model time''"]) (simp_all add: RE_WARN_def log_big_start_def literal_eval)

lemma log_big_start_start: "parse_start log_big_start = Inr (Fin (9007199254740992))"
  by (simp add: parse_start_def first_bytes_def log_big_start_def pattern_eval regex_eval group_def float_eval)

lemma log_big_start_end: "parse_end log_big_start = Inr (Fin 0)"
  by (simp add: parse_end_def last_bytes_def log_big_start_def pattern_eval regex_eval group_def float_eval)

lemma log_big_start_marker: "contains ''stopped in error'' (last_bytes 2000 log_big_start) = False"
  by (simp add: last_bytes_def log_big_start_def NL_def)

lemma log_big_start_result: "extract_with d log_big_start =
     Inr \<lparr>dq = [],
          dh = [],
          warnings = map (add_note d)
          [],
          start = Fin (9007199254740992), end' = Fin (9007199254740992), fail_t = None, fail_c = None\<rparr>"
  by (simp add: extract_with_def log_big_start_start log_big_start_end log_big_start_conv log_big_start_warn log_big_start_marker group_def float_eval
      decode_eval Let_def upper_str_def upper_def infer_times_def all_timestamps_def force_duration_def fge_def fgt_def)

lemma log_single_conv: "finditer RE_CONV log_single =
     []"
  by (rule finditer_no_literal[of "''Poor model convergence''"]) (simp_all add: RE_CONV_def log_single_def literal_eval)

lemma log_single_warn: "finditer RE_WARN log_single =
     [[''Model time 693.25 hrs'' @ [NL] @ ''*** warning W2000 *** at label: U1'', ''693.25'', ''warning'', ''W2000'', ''U1'']]"
  by (simp add: log_single_def pattern_eval regex_eval)

lemma log_single_start: "parse_start log_single = Inr (Fin 0)"
  by (simp add: parse_start_def first_bytes_def log_single_def pattern_eval regex_eval group_def float_eval)

lemma log_single_end: "parse_end log_single = Inr (Fin 0)"
  by (simp add: parse_end_def last_bytes_def log_single_def pattern_eval regex_eval group_def float_eval)

lemma log_single_marker: "contains ''stopped in error'' (last_bytes 2000 log_single) = False"
  by (simp add: last_bytes_def log_single_def NL_def)

lemma log_single_result: "extract_with d log_single =
     Inr \<lparr>dq = [],
          dh = [],
          warnings = map (add_note d)
          [\<lparr>w_time = Fin (2773 / 4), w_type = ''WARNING'', w_code = ''W2000'', w_label = ''U1''\<rparr>],
          start = Fin (2773 / 4), end' = Fin (2777 / 4), fail_t = None, fail_c = None\<rparr>"
  by (simp add: extract_with_def log_single_start log_single_end log_single_conv log_single_warn log_single_marker group_def float_eval
      decode_eval Let_def upper_str_def upper_def infer_times_def all_timestamps_def force_duration_def fge_def fgt_def)

section \<open>The descriptions table\<close>

lemma table_values_nonempty: "list_all (\<lambda>(k, v). v \<noteq> []) WARNING_DESCRIPTIONS_items"
  by (simp add: WARNING_DESCRIPTIONS_items_def)

lemma descriptions_nonempty:
  assumes "WARNING_DESCRIPTIONS k = Some v"
  shows "v \<noteq> []"
proof -
  from assms have "(k, v) \<in> set (rev WARNING_DESCRIPTIONS_items)"
    unfolding WARNING_DESCRIPTIONS_def by (rule map_of_SomeD)
  then have "(k, v) \<in> set WARNING_DESCRIPTIONS_items" by simp
  with table_values_nonempty show ?thesis by (auto simp: list_all_iff)
qed

lemma map_of_rev_absent:
  assumes "list_all (\<lambda>(k', v'). k' \<noteq> k) xs"
  shows "map_of (rev xs) k = None"
proof -
  have "k \<notin> fst ` set (rev xs)" using assms by (auto simp: list_all_iff)
  then show ?thesis by (simp add: map_of_eq_None_iff)
qed

lemma map_of_rev_present:
  assumes "list_all (\<lambda>(k', v'). k' = k \<longrightarrow> v' = v) xs" "list_ex (\<lambda>(k', v'). k' = k) xs"
  shows "map_of (rev xs) k = Some v"
proof -
  from assms(2) obtain v0 where "(k, v0) \<in> set (rev xs)" by (auto simp: list_ex_iff)
  from weak_map_of_SomeI[OF this] obtain v' where v': "map_of (rev xs) k = Some v'" by blast
  from map_of_SomeD[OF v'] have "(k, v') \<in> set xs" by simp
  with assms(1) have "v' = v" by (auto simp: list_all_iff)
  with v' show ?thesis by simp
qed

lemma description_W2000: "WARNING_DESCRIPTIONS ''W2000'' = Some ''Poor model convergence''"
  unfolding WARNING_DESCRIPTIONS_def
  by (rule map_of_rev_present) (simp_all add: WARNING_DESCRIPTIONS_items_def)

lemma description_N3002:
  "WARNING_DESCRIPTIONS ''N3002'' = Some ''Very small change in heads results in large change in flow''"
  unfolding WARNING_DESCRIPTIONS_def
  by (rule map_of_rev_present) (simp_all add: WARNING_DESCRIPTIONS_items_def)

lemma description_X9999: "WARNING_DESCRIPTIONS ''X9999'' = None"
  unfolding WARNING_DESCRIPTIONS_def
  by (rule map_of_rev_absent) (simp add: WARNING_DESCRIPTIONS_items_def)

section \<open>The least and greatest of the candidate times\<close>

lemma time_value_le_trans:
  assumes "is_time_value a" "is_time_value b" "is_time_value c" "\<not> flt b a" "\<not> flt c b"
  shows "\<not> flt c a"
  using assms by (auto elim!: time_value_cases)

lemma foldl_min_least:
  assumes "list_all is_time_value (x # xs)"
  shows "\<forall>t\<in>set (x # xs). \<not> flt t (foldl (\<lambda>m y. if flt y m then y else m) x xs)"
  using assms
proof (induction xs arbitrary: x)
  case Nil
  then show ?case by (auto elim!: time_value_cases)
next
  case (Cons y ys)
  define m where "m = (if flt y x then y else x)"
  define r where "r = foldl (\<lambda>m y. if flt y m then y else m) m ys"
  have tv: "is_time_value x" "is_time_value y" "list_all is_time_value ys" using Cons.prems by simp_all
  have mv: "is_time_value m" using tv by (simp add: m_def)
  have "list_all is_time_value (m # ys)" using mv tv by simp
  from Cons.IH[OF this] have ih: "\<forall>t\<in>set (m # ys). \<not> flt t r" by (simp add: r_def)
  have "r \<in> set (m # ys)" unfolding r_def by (rule foldl_pick_in)
  then have rv: "is_time_value r" using mv tv(3) by (auto simp: list_all_iff)
  have mx: "\<not> flt x m" "\<not> flt y m" using tv(1,2) by (auto simp: m_def elim!: time_value_cases)
  have rm: "\<not> flt m r" using ih by simp
  have "\<not> flt x r" by (rule time_value_le_trans[OF rv mv tv(1) rm mx(1)])
  moreover have "\<not> flt y r" by (rule time_value_le_trans[OF rv mv tv(2) rm mx(2)])
  ultimately show ?case using ih by (simp add: r_def m_def)
qed

lemma foldl_max_greatest:
  assumes "list_all is_time_value (x # xs)"
  shows "\<forall>t\<in>set (x # xs). \<not> flt (foldl (\<lambda>m y. if fgt y m then y else m) x xs) t"
  using assms
proof (induction xs arbitrary: x)
  case Nil
  then show ?case by (auto elim!: time_value_cases)
next
  case (Cons y ys)
  define m where "m = (if fgt y x then y else x)"
  define r where "r = foldl (\<lambda>m y. if fgt y m then y else m) m ys"
  have tv: "is_time_value x" "is_time_value y" "list_all is_time_value ys" using Cons.prems by simp_all
  have mv: "is_time_value m" using tv by (simp add: m_def)
  have "list_all is_time_value (m # ys)" using mv tv by simp
  from Cons.IH[OF this] have ih: "\<forall>t\<in>set (m # ys). \<not> flt r t" by (simp add: r_def)
  have "r \<in> set (m # ys)" unfolding r_def by (rule foldl_pick_in)
  then have rv: "is_time_value r" using mv tv(3) by (auto simp: list_all_iff)
  have mx: "\<not> flt m x" "\<not> flt m y" using tv(1,2) by (auto simp: m_def fgt_def elim!: time_value_cases)
  have rm: "\<not> flt r m" using ih by simp
  have "\<not> flt r x" by (rule time_value_le_trans[OF tv(1) mv rv mx(1) rm])
  moreover have "\<not> flt r y" by (rule time_value_le_trans[OF tv(2) mv rv mx(2) rm])
  ultimately show ?case using ih by (simp add: r_def m_def)
qed

lemma py_min_least:
  assumes "list_all is_time_value ts" "t \<in> set ts"
  shows "\<not> flt t (py_min ts)"
  using assms foldl_min_least by (cases ts) auto

lemma py_max_greatest:
  assumes "list_all is_time_value ts" "t \<in> set ts"
  shows "\<not> flt (py_max ts) t"
  using assms foldl_max_greatest by (cases ts) auto

section \<open>The result in terms of the returned rows\<close>

lemma add_note_fields [simp]:
  "r_time (add_note d w) = w_time w" "r_type (add_note d w) = w_type w"
  "r_code (add_note d w) = w_code w" "r_label (add_note d w) = w_label w"
  by (simp_all add: add_note_def)

lemma pool_of_result:
  "pool_of (result_of d b s0 e0) =
     all_timestamps (map dq_entry (finditer RE_CONV b)) (map warn_entry_of (finditer RE_WARN b))"
  by (simp add: pool_of_def result_of_def Let_def all_timestamps_def hd_map last_map)

lemma result_bounds:
  "(start (result_of d b s0 e0), end' (result_of d b s0 e0)) =
     force_duration (infer_times s0 e0 (map dq_entry (finditer RE_CONV b))
       (map warn_entry_of (finditer RE_WARN b)))"
  by (simp add: result_of_def Let_def)

lemma description_E1000: "WARNING_DESCRIPTIONS ''E1000'' = None"
  unfolding WARNING_DESCRIPTIONS_def
  by (rule map_of_rev_absent) (simp add: WARNING_DESCRIPTIONS_items_def)

lemma description_E2000: "WARNING_DESCRIPTIONS ''E2000'' = None"
  unfolding WARNING_DESCRIPTIONS_def
  by (rule map_of_rev_absent) (simp add: WARNING_DESCRIPTIONS_items_def)

lemmas description_eval = description_W2000 description_N3002 description_X9999
  description_E1000 description_E2000

lemma round_pos_9: "round_pos 9 = Fin 9"
  using round_pos_exact[of 9 "0"] by simp

lemma py_float_9: "py_float ''9'' = Some (Fin 9)"
proof -
  have tok: "is_time_token ''9''" by (simp add: token_eval)
  show ?thesis unfolding py_float_time_token[OF tok] by (simp add: token_eval round_pos_9)
qed

lemma log_empty_extract: "extract_zzd_data log_empty =
     Inr \<lparr>dq = [],
          dh = [],
          warnings =
          [],
          start = Fin 0, end' = Fin 1, fail_t = None, fail_c = None\<rparr>"
  by (simp add: extract_zzd_data_def log_empty_result add_note_def description_eval)

lemma log_conv_extract: "extract_zzd_data log_conv =
     Inr \<lparr>dq = [\<lparr>time = Fin (21 / 2), val = Fin (3458764513820541 / 1152921504606846976),
               node = ''N1''\<rparr>],
          dh = [\<lparr>time = Fin (21 / 2), val = Fin (3458764513820541 / 288230376151711744),
               node = ''N2''\<rparr>],
          warnings =
          [],
          start = Fin (21 / 2), end' = Fin (23 / 2), fail_t = None, fail_c = None\<rparr>"
  by (simp add: extract_zzd_data_def log_conv_result add_note_def description_eval)

lemma log_conv_missing_extract: "extract_zzd_data log_conv_missing =
     Inr \<lparr>dq = [],
          dh = [],
          warnings =
          [],
          start = Fin 0, end' = Fin 1, fail_t = None, fail_c = None\<rparr>"
  by (simp add: extract_zzd_data_def log_conv_missing_result add_note_def description_eval)

lemma log_three_lines_extract: "extract_zzd_data log_three_lines =
     Inr \<lparr>dq = [\<lparr>time = Fin (21 / 2), val = Fin (3458764513820541 / 1152921504606846976),
               node = ''N1''\<rparr>],
          dh = [\<lparr>time = Fin (21 / 2), val = Fin (3458764513820541 / 288230376151711744),
               node = ''N2''\<rparr>],
          warnings =
          [],
          start = Fin (21 / 2), end' = Fin (23 / 2), fail_t = None, fail_c = None\<rparr>"
  by (simp add: extract_zzd_data_def log_three_lines_result add_note_def description_eval)

lemma log_one_line_extract: "extract_zzd_data log_one_line =
     Inr \<lparr>dq = [],
          dh = [],
          warnings =
          [],
          start = Fin 0, end' = Fin 1, fail_t = None, fail_c = None\<rparr>"
  by (simp add: extract_zzd_data_def log_one_line_result add_note_def description_eval)

lemma log_diag3_extract: "extract_zzd_data log_diag3 =
     Inr \<lparr>dq = [],
          dh = [],
          warnings =
          [\<lparr>r_time = Fin 3, r_type = ''WARNING'', r_code = ''W2000'', r_label = ''U1'',
            r_note = ''Poor model convergence''\<rparr>,
          \<lparr>r_time = Fin (15 / 2), r_type = ''NOTE'', r_code = ''N3002'', r_label = ''U2'',
            r_note = ''Very small change in heads results in large change in flow''\<rparr>,
          \<lparr>r_time = Fin 12, r_type = ''WARNING'', r_code = ''X9999'', r_label = ''U3'',
            r_note = ''Unknown Warning''\<rparr>],
          start = Fin 3, end' = Fin 12, fail_t = None, fail_c = None\<rparr>"
  by (simp add: extract_zzd_data_def log_diag3_result add_note_def description_eval)

lemma log_fatal_extract: "extract_zzd_data log_fatal =
     Inr \<lparr>dq = [],
          dh = [],
          warnings =
          [\<lparr>r_time = Fin 5, r_type = ''ERROR'', r_code = ''E1000'', r_label = ''A'',
            r_note = ''Unknown Warning''\<rparr>,
          \<lparr>r_time = Fin 20, r_type = ''ERROR'', r_code = ''E2000'', r_label = ''B'',
            r_note = ''Unknown Warning''\<rparr>],
          start = Fin 5, end' = Fin 20, fail_t = Some (Fin 20), fail_c = Some ''E2000''\<rparr>"
  by (simp add: extract_zzd_data_def log_fatal_result add_note_def description_eval)

lemma log_no_marker_extract: "extract_zzd_data log_no_marker =
     Inr \<lparr>dq = [],
          dh = [],
          warnings =
          [\<lparr>r_time = Fin 5, r_type = ''ERROR'', r_code = ''E1000'', r_label = ''A'',
            r_note = ''Unknown Warning''\<rparr>,
          \<lparr>r_time = Fin 20, r_type = ''ERROR'', r_code = ''E2000'', r_label = ''B'',
            r_note = ''Unknown Warning''\<rparr>],
          start = Fin 5, end' = Fin 20, fail_t = None, fail_c = None\<rparr>"
  by (simp add: extract_zzd_data_def log_no_marker_result add_note_def description_eval)

lemma log_no_error_extract: "extract_zzd_data log_no_error =
     Inr \<lparr>dq = [],
          dh = [],
          warnings =
          [\<lparr>r_time = Fin 5, r_type = ''WARNING'', r_code = ''W2000'', r_label = ''A'',
            r_note = ''Poor model convergence''\<rparr>],
          start = Fin 5, end' = Fin 6, fail_t = None, fail_c = None\<rparr>"
  by (simp add: extract_zzd_data_def log_no_error_result add_note_def description_eval)

lemma log_big_start_extract: "extract_zzd_data log_big_start =
     Inr \<lparr>dq = [],
          dh = [],
          warnings =
          [],
          start = Fin 9007199254740992, end' = Fin 9007199254740992, fail_t = None, fail_c = None\<rparr>"
  by (simp add: extract_zzd_data_def log_big_start_result add_note_def description_eval)

lemma log_single_extract: "extract_zzd_data log_single =
     Inr \<lparr>dq = [],
          dh = [],
          warnings =
          [\<lparr>r_time = Fin (2773 / 4), r_type = ''WARNING'', r_code = ''W2000'', r_label = ''U1'',
            r_note = ''Poor model convergence''\<rparr>],
          start = Fin (2773 / 4), end' = Fin (2777 / 4), fail_t = None, fail_c = None\<rparr>"
  by (simp add: extract_zzd_data_def log_single_result add_note_def description_eval)

text \<open>The two-block example.\<close>

lemma round_pos_1: "round_pos (1) = Fin (1)"
  using round_pos_exact[of 1 "0"] by simp

lemma py_float_1: "py_float ''1'' = Some (Fin (1))"
proof -
  have tok: "is_time_token ''1''" by (simp add: token_eval)
  show ?thesis unfolding py_float_time_token[OF tok] by (simp add: token_eval round_pos_1)
qed

lemma round_pos_0_5: "round_pos (1 / 2) = Fin (1 / 2)"
  using round_pos_exact[of 1 "-1"] by simp

lemma py_float_0_5: "py_float ''0.5'' = Some (Fin (1 / 2))"
proof -
  have tok: "is_time_token ''0.5''" by (simp add: token_eval)
  show ?thesis unfolding py_float_time_token[OF tok] by (simp add: token_eval round_pos_0_5)
qed

lemma round_pos_0_75: "round_pos (3 / 4) = Fin (3 / 4)"
  using round_pos_exact[of 3 "-2"] by simp

lemma py_float_0_75: "py_float ''0.75'' = Some (Fin (3 / 4))"
proof -
  have tok: "is_time_token ''0.75''" by (simp add: token_eval)
  show ?thesis unfolding py_float_time_token[OF tok] by (simp add: token_eval round_pos_0_75)
qed

lemma round_pos_2: "round_pos (2) = Fin (2)"
  using round_pos_exact[of 1 "1"] by simp

lemma log_two_blocks_conv: "finditer RE_CONV log_two_blocks =
     [[''Poor model convergence at time 1 hrs'' @ [NL] @ '' iter 4'' @ [NL] @ '' MAX DQ= 0.5 at A1'' @ [NL] @ ''Poor model convergence at time 2 hrs'' @ [NL] @ '' iter 4'' @ [NL] @ '' MAX DQ= 0.25 at B1  MAX DH= 0.75 at B2'', ''1'', ''0.5'', ''A1'', ''0.75'', ''B2'']]"
  by (simp add: log_two_blocks_def pattern_eval regex_eval)

lemma log_two_blocks_warn: "finditer RE_WARN log_two_blocks = []"
  by (rule finditer_no_literal[of "''***''"]) (simp_all add: RE_WARN_def log_two_blocks_def literal_eval)

lemma log_two_blocks_start: "parse_start log_two_blocks = Inr (Fin 0)"
  by (simp add: parse_start_def first_bytes_def log_two_blocks_def pattern_eval regex_eval group_def float_eval)

lemma log_two_blocks_end: "parse_end log_two_blocks = Inr (Fin 0)"
  by (simp add: parse_end_def last_bytes_def log_two_blocks_def pattern_eval regex_eval group_def float_eval)

lemma log_two_blocks_marker: "contains ''stopped in error'' (last_bytes 2000 log_two_blocks) = False"
  by (simp add: last_bytes_def log_two_blocks_def NL_def)

lemma log_two_blocks_result: "extract_with d log_two_blocks =
     Inr \<lparr>dq = [\<lparr>time = Fin 1, val = Fin (1 / 2), node = ''A1''\<rparr>],
          dh = [\<lparr>time = Fin 1, val = Fin (3 / 4), node = ''B2''\<rparr>],
          warnings = [],
          start = Fin 1, end' = Fin 2, fail_t = None, fail_c = None\<rparr>"
  by (simp add: extract_with_def log_two_blocks_start log_two_blocks_end log_two_blocks_conv log_two_blocks_warn log_two_blocks_marker group_def py_float_1 py_float_0_5 py_float_0_75 round_pos_2 round_double_def
      decode_eval Let_def upper_str_def upper_def infer_times_def all_timestamps_def force_duration_def fge_def fgt_def)

lemma log_two_blocks_extract: "extract_zzd_data log_two_blocks =
     Inr \<lparr>dq = [\<lparr>time = Fin 1, val = Fin (1 / 2), node = ''A1''\<rparr>],
          dh = [\<lparr>time = Fin 1, val = Fin (3 / 4), node = ''B2''\<rparr>],
          warnings = [],
          start = Fin 1, end' = Fin 2, fail_t = None, fail_c = None\<rparr>"
  by (simp add: extract_zzd_data_def log_two_blocks_result)

section \<open>Claims\<close>

lemma extract_Inr:
  assumes "extract_zzd_data b = Inr r"
  obtains s0 e0 where "parse_start b = Inr s0" "parse_end b = Inr e0"
    "list_all conv_ok (finditer RE_CONV b)" "list_all warn_ok (finditer RE_WARN b)"
    "r = result_of WARNING_DESCRIPTIONS b s0 e0"
  using assms unfolding extract_zzd_data_def by (rule extract_with_Inr)

lemma conv_time_tokens_convert:
  assumes "length b \<le> MAX_DIGITS" "m \<in> set (finditer RE_CONV b)"
  shows "py_float (group m 1) \<noteq> None"
proof -
  have "length (group m 1) \<le> MAX_DIGITS" using conv_groups(2)[OF assms(2)] assms(1) by linarith
  from py_float_time_token_ok[OF conv_groups(1)[OF assms(2)] this] show ?thesis by auto
qed

text \<open>
  A numeral of more than \<open>MAX_DIGITS\<close> digits is rejected by \<open>float()\<close>; the buffers
  considered below are shorter.
\<close>

lemma py_float_too_long: "py_float (replicate (Suc MAX_DIGITS) CHR ''1'') = None"
proof -
  let ?t = "replicate (Suc MAX_DIGITS) CHR ''1''"
  have d: "list_all is_digit ?t" by (simp add: list_all_iff is_digit_def)
  have "is_time_token (?t @ [] @ [])" by (rule time_tokenI) (use d in simp_all)
  then have tok: "is_time_token ?t" by simp
  have td: "token_digits ?t = ?t" using d by (simp add: token_digits_def list_all_iff is_digit_def)
  have dz: "dropWhile (\<lambda>c. c = CHR ''0'') ?t = ?t" by simp
  show ?thesis unfolding py_float_time_token[OF tok] td dz by simp
qed

text \<open>
  C1 (amended): for a buffer of at most \<open>MAX_DIGITS\<close> bytes the conversions of the time
  tokens never fail (the start and end markers, every convergence time, every diagnostic
  time), and extraction returns a result exactly when every DQ and DH value token of a
  matched convergence block is accepted by \<open>float()\<close>; otherwise it raises \<open>ValueError\<close>.
\<close>

theorem extract_raises_only_on_bad_values:
  assumes "length b \<le> MAX_DIGITS"
  shows "(\<exists>s. parse_start b = Inr s) \<and> (\<exists>e. parse_end b = Inr e)
    \<and> (\<forall>m\<in>set (finditer RE_CONV b). py_float (group m 1) \<noteq> None)
    \<and> (\<forall>m\<in>set (finditer RE_WARN b). py_float (group m 1) \<noteq> None)
    \<and> (list_all values_ok (finditer RE_CONV b) \<longrightarrow> (\<exists>r. extract_zzd_data b = Inr r))
    \<and> (\<not> list_all values_ok (finditer RE_CONV b) \<longrightarrow> extract_zzd_data b = Inl ValueError)"
proof -
  have w: "\<forall>m\<in>set (finditer RE_WARN b). py_float (group m 1) \<noteq> None"
    using warn_all_ok[OF assms] by (simp add: list_all_iff warn_ok_def)
  have c: "\<forall>m\<in>set (finditer RE_CONV b). py_float (group m 1) \<noteq> None"
    using conv_time_tokens_convert[OF assms] by blast
  show ?thesis
    using parse_start_total[OF assms] parse_end_total[OF assms] w c
      extract_total[OF assms, of WARNING_DESCRIPTIONS]
    by (simp add: extract_zzd_data_def)
qed

theorem extract_raises_only_on_bad_values_witness:
  "length log_conv \<le> MAX_DIGITS \<and> list_all values_ok (finditer RE_CONV log_conv)
   \<and> (\<exists>r. extract_zzd_data log_conv = Inr r)"
proof -
  have l: "length log_conv \<le> MAX_DIGITS" by (simp add: log_conv_def MAX_DIGITS_def)
  have v: "list_all values_ok (finditer RE_CONV log_conv)"
    by (simp add: log_conv_conv values_ok_def group_def float_eval)
  from extract_raises_only_on_bad_values[OF l] v show ?thesis using l by blast
qed

text \<open>
  C1 as stated fails: the value groups of \<open>RE_CONV\<close> are \<open>\S+\<close>, so a block whose DQ
  field is printed as asterisks is matched, and \<open>float()\<close> raises on that token.
\<close>

theorem extract_raises_on_asterisks:
  "extract_zzd_data log_asterisks = Inl ValueError
   \<and> map (\<lambda>m. group m 2) (finditer RE_CONV log_asterisks) = [''******'']
   \<and> py_float ''******'' = None"
  by (simp add: extract_zzd_data_def log_asterisks_result log_asterisks_conv group_def
      py_float_asterisks)

text \<open>
  C2: the code forces an ordered time window by setting \<open>end = start + 1.0\<close>, but from
  \<open>2^53\<close> on the float addition returns \<open>start\<close> itself.  For the buffer
  \<^verbatim>\<open>start time 9007199254740992\<close> the returned bounds are equal.
\<close>

theorem bounds_collapse_at_2_53:
  "extract_zzd_data log_big_start =
     Inr \<lparr>dq = [], dh = [], warnings = [],
          start = Fin 9007199254740992, end' = Fin 9007199254740992,
          fail_t = None, fail_c = None\<rparr>
   \<and> \<not> flt (Fin 9007199254740992) (Fin 9007199254740992)"
  by (simp add: log_big_start_extract)

text \<open>Below \<open>2^53\<close> the window is ordered, as the code intends.\<close>

lemma bounds_ordered_below_2_53:
  assumes "extract_zzd_data b = Inr r" "flt (start r) (Fin (2 ^ 53))"
  shows "flt (start r) (end' r)"
proof -
  from assms(1) obtain s0 e0 where p: "parse_start b = Inr s0" "parse_end b = Inr e0"
    and ok: "list_all conv_ok (finditer RE_CONV b)" "list_all warn_ok (finditer RE_WARN b)"
    and r: "r = result_of WARNING_DESCRIPTIONS b s0 e0" by (rule extract_Inr)
  let ?dq = "map dq_entry (finditer RE_CONV b)" and ?w = "map warn_entry_of (finditer RE_WARN b)"
  have ts: "list_all is_time_value (all_timestamps ?dq ?w)"
    by (rule all_timestamps_values) (use conv_entry_times[OF ok(1)] warn_entry_times[OF ok(2)] in blast)+
  note iv = infer_times_values[OF parse_start_value[OF p(1)] parse_end_value[OF p(2)] ts]
  obtain s1 e1 where se: "infer_times s0 e0 ?dq ?w = (s1, e1)" by (cases "infer_times s0 e0 ?dq ?w")
  from iv have v1: "is_time_value s1" "is_time_value e1" by (simp_all add: se)
  have b: "(start r, end' r) = force_duration (s1, e1)" unfolding r result_bounds se ..
  then have "start r = s1" using force_duration_start[of s1 e1] by (metis fst_conv)
  with assms(2) have "flt s1 (Fin (2 ^ 53))" by simp
  from force_duration_ordered[OF v1 this] show ?thesis using b by (metis fst_conv snd_conv)
qed

text \<open>
  C3: the fatal status is the time and code of the last ERROR row when the marker
  \<open>stopped in error\<close> is in the last 2000 bytes and an ERROR row exists; otherwise both
  fields are \<open>None\<close>.
\<close>

theorem fatal_status:
  assumes "extract_zzd_data b = Inr r"
  shows "(fail_t r, fail_c r) =
     (let errs = filter (\<lambda>w. r_type w = ''ERROR'') (warnings r)
      in if contains ''stopped in error'' (last_bytes 2000 b) \<and> errs \<noteq> []
         then (Some (r_time (last errs)), Some (r_code (last errs)))
         else (None, None))"
proof -
  from assms obtain s0 e0 where r: "r = result_of WARNING_DESCRIPTIONS b s0 e0" by (rule extract_Inr)
  let ?ws = "map warn_entry_of (finditer RE_WARN b)"
  let ?errs = "filter (\<lambda>w. w_type w = ''ERROR'') ?ws"
  have f: "filter (\<lambda>w. r_type w = ''ERROR'') (warnings r) = map (add_note WARNING_DESCRIPTIONS) ?errs"
    by (simp add: r result_of_def Let_def filter_map comp_def)
  have l: "?errs \<noteq> [] \<Longrightarrow> last (map (add_note WARNING_DESCRIPTIONS) ?errs) = add_note WARNING_DESCRIPTIONS (last ?errs)"
    by (rule last_map)
  show ?thesis
    unfolding f using l
    by (auto simp: r result_of_def Let_def last_error_def)
qed

theorem fatal_status_witness:
  "(\<exists>r. extract_zzd_data log_fatal = Inr r
        \<and> contains ''stopped in error'' (last_bytes 2000 log_fatal)
        \<and> map r_code (filter (\<lambda>w. r_type w = ''ERROR'') (warnings r)) = [''E1000'', ''E2000'']
        \<and> fail_t r = Some (Fin 20) \<and> fail_c r = Some ''E2000'')
   \<and> (\<exists>r. extract_zzd_data log_no_marker = Inr r
        \<and> \<not> contains ''stopped in error'' (last_bytes 2000 log_no_marker)
        \<and> fail_t r = None \<and> fail_c r = None)
   \<and> (\<exists>r. extract_zzd_data log_no_error = Inr r
        \<and> contains ''stopped in error'' (last_bytes 2000 log_no_error)
        \<and> filter (\<lambda>w. r_type w = ''ERROR'') (warnings r) = []
        \<and> fail_t r = None \<and> fail_c r = None)"
proof -
  have 1: "\<exists>r. extract_zzd_data log_fatal = Inr r
        \<and> contains ''stopped in error'' (last_bytes 2000 log_fatal)
        \<and> map r_code (filter (\<lambda>w. r_type w = ''ERROR'') (warnings r)) = [''E1000'', ''E2000'']
        \<and> fail_t r = Some (Fin 20) \<and> fail_c r = Some ''E2000''"
    using fatal_status[OF log_fatal_extract] log_fatal_extract
    by (simp add: log_fatal_marker)
  have 2: "\<exists>r. extract_zzd_data log_no_marker = Inr r
        \<and> \<not> contains ''stopped in error'' (last_bytes 2000 log_no_marker)
        \<and> fail_t r = None \<and> fail_c r = None"
    using fatal_status[OF log_no_marker_extract] log_no_marker_extract
    by (simp add: log_no_marker_marker)
  have 3: "\<exists>r. extract_zzd_data log_no_error = Inr r
        \<and> contains ''stopped in error'' (last_bytes 2000 log_no_error)
        \<and> filter (\<lambda>w. r_type w = ''ERROR'') (warnings r) = []
        \<and> fail_t r = None \<and> fail_c r = None"
    using fatal_status[OF log_no_error_extract] log_no_error_extract
    by (simp add: log_no_error_marker)
  from 1 2 3 show ?thesis by blast
qed

lemma pool_values:
  assumes "extract_zzd_data b = Inr r"
  shows "list_all is_time_value (pool_of r)"
proof -
  note t = result_times[OF assms[unfolded extract_zzd_data_def]]
  have "is_time_value (time (hd (dq r)))" "is_time_value (time (last (dq r)))" if "dq r \<noteq> []"
    using that t(3) by simp_all
  moreover have "is_time_value (r_time (hd (warnings r)))" "is_time_value (r_time (last (warnings r)))"
    if "warnings r \<noteq> []"
    using that t(5) by simp_all
  ultimately show ?thesis by (simp add: pool_of_def)
qed

text \<open>
  C4: when the parsed start or the parsed end is 0.0 and the pool (the first and last
  convergence times and the first and last diagnostic times) is not empty, a 0.0 start
  becomes the minimum of the pool and a 0.0 end its maximum, before the window is forced
  to be ordered; the minimum and maximum are members of the pool that no member is below
  or above.
\<close>

theorem inferred_bounds:
  assumes "extract_zzd_data b = Inr r" "parse_start b = Inr s0" "parse_end b = Inr e0"
    and "feq s0 (Fin 0) \<or> feq e0 (Fin 0)" "pool_of r \<noteq> []"
  shows "start r = (if feq s0 (Fin 0) then py_min (pool_of r) else s0)
    \<and> end' r = snd (force_duration (start r, if feq e0 (Fin 0) then py_max (pool_of r) else e0))
    \<and> py_min (pool_of r) \<in> set (pool_of r) \<and> py_max (pool_of r) \<in> set (pool_of r)
    \<and> (\<forall>t\<in>set (pool_of r). \<not> flt t (py_min (pool_of r)) \<and> \<not> flt (py_max (pool_of r)) t)"
proof -
  from assms(1) obtain s0' e0' where p: "parse_start b = Inr s0'" "parse_end b = Inr e0'"
    and r: "r = result_of WARNING_DESCRIPTIONS b s0' e0'" by (rule extract_Inr)
  have se: "s0' = s0" "e0' = e0" using p assms(2,3) by simp_all
  let ?dq = "map dq_entry (finditer RE_CONV b)" and ?w = "map warn_entry_of (finditer RE_WARN b)"
  have pool: "pool_of r = all_timestamps ?dq ?w" unfolding r by (rule pool_of_result)
  have inf: "infer_times s0 e0 ?dq ?w =
      (if feq s0 (Fin 0) then py_min (pool_of r) else s0,
       if feq e0 (Fin 0) then py_max (pool_of r) else e0)"
    using assms(4,5) by (auto simp: infer_times_def Let_def pool)
  have b: "(start r, end' r) =
      force_duration (if feq s0 (Fin 0) then py_min (pool_of r) else s0,
                      if feq e0 (Fin 0) then py_max (pool_of r) else e0)"
    unfolding r result_bounds se inf[unfolded r se] ..
  have s: "start r = (if feq s0 (Fin 0) then py_min (pool_of r) else s0)"
    using b force_duration_start by (metis fst_conv)
  have e: "end' r = snd (force_duration (start r, if feq e0 (Fin 0) then py_max (pool_of r) else e0))"
    using b unfolding s by (metis snd_conv)
  note v = pool_values[OF assms(1)]
  show ?thesis
    using s e py_min_in[OF assms(5)] py_max_in[OF assms(5)] py_min_least[OF v] py_max_greatest[OF v]
    by blast
qed

theorem inferred_bounds_witness:
  "\<exists>r. extract_zzd_data log_diag3 = Inr r
       \<and> parse_start log_diag3 = Inr (Fin 0) \<and> parse_end log_diag3 = Inr (Fin 0)
       \<and> map r_time (warnings r) = [Fin 3, Fin (15 / 2), Fin 12]
       \<and> pool_of r = [Fin 3, Fin 12]
       \<and> start r = Fin 3 \<and> end' r = Fin 12"
proof -
  define r where "r = projr (extract_zzd_data log_diag3)"
  have e: "extract_zzd_data log_diag3 = Inr r" by (simp add: r_def log_diag3_extract)
  have pool: "pool_of r = [Fin 3, Fin 12]" by (simp add: r_def log_diag3_extract pool_of_def)
  have ts: "map r_time (warnings r) = [Fin 3, Fin (15 / 2), Fin 12]"
    by (simp add: r_def log_diag3_extract)
  have z: "feq (Fin 0) (Fin 0) \<or> feq (Fin 0) (Fin 0)" by simp
  have ne: "pool_of r \<noteq> []" by (simp add: pool)
  from inferred_bounds[OF e log_diag3_start log_diag3_end z ne]
  have "start r = py_min (pool_of r)"
    "end' r = snd (force_duration (start r, py_max (pool_of r)))"
    by simp_all
  then have "start r = Fin 3" "end' r = Fin 12"
    by (simp_all add: pool force_duration_def fge_def fgt_def)
  with e pool ts log_diag3_start log_diag3_end show ?thesis
    by (intro exI[of _ r] conjI)
qed

lemma search_spaces:
  "search RE_START (replicate n CHR '' '') = None" "search RE_END (replicate n CHR '' '') = None"
  by (induction n) (simp_all add: pattern_eval)

text \<open>
  C5: the start-time matcher sees the first 5000 bytes only and the end-time matcher the
  last 5000 bytes only; a marker outside its window is not found, and the bound is 0.0
  before inference.
\<close>

theorem markers_searched_in_windows:
  "(length pre = 5000 \<longrightarrow> parse_start (pre @ rest) = parse_start pre)
   \<and> (length suf = 5000 \<longrightarrow> parse_end (rest @ suf) = parse_end suf)
   \<and> (search RE_START (first_bytes 5000 b) = None \<longrightarrow> parse_start b = Inr (Fin 0))
   \<and> (search RE_END (last_bytes 5000 b) = None \<longrightarrow> parse_end b = Inr (Fin 0))
   \<and> parse_start ''start time 5'' = Inr (Fin 5)
   \<and> parse_start (replicate 5000 CHR '' '' @ ''start time 5'') = Inr (Fin 0)
   \<and> parse_end ''end time 9'' = Inr (Fin 9)
   \<and> parse_end (''end time 9'' @ replicate 5000 CHR '' '') = Inr (Fin 0)"
proof -
  have 1: "parse_start (pre @ rest) = parse_start pre" if "length pre = 5000" for pre rest
    using that by (simp add: parse_start_def first_bytes_def)
  have 2: "parse_end (rest @ suf) = parse_end suf" if "length suf = 5000" for suf rest
    using that by (simp add: parse_end_def last_bytes_def)
  have 3: "parse_start ''start time 5'' = Inr (Fin 5)"
    by (simp add: parse_start_def first_bytes_def pattern_eval regex_eval group_def float_eval)
  have 4: "parse_end ''end time 9'' = Inr (Fin 9)"
    by (simp add: parse_end_def last_bytes_def pattern_eval regex_eval group_def py_float_9)
  have 5: "parse_start (replicate 5000 CHR '' '') = Inr (Fin 0)"
    by (simp add: parse_start_def first_bytes_def search_spaces)
  have 6: "parse_end (replicate 5000 CHR '' '') = Inr (Fin 0)"
    by (simp add: parse_end_def last_bytes_def search_spaces)
  have 7: "parse_start (replicate 5000 CHR '' '' @ ''start time 5'') = Inr (Fin 0)"
    using 1[of "replicate 5000 CHR '' ''" "''start time 5''"] 5 by simp
  have 8: "parse_end (''end time 9'' @ replicate 5000 CHR '' '') = Inr (Fin 0)"
    using 2[of "replicate 5000 CHR '' ''" "''end time 9''"] 6 by simp
  show ?thesis using 1 2 3 4 7 8 by (simp add: parse_start_def parse_end_def)
qed

theorem markers_searched_in_windows_witness:
  "length (replicate 5000 CHR '' '') = 5000
   \<and> parse_start (replicate 5000 CHR '' '' @ ''start time 5'') = parse_start (replicate 5000 CHR '' '')
   \<and> parse_end (''end time 9'' @ replicate 5000 CHR '' '') = parse_end (replicate 5000 CHR '' '')
   \<and> search RE_START (first_bytes 5000 (replicate 5000 CHR '' '')) = None
   \<and> parse_start (replicate 5000 CHR '' '') = Inr (Fin 0)
   \<and> search RE_END (last_bytes 5000 (replicate 5000 CHR '' '')) = None
   \<and> parse_end (replicate 5000 CHR '' '') = Inr (Fin 0)"
proof -
  have l: "length (replicate 5000 CHR '' '') = 5000" by simp
  have s: "search RE_START (first_bytes 5000 (replicate 5000 CHR '' '')) = None"
    "search RE_END (last_bytes 5000 (replicate 5000 CHR '' '')) = None"
    by (simp_all add: first_bytes_def last_bytes_def search_spaces)
  note a = markers_searched_in_windows[where pre = "replicate 5000 CHR '' ''"
      and rest = "''start time 5''" and suf = "replicate 5000 CHR '' ''"
      and b = "replicate 5000 CHR '' ''"]
  note b = markers_searched_in_windows[where pre = "replicate 5000 CHR '' ''"
      and rest = "''end time 9''" and suf = "replicate 5000 CHR '' ''"
      and b = "replicate 5000 CHR '' ''"]
  have 1: "parse_start (replicate 5000 CHR '' '' @ ''start time 5'') = parse_start (replicate 5000 CHR '' '')"
    using a l by blast
  have 2: "parse_end (''end time 9'' @ replicate 5000 CHR '' '') = parse_end (replicate 5000 CHR '' '')"
    using b l by blast
  have 3: "parse_start (replicate 5000 CHR '' '') = Inr (Fin 0)" using a s(1) by blast
  have 4: "parse_end (replicate 5000 CHR '' '') = Inr (Fin 0)" using a s(2) by blast
  show ?thesis by (intro conjI) (fact l 1 2 3 4 s)+
qed

lemma RE_CONV_groups_shape:
  assumes "list_all2 seg_ok RE_CONV segs"
  shows "\<exists>P x1 T sp gap Q s1 s2 A1 s3 x5 H s4 s5 A2 s6.
         group (mk_match RE_CONV segs) 0 = P @ x1 @ T @ sp @ group (mk_match RE_CONV segs) 1 @ gap @ Q @ s1 @ group (mk_match RE_CONV segs) 2 @ s2 @ A1 @ s3
                     @ group (mk_match RE_CONV segs) 3 @ x5 @ H @ s4 @ group (mk_match RE_CONV segs) 4 @ s5 @ A2 @ s6 @ group (mk_match RE_CONV segs) 5
         \<and> map lower P = map lower ''Poor model convergence''
         \<and> map lower T = map lower ''time'' \<and> sp \<noteq> [] \<and> list_all is_space sp
         \<and> is_time_token (group (mk_match RE_CONV segs) 1) \<and> 2 \<le> count_list gap NL
         \<and> map lower Q = map lower ''MAX DQ='' \<and> list_all is_space s1 \<and> is_token (group (mk_match RE_CONV segs) 2)
         \<and> s2 \<noteq> [] \<and> list_all is_space s2 \<and> map lower A1 = map lower ''at''
         \<and> s3 \<noteq> [] \<and> list_all is_space s3 \<and> is_token (group (mk_match RE_CONV segs) 3)
         \<and> map lower H = map lower ''MAX DH='' \<and> list_all is_space s4 \<and> is_token (group (mk_match RE_CONV segs) 4)
         \<and> s5 \<noteq> [] \<and> list_all is_space s5 \<and> map lower A2 = map lower ''at''
         \<and> s6 \<noteq> [] \<and> list_all is_space s6 \<and> is_token (group (mk_match RE_CONV segs) 5)"
proof -
  from assms obtain P x1 T sp o1 a d b c1 y1 n1 y2 n2 y3 Q s1 o2 g2 c2 s2 A1 s3 o3 g3 c3 x5 H s4 o4 g4
    c4 s5 A2 s6 o5 g5 c5
    where segs: "segs = [P, x1, T, sp, o1, a, d, b, c1, y1, n1, y2, n2, y3, Q, s1, o2, g2, c2, s2, A1,
      s3, o3, g3, c3, x5, H, s4, o4, g4, c4, s5, A2, s6, o5, g5, c5]"
    and oc: "o1 = []" "c1 = []" "o2 = []" "c2 = []" "o3 = []" "c3 = []" "o4 = []" "c4 = []" "o5 = []" "c5 = []"
    and lits: "seg_ok (LitI ''Poor model convergence'') P" "seg_ok (LitI ''time'') T"
      "seg_ok (LitI [NL]) n1" "seg_ok (LitI [NL]) n2" "seg_ok (LitI ''MAX DQ='') Q"
      "seg_ok (LitI ''at'') A1" "seg_ok (LitI ''MAX DH='') H" "seg_ok (LitI ''at'') A2"
    and tm: "seg_ok (Plus Digit) a" "seg_ok (Opt (Chr CHR ''.'')) d" "seg_ok (Star Digit) b"
    and sps: "seg_ok (Plus Space) sp" "seg_ok (Star Space) s1" "seg_ok (Plus Space) s2"
      "seg_ok (Plus Space) s3" "seg_ok (Star Space) s4" "seg_ok (Plus Space) s5" "seg_ok (Plus Space) s6"
    and toks: "seg_ok (Plus NonSpace) g2" "seg_ok (Plus NonSpace) g3" "seg_ok (Plus NonSpace) g4"
      "seg_ok (Plus NonSpace) g5"
    unfolding RE_CONV_def by (auto simp: list_all2_Cons1)
  have ln: "map lower n1 = map lower [NL]" "map lower n2 = map lower [NL]"
    using lits(3,4) by (simp_all only: seg_ok.simps)
  have n: "n1 = [NL]" "n2 = [NL]" using seg_NL[OF ln(1)] seg_NL[OF ln(2)] by blast+
  define gap where "gap = y1 @ [NL] @ y2 @ [NL] @ y3"
  have m: "mk_match RE_CONV segs = [concat segs, a @ d @ b, g2, g3, g4, g5]"
    by (simp add: mk_match_def RE_CONV_def segs)
  have c: "concat segs = P @ x1 @ T @ sp @ (a @ d @ b) @ gap @ Q @ s1 @ g2 @ s2 @ A1 @ s3 @ g3 @ x5 @ H @ s4 @ g4 @ s5 @ A2 @ s6 @ g5"
    by (simp add: segs oc n gap_def)
  have g: "2 \<le> count_list gap NL" unfolding gap_def by (rule count_two_NL)
  have gr: "group (mk_match RE_CONV segs) 0 = concat segs" "group (mk_match RE_CONV segs) 1 = a @ d @ b"
    "group (mk_match RE_CONV segs) 2 = g2" "group (mk_match RE_CONV segs) 3 = g3"
    "group (mk_match RE_CONV segs) 4 = g4" "group (mk_match RE_CONV segs) 5 = g5"
    by (simp_all add: group_def m)
  show ?thesis
    unfolding gr
    apply (rule exI[of _ P], rule exI[of _ x1], rule exI[of _ T], rule exI[of _ sp])
    apply (rule exI[of _ gap], rule exI[of _ Q], rule exI[of _ s1], rule exI[of _ s2])
    apply (rule exI[of _ A1], rule exI[of _ s3], rule exI[of _ x5], rule exI[of _ H])
    apply (rule exI[of _ s4], rule exI[of _ s5], rule exI[of _ A2], rule exI[of _ s6])
    using c g time_group[OF tm] lits(1,2,5-8) seg_spaces[OF sps(1)] seg_spaces0[OF sps(2)]
      seg_spaces[OF sps(3)] seg_spaces[OF sps(4)] seg_spaces0[OF sps(5)] seg_spaces[OF sps(6)]
      seg_spaces[OF sps(7)] seg_token[OF toks(1)] seg_token[OF toks(2)] seg_token[OF toks(3)]
      seg_token[OF toks(4)]
    apply (simp only: seg_ok.simps)
    apply (intro conjI; assumption?)
    apply simp_all
    done
qed

text \<open>
  C6 (amended): every match of \<open>RE_CONV\<close> has the shape: the phrase, later \<open>time\<close>,
  whitespace, the time token, then text with at least two line breaks, \<open>MAX DQ=\<close> with
  a value token and a node label, later \<open>MAX DH=\<close> with a value token and a node label
  (literals up to ASCII case); and a text with fewer than two line breaks has no match.
\<close>

theorem conv_block_shape:
  "(m \<in> set (finditer RE_CONV b) \<longrightarrow>
      (\<exists>P x1 T sp gap Q s1 s2 A1 s3 x5 H s4 s5 A2 s6.
         group m 0 = P @ x1 @ T @ sp @ group m 1 @ gap @ Q @ s1 @ group m 2 @ s2 @ A1 @ s3
                     @ group m 3 @ x5 @ H @ s4 @ group m 4 @ s5 @ A2 @ s6 @ group m 5
         \<and> map lower P = map lower ''Poor model convergence''
         \<and> map lower T = map lower ''time'' \<and> sp \<noteq> [] \<and> list_all is_space sp
         \<and> is_time_token (group m 1) \<and> 2 \<le> count_list gap NL
         \<and> map lower Q = map lower ''MAX DQ='' \<and> list_all is_space s1 \<and> is_token (group m 2)
         \<and> s2 \<noteq> [] \<and> list_all is_space s2 \<and> map lower A1 = map lower ''at''
         \<and> s3 \<noteq> [] \<and> list_all is_space s3 \<and> is_token (group m 3)
         \<and> map lower H = map lower ''MAX DH='' \<and> list_all is_space s4 \<and> is_token (group m 4)
         \<and> s5 \<noteq> [] \<and> list_all is_space s5 \<and> map lower A2 = map lower ''at''
         \<and> s6 \<noteq> [] \<and> list_all is_space s6 \<and> is_token (group m 5)))
   \<and> (count_list b NL < 2 \<longrightarrow> finditer RE_CONV b = [])"
proof (intro conjI impI)
  assume "m \<in> set (finditer RE_CONV b)"
  from finditer_sound[OF this] obtain segs where m: "m = mk_match RE_CONV segs"
    and ok: "list_all2 seg_ok RE_CONV segs" by blast
  show "\<exists>P x1 T sp gap Q s1 s2 A1 s3 x5 H s4 s5 A2 s6.
         group m 0 = P @ x1 @ T @ sp @ group m 1 @ gap @ Q @ s1 @ group m 2 @ s2 @ A1 @ s3
                     @ group m 3 @ x5 @ H @ s4 @ group m 4 @ s5 @ A2 @ s6 @ group m 5
         \<and> map lower P = map lower ''Poor model convergence''
         \<and> map lower T = map lower ''time'' \<and> sp \<noteq> [] \<and> list_all is_space sp
         \<and> is_time_token (group m 1) \<and> 2 \<le> count_list gap NL
         \<and> map lower Q = map lower ''MAX DQ='' \<and> list_all is_space s1 \<and> is_token (group m 2)
         \<and> s2 \<noteq> [] \<and> list_all is_space s2 \<and> map lower A1 = map lower ''at''
         \<and> s3 \<noteq> [] \<and> list_all is_space s3 \<and> is_token (group m 3)
         \<and> map lower H = map lower ''MAX DH='' \<and> list_all is_space s4 \<and> is_token (group m 4)
         \<and> s5 \<noteq> [] \<and> list_all is_space s5 \<and> map lower A2 = map lower ''at''
         \<and> s6 \<noteq> [] \<and> list_all is_space s6 \<and> is_token (group m 5)"
    unfolding m by (rule RE_CONV_groups_shape[OF ok])
next
  assume "count_list b NL < 2"
  then show "finditer RE_CONV b = []" by (rule finditer_RE_CONV_few_lines)
qed

theorem conv_block_shape_witness:
  "(\<exists>m. finditer RE_CONV log_conv = [m]
      \<and> group m 1 = ''10.5'' \<and> group m 2 = ''0.003'' \<and> group m 3 = ''N1''
      \<and> group m 4 = ''0.012'' \<and> group m 5 = ''N2''
      \<and> (\<exists>pre gap post. group m 0 = pre @ group m 1 @ gap @ post \<and> 2 \<le> count_list gap NL))
   \<and> count_list log_one_line NL < 2 \<and> finditer RE_CONV log_one_line = []"
proof -
  define m where "m = hd (finditer RE_CONV log_conv)"
  have f: "finditer RE_CONV log_conv = [m]" by (simp add: m_def log_conv_conv)
  have g: "group m 1 = ''10.5''" "group m 2 = ''0.003''" "group m 3 = ''N1''"
    "group m 4 = ''0.012''" "group m 5 = ''N2''"
    by (simp_all add: m_def log_conv_conv group_def)
  have "m \<in> set (finditer RE_CONV log_conv)" by (simp add: f)
  with conv_block_shape[of m log_conv]
  obtain P x1 T sp gap Q s1 s2 A1 s3 x5 H s4 s5 A2 s6 where
    "group m 0 = P @ x1 @ T @ sp @ group m 1 @ gap @ Q @ s1 @ group m 2 @ s2 @ A1 @ s3
                     @ group m 3 @ x5 @ H @ s4 @ group m 4 @ s5 @ A2 @ s6 @ group m 5"
    "2 \<le> count_list gap NL" by blast
  then have "group m 0 = (P @ x1 @ T @ sp) @ group m 1 @ gap @ (Q @ s1 @ group m 2 @ s2 @ A1 @ s3
                     @ group m 3 @ x5 @ H @ s4 @ group m 4 @ s5 @ A2 @ s6 @ group m 5)"
    "2 \<le> count_list gap NL" by simp_all
  then have sh: "\<exists>pre gap post. group m 0 = pre @ group m 1 @ gap @ post \<and> 2 \<le> count_list gap NL"
    by blast
  have c: "count_list log_one_line NL < 2" by (simp add: log_one_line_def NL_def)
  with conv_block_shape[of m log_one_line] have n: "finditer RE_CONV log_one_line = []" by blast
  from f g sh have "\<exists>m. finditer RE_CONV log_conv = [m]
      \<and> group m 1 = ''10.5'' \<and> group m 2 = ''0.003'' \<and> group m 3 = ''N1''
      \<and> group m 4 = ''0.012'' \<and> group m 5 = ''N2''
      \<and> (\<exists>pre gap post. group m 0 = pre @ group m 1 @ gap @ post \<and> 2 \<le> count_list gap NL)"
    by (intro exI[of _ m] conjI)
  with c n show ?thesis by (intro conjI)
qed

text \<open>
  C6 as stated fails: with \<open>re.DOTALL\<close> each \<open>.*?\<close> runs over line breaks, so a block with
  three line breaks between the time and \<open>MAX DQ=\<close> matches as well.
\<close>

theorem three_line_block_matches:
  "map (\<lambda>m. (group m 1, group m 2, group m 3, group m 4, group m 5)) (finditer RE_CONV log_three_lines)
     = [(''10.5'', ''0.003'', ''N1'', ''0.012'', ''N2'')]
   \<and> log_three_lines = ''Poor model convergence at time 10.5 hrs'' @ [NL] @ '' a'' @ [NL] @ '' b''
        @ [NL] @ '' MAX DQ= 0.003 at N1  MAX DH= 0.012 at N2'' @ [NL]"
  by (simp add: log_three_lines_conv group_def) (simp add: log_three_lines_def)

text \<open>
  C7 (amended): the DQ and DH sequences of a returned result have one entry per match of
  \<open>RE_CONV\<close>, in the same order and with equal times at equal positions; a buffer in
  which \<open>MAX DQ=\<close> or \<open>MAX DH=\<close> does not occur yields no entry at all; the block with
  time 10.5, DQ 0.003 at N1 and DH 0.012 at N2 yields exactly one pair with these five
  values.
\<close>

theorem conv_pairing:
  assumes "extract_zzd_data b = Inr r"
  shows "length (dq r) = length (finditer RE_CONV b) \<and> length (dh r) = length (dq r)
    \<and> (\<forall>i<length (dq r). time (dh r ! i) = time (dq r ! i))
    \<and> (\<not> contains_i ''MAX DQ='' b \<or> \<not> contains_i ''MAX DH='' b \<longrightarrow> dq r = [] \<and> dh r = [])
    \<and> extract_zzd_data log_conv =
        Inr \<lparr>dq = [\<lparr>time = Fin (21 / 2), val = Fin (3458764513820541 / 1152921504606846976),
                     node = ''N1''\<rparr>],
             dh = [\<lparr>time = Fin (21 / 2), val = Fin (3458764513820541 / 288230376151711744),
                     node = ''N2''\<rparr>],
             warnings = [], start = Fin (21 / 2), end' = Fin (23 / 2),
             fail_t = None, fail_c = None\<rparr>
    \<and> round_double (21 / 2) = Fin (21 / 2)
    \<and> round_double (3 / 1000) = Fin (3458764513820541 / 1152921504606846976)
    \<and> round_double (12 / 1000) = Fin (3458764513820541 / 288230376151711744)"
proof -
  from assms obtain s0 e0 where r: "r = result_of WARNING_DESCRIPTIONS b s0 e0" by (rule extract_Inr)
  have q: "dq r = map dq_entry (finditer RE_CONV b)" "dh r = map dh_entry (finditer RE_CONV b)"
    by (simp_all add: r result_of_def Let_def)
  have 1: "length (dq r) = length (finditer RE_CONV b)" "length (dh r) = length (dq r)"
    by (simp_all add: q)
  have 2: "\<forall>i<length (dq r). time (dh r ! i) = time (dq r ! i)"
    by (simp add: q dh_entry_time)
  have 3: "\<not> contains_i ''MAX DQ='' b \<or> \<not> contains_i ''MAX DH='' b \<longrightarrow> dq r = [] \<and> dh r = []"
  proof
    assume n: "\<not> contains_i ''MAX DQ='' b \<or> \<not> contains_i ''MAX DH='' b"
    have "LitI ''MAX DQ='' \<in> set RE_CONV" "LitI ''MAX DH='' \<in> set RE_CONV"
      by (simp_all add: RE_CONV_def)
    then have "finditer RE_CONV b = []" using n finditer_no_literal by blast
    then show "dq r = [] \<and> dh r = []" by (simp add: q)
  qed
  have 4: "round_double (21 / 2) = Fin (21 / 2)"
    "round_double (3 / 1000) = Fin (3458764513820541 / 1152921504606846976)"
    "round_double (12 / 1000) = Fin (3458764513820541 / 288230376151711744)"
    using round_pos_10_5 round_pos_0_003 round_pos_0_012 by (simp_all add: round_double_def)
  show ?thesis using 1 2 3 4 log_conv_extract by (intro conjI)
qed

theorem conv_pairing_witness:
  "(\<exists>r. extract_zzd_data log_conv = Inr r \<and> length (dq r) = 1 \<and> length (dh r) = 1
        \<and> time (dh r ! 0) = time (dq r ! 0))
   \<and> (\<exists>r. extract_zzd_data log_conv_missing = Inr r \<and> \<not> contains_i ''MAX DH='' log_conv_missing
        \<and> dq r = [] \<and> dh r = [])"
proof -
  define r where "r = projr (extract_zzd_data log_conv)"
  have e: "extract_zzd_data log_conv = Inr r" by (simp add: r_def log_conv_extract)
  have l: "length (finditer RE_CONV log_conv) = 1" by (simp add: log_conv_conv)
  from conv_pairing[OF e] have a: "length (dq r) = 1" "length (dh r) = 1"
    "time (dh r ! 0) = time (dq r ! 0)" by (simp_all add: l)
  define r' where "r' = projr (extract_zzd_data log_conv_missing)"
  have e': "extract_zzd_data log_conv_missing = Inr r'" by (simp add: r'_def log_conv_missing_extract)
  have n: "\<not> contains_i ''MAX DH='' log_conv_missing"
    by (simp add: log_conv_missing_def literal_eval)
  from conv_pairing[OF e'] n have b: "dq r' = []" "dh r' = []" by blast+
  from e a have 1: "\<exists>r. extract_zzd_data log_conv = Inr r \<and> length (dq r) = 1 \<and> length (dh r) = 1
        \<and> time (dh r ! 0) = time (dq r ! 0)" by (intro exI[of _ r] conjI)
  from e' n b have 2: "\<exists>r. extract_zzd_data log_conv_missing = Inr r
        \<and> \<not> contains_i ''MAX DH='' log_conv_missing \<and> dq r = [] \<and> dh r = []"
    by (intro exI[of _ r'] conjI)
  from 1 2 show ?thesis by (intro conjI)
qed

text \<open>
  C7 as stated fails: a block without its \<open>MAX DH=\<close> measurement does yield a record when
  a later block has one.  With \<open>re.DOTALL\<close> the \<open>.*?\<close> before \<open>MAX DH=\<close> runs on into the
  next block, so the time and DQ of the first block are paired with the DH of the second.
\<close>

theorem incomplete_block_borrows:
  "log_two_blocks =
     (''Poor model convergence at time 1 hrs'' @ [NL] @ '' iter 4'' @ [NL] @ '' MAX DQ= 0.5 at A1'' @ [NL])
     @ (''Poor model convergence at time 2 hrs'' @ [NL] @ '' iter 4'' @ [NL]
        @ '' MAX DQ= 0.25 at B1  MAX DH= 0.75 at B2'' @ [NL])
   \<and> \<not> contains_i ''MAX DH=''
         (''Poor model convergence at time 1 hrs'' @ [NL] @ '' iter 4'' @ [NL] @ '' MAX DQ= 0.5 at A1'' @ [NL])
   \<and> extract_zzd_data log_two_blocks =
       Inr \<lparr>dq = [\<lparr>time = Fin 1, val = Fin (1 / 2), node = ''A1''\<rparr>],
            dh = [\<lparr>time = Fin 1, val = Fin (3 / 4), node = ''B2''\<rparr>],
            warnings = [], start = Fin 1, end' = Fin 2, fail_t = None, fail_c = None\<rparr>"
proof -
  have n: "\<not> contains_i ''MAX DH=''
         (''Poor model convergence at time 1 hrs'' @ [NL] @ '' iter 4'' @ [NL] @ '' MAX DQ= 0.5 at A1'' @ [NL])"
    by (simp add: literal_eval)
  have d: "log_two_blocks =
     (''Poor model convergence at time 1 hrs'' @ [NL] @ '' iter 4'' @ [NL] @ '' MAX DQ= 0.5 at A1'' @ [NL])
     @ (''Poor model convergence at time 2 hrs'' @ [NL] @ '' iter 4'' @ [NL]
        @ '' MAX DQ= 0.25 at B1  MAX DH= 0.75 at B2'' @ [NL])"
    by (simp add: log_two_blocks_def)
  from d n log_two_blocks_extract show ?thesis by (intro conjI)
qed

text \<open>
  C8: every returned diagnostic row has a non-empty description: the entry of
  \<open>WARNING_DESCRIPTIONS\<close> for its code when there is one, and \<open>Unknown Warning\<close> otherwise.
\<close>

theorem descriptions_total:
  assumes "extract_zzd_data b = Inr r" "w \<in> set (warnings r)"
  shows "r_note w \<noteq> []
    \<and> r_note w = (case WARNING_DESCRIPTIONS (r_code w) of Some d \<Rightarrow> d | None \<Rightarrow> ''Unknown Warning'')"
proof -
  from assms(1) obtain s0 e0 where r: "r = result_of WARNING_DESCRIPTIONS b s0 e0" by (rule extract_Inr)
  from assms(2) obtain x where w: "w = add_note WARNING_DESCRIPTIONS x"
    by (auto simp: r result_of_def Let_def)
  have n: "r_note w = (case WARNING_DESCRIPTIONS (r_code w) of Some d \<Rightarrow> d | None \<Rightarrow> ''Unknown Warning'')"
    by (simp add: w add_note_def)
  have "r_note w \<noteq> []"
  proof (cases "WARNING_DESCRIPTIONS (r_code w)")
    case None
    then show ?thesis by (simp add: n)
  next
    case (Some d)
    with descriptions_nonempty[OF Some] show ?thesis by (simp add: n)
  qed
  with n show ?thesis by blast
qed

theorem descriptions_total_witness:
  "\<exists>r. extract_zzd_data log_diag3 = Inr r
     \<and> map (\<lambda>w. (r_code w, r_note w)) (warnings r) =
         [(''W2000'', ''Poor model convergence''),
          (''N3002'', ''Very small change in heads results in large change in flow''),
          (''X9999'', ''Unknown Warning'')]
     \<and> WARNING_DESCRIPTIONS ''X9999'' = None
     \<and> (\<forall>w\<in>set (warnings r). r_note w \<noteq> [])"
proof -
  define r where "r = projr (extract_zzd_data log_diag3)"
  have e: "extract_zzd_data log_diag3 = Inr r" by (simp add: r_def log_diag3_extract)
  have m: "map (\<lambda>w. (r_code w, r_note w)) (warnings r) =
         [(''W2000'', ''Poor model convergence''),
          (''N3002'', ''Very small change in heads results in large change in flow''),
          (''X9999'', ''Unknown Warning'')]"
    by (simp add: r_def log_diag3_extract)
  have a: "\<forall>w\<in>set (warnings r). r_note w \<noteq> []" using descriptions_total[OF e] by blast
  from e m description_X9999 a show ?thesis by (intro exI[of _ r] conjI)
qed

text \<open>
  C10: every time in a returned result is at least 0.0: both bounds, every convergence
  time and every diagnostic time.
\<close>

theorem times_nonnegative:
  assumes "extract_zzd_data b = Inr r"
  shows "fge (start r) (Fin 0) \<and> fge (end' r) (Fin 0)
    \<and> (\<forall>e\<in>set (dq r). fge (time e) (Fin 0))
    \<and> (\<forall>e\<in>set (dh r). fge (time e) (Fin 0))
    \<and> (\<forall>w\<in>set (warnings r). fge (r_time w) (Fin 0))"
  using result_times[OF assms[unfolded extract_zzd_data_def]] time_value_ge0 by blast

theorem times_nonnegative_witness:
  "\<exists>r. extract_zzd_data log_single = Inr r
     \<and> start r = Fin (2773 / 4) \<and> end' r = Fin (2777 / 4)
     \<and> map r_time (warnings r) = [Fin (2773 / 4)]
     \<and> fge (start r) (Fin 0) \<and> fge (end' r) (Fin 0)
     \<and> list_all (\<lambda>w. fge (r_time w) (Fin 0)) (warnings r)"
proof -
  define r where "r = projr (extract_zzd_data log_single)"
  have e: "extract_zzd_data log_single = Inr r" by (simp add: r_def log_single_extract)
  have v: "start r = Fin (2773 / 4)" "end' r = Fin (2777 / 4)"
    "map r_time (warnings r) = [Fin (2773 / 4)]"
    by (simp_all add: r_def log_single_extract)
  from times_nonnegative[OF e] have n: "fge (start r) (Fin 0)" "fge (end' r) (Fin 0)"
    "list_all (\<lambda>w. fge (r_time w) (Fin 0)) (warnings r)"
    by (simp_all add: list_all_iff)
  from e v n show ?thesis by (intro exI[of _ r] conjI)
qed

end
